(* ===== verification/BabbleBase.thy ===== *)
theory BabbleBase
  imports Main "HOL-Library.Word"
begin

text \<open>
  Prelude: the machine types, the ways a C++ call can end, the sequencing operator of
  fallible calls, reads of a byte buffer, and the generic lemmas the component theories
  share.

  A C++ function that may throw returns a value of \<open>'a res\<close>: \<open>Inr\<close> is a normal
  return, \<open>Inl\<close> says how the call stopped otherwise. \<open>Undefined\<close> marks a point
  where the C++ standard gives the execution no meaning (a read outside a buffer, a
  variable-length array with no valid size, ...); it is a result of its own, so no theorem
  can use a value the code does not define.
\<close>

unbundle bit_operations_syntax

section \<open>Machine types\<close>

text \<open>
  LP64: \<open>unsigned char\<close> is 8 bits, \<open>int\<close> 32, \<open>long\<close> 64. A \<open>std::string\<close> and a
  \<open>vector<unsigned char>\<close> are both lists of bytes.
\<close>

type_synonym byte = "8 word"
type_synonym bytes = "byte list"
type_synonym cint = "32 word"
type_synonym clong = "64 word"

text \<open>The bytes of an ASCII literal.\<close>

definition ascii :: "string \<Rightarrow> bytes" where
  "ascii s = map of_char s"

lemma length_ascii [simp]: "length (ascii s) = length s"
  by (simp add: ascii_def)

section \<open>How a call ends\<close>

text \<open>The messages of \<open>SPChatException.h\<close>.\<close>

datatype spchat_msg =
    BAD_INPUT_EXCEPTION | TOO_SHORT_EXCEPTION | NEGATIVE_NUM_EXCEPTION
  | BAD_USERNAME_EXCEPTION | BAD_HEADER_EXCEPTION | NO_SUCH_TYPE_EXCEPTION
  | BAD_KEY_EXCEPTION | BAD_CHALLENGE_EXCEPTION | INVALID_ERROR_EXCEPTION
  | INVALID_SENDER_EXCEPTION | MSG_LENGTH_EXCEPTION | ASYMMETRIC_KEY_EXCEPTION

text \<open>
  What the code throws: an \<open>SPChatException\<close>, a \<open>SocketException\<close> (both are
  \<open>runtime_error\<close>s), another \<open>runtime_error\<close>, an exception of
  Crypto++, (in \<open>bufferToString\<close>) a bare \<open>std::string\<close>, or the \<open>std::length_error\<close> of
  a string built with an impossible length.
\<close>

datatype exn =
    SPChatException spchat_msg
  | SocketException string
  | RuntimeError string
  | CryptoException
  | StringThrown spchat_msg
  | LengthError

datatype ub = OutOfBounds | BadArraySize

datatype stop =
    Throw exn
  | Undefined ub
  | Blocks        \<comment> \<open>a system call that never returns\<close>
  | Killed        \<comment> \<open>SIGPIPE has terminated the process\<close>

type_synonym 'a res = "stop + 'a"

abbreviation spchat_throw :: "spchat_msg \<Rightarrow> 'a res" where
  "spchat_throw m \<equiv> Inl (Throw (SPChatException m))"

definition rbind :: "'x + 'a \<Rightarrow> ('a \<Rightarrow> 'x + 'b) \<Rightarrow> 'x + 'b" where
  "rbind r f = (case r of Inl x \<Rightarrow> Inl x | Inr a \<Rightarrow> f a)"

definition is_undefined :: "'a res \<Rightarrow> bool" where
  "is_undefined r = (case r of Inl (Undefined u) \<Rightarrow> True | _ \<Rightarrow> False)"

named_theorems res_simps \<open>sequencing of fallible calls\<close>
named_theorems rd_simps \<open>reads of a byte buffer\<close>
named_theorems codec_simps \<open>lengths and shapes of encodings\<close>

lemma rbind_Inl [simp, res_simps]: "rbind (Inl x) f = Inl x"
  by (simp add: rbind_def)

lemma rbind_Inr [simp, res_simps]: "rbind (Inr a) f = f a"
  by (simp add: rbind_def)

lemma rbind_eq_Inr [res_simps]:
  "rbind r f = Inr b \<longleftrightarrow> (\<exists>a. r = Inr a \<and> f a = Inr b)"
  by (cases r) auto

lemma rbind_eq_Inl [res_simps]:
  "rbind r f = Inl x \<longleftrightarrow> r = Inl x \<or> (\<exists>a. r = Inr a \<and> f a = Inl x)"
  by (cases r) auto

lemma rbind_assoc: "rbind (rbind r f) g = rbind r (\<lambda>a. rbind (f a) g)"
  by (cases r) auto

lemma rbindE:
  assumes "rbind r f = Inr b"
  obtains a where "r = Inr a" and "f a = Inr b"
  using assms by (auto simp: rbind_eq_Inr)

lemma is_undefined_simps [simp]:
  "is_undefined (Inr a) = False"
  "is_undefined (Inl (Throw e)) = False"
  "is_undefined (Inl (Undefined u)) = True"
  "is_undefined (Inl Blocks) = False"
  "is_undefined (Inl Killed) = False"
  by (simp_all add: is_undefined_def)

lemma is_undefined_rbind [res_simps]:
  "is_undefined (rbind r f) \<longleftrightarrow>
     is_undefined r \<or> (\<exists>a. r = Inr a \<and> is_undefined (f a))"
  by (cases r) (auto simp: is_undefined_def)

lemma defined_rbindI:
  assumes "\<not> is_undefined r" and "\<And>a. r = Inr a \<Longrightarrow> \<not> is_undefined (f a)"
  shows "\<not> is_undefined (rbind r f)"
  using assms by (auto simp: is_undefined_rbind)

section \<open>Reading a buffer\<close>

text \<open>
  \<open>buf[i]\<close>: the buffer is the memory the code was given; reading outside it is undefined
  behaviour whatever length the code was told.
\<close>

definition rd :: "'a list \<Rightarrow> int \<Rightarrow> 'a res" where
  "rd buf i = (if 0 \<le> i \<and> i < int (length buf) then Inr (buf ! nat i)
               else Inl (Undefined OutOfBounds))"

primrec rdn :: "'a list \<Rightarrow> int \<Rightarrow> nat \<Rightarrow> 'a list res" where
  "rdn buf i 0 = Inr []"
| "rdn buf i (Suc n) = rbind (rd buf i) (\<lambda>b. rbind (rdn buf (i + 1) n) (\<lambda>bs. Inr (b # bs)))"

lemma rd_in [rd_simps]: "i < length buf \<Longrightarrow> rd buf (int i) = Inr (buf ! i)"
  by (simp add: rd_def)

lemma rd_eq_Inr:
  "rd buf i = Inr b \<longleftrightarrow> 0 \<le> i \<and> i < int (length buf) \<and> b = buf ! nat i"
  by (auto simp: rd_def)

lemma rd_undefined [simp]:
  "is_undefined (rd buf i) \<longleftrightarrow> \<not> (0 \<le> i \<and> i < int (length buf))"
  by (simp add: rd_def)

lemma rd_append [rd_simps]: "rd (pre @ b # post) (int (length pre)) = Inr b"
  by (simp add: rd_def)

lemma rdn_in:
  "k + n \<le> length buf \<Longrightarrow> rdn buf (int k) n = Inr (take n (drop k buf))"
proof (induction n arbitrary: k)
  case 0
  then show ?case by simp
next
  case (Suc n)
  then have "rdn buf (int (Suc k)) n = Inr (take n (drop (Suc k) buf))"
    by (intro Suc.IH) simp
  with Suc.prems show ?case
    by (simp add: rd_in Cons_nth_drop_Suc [symmetric] add.commute)
qed

lemma rdn_eq:
  assumes "0 \<le> i" and "i + int n \<le> int (length buf)"
  shows "rdn buf i n = Inr (take n (drop (nat i) buf))"
  using rdn_in [of "nat i" n buf] assms by simp

lemma rdn_append [rd_simps]:
  "n = length xs \<Longrightarrow> rdn (pre @ xs @ post) (int (length pre)) n = Inr xs"
  by (simp add: rdn_in)

lemma rdn_length: "rdn buf i n = Inr bs \<Longrightarrow> length bs = n"
  by (induction n arbitrary: i bs) (auto simp: rbind_eq_Inr)

lemma rdn_short:
  "k \<le> length buf \<Longrightarrow> length buf < k + n \<Longrightarrow> rdn buf (int k) n = Inl (Undefined OutOfBounds)"
proof (induction n arbitrary: k)
  case (Suc n)
  show ?case
  proof (cases "k < length buf")
    case True
    have "rdn buf (int (Suc k)) n = Inl (Undefined OutOfBounds)"
      by (rule Suc.IH) (use Suc.prems True in simp_all)
    with True show ?thesis by (simp add: rd_in add.commute)
  qed (simp add: rd_def)
qed simp

section \<open>Words\<close>

lemma sint_word_of_nat32:
  "n < 2 ^ 31 \<Longrightarrow> sint (word_of_nat n :: cint) = int n"
  by (simp add: signed_of_nat signed_take_bit_int_eq_self)

lemma sint_word_of_nat64:
  "n < 2 ^ 63 \<Longrightarrow> sint (word_of_nat n :: clong) = int n"
  by (simp add: signed_of_nat signed_take_bit_int_eq_self)

lemma sint_word_of_int64:
  "- (2 ^ 63) \<le> n \<Longrightarrow> n < 2 ^ 63 \<Longrightarrow> sint (word_of_int n :: clong) = n"
  by (simp add: signed_of_int signed_take_bit_int_eq_self)

end
