(* ===== verification/Codec.thy ===== *)
theory Codec
  imports BabbleBase
begin

text \<open>
  The interface between the serialisation primitives and the message classes.

  A decoder of the code takes the buffer, its length and a cursor \<open>int *pos\<close>, and returns
  a value and the advanced cursor. \<open>field_reader\<close> states what such a decoder promises
  whatever bytes it is given (it throws an \<open>SPChatException\<close> or it has read exactly the
  encoding of the value it returns); \<open>field_codec\<close> adds that it succeeds on encodings.
  The context \<open>c\<close> is whatever else the decoder depends on: the byte order of the
  host, or memory the code reads before it has written it.
\<close>

section \<open>The bytes at a cursor\<close>

definition rest_at :: "bytes \<Rightarrow> nat \<Rightarrow> bytes \<Rightarrow> bool" where
  "rest_at buf k r \<longleftrightarrow> k \<le> length buf \<and> drop k buf = r"

lemma rest_at_0 [simp]: "rest_at buf 0 r \<longleftrightarrow> buf = r"
  by (simp add: rest_at_def)

lemma rest_at_le: "rest_at buf k r \<Longrightarrow> k \<le> length buf"
  by (simp add: rest_at_def)

lemma rest_at_length: "rest_at buf k r \<Longrightarrow> length buf = k + length r"
  by (auto simp: rest_at_def)

lemma rest_at_exists: "k \<le> length buf \<Longrightarrow> \<exists>r. rest_at buf k r"
  by (simp add: rest_at_def)

lemma rest_at_append: "rest_at buf k (xs @ ys) \<Longrightarrow> rest_at buf (k + length xs) ys"
proof -
  assume r: "rest_at buf k (xs @ ys)"
  have "drop (k + length xs) buf = drop (length xs) (drop k buf)" by (simp add: add.commute)
  with r rest_at_length [OF r] show ?thesis by (auto simp: rest_at_def)
qed

lemma rest_at_splice:
  assumes "rest_at buf k (xs @ r)" and "rest_at buf (k + length xs) s"
  shows "rest_at buf k (xs @ s)"
  using assms(1) rest_at_append [OF assms(1)] assms(2) by (auto simp: rest_at_def)

lemma rest_at_rd:
  "rest_at buf k r \<Longrightarrow> i < length r \<Longrightarrow> rd buf (int k + int i) = Inr (r ! i)"
proof -
  assume r: "rest_at buf k r" and i: "i < length r"
  from rest_at_length [OF r] i have "k + i < length buf" by simp
  moreover from r have "buf ! (k + i) = r ! i" by (auto simp: rest_at_def)
  ultimately show ?thesis using rd_in [of "k + i" buf] by simp
qed

lemma rest_at_rdn:
  "rest_at buf k r \<Longrightarrow> n \<le> length r \<Longrightarrow> rdn buf (int k) n = Inr (take n r)"
proof -
  assume r: "rest_at buf k r" and n: "n \<le> length r"
  from rest_at_length [OF r] n have "k + n \<le> length buf" by simp
  from rdn_in [OF this] r show ?thesis by (auto simp: rest_at_def)
qed

section \<open>Decoding a sequence\<close>

text \<open>
  \<open>for (i = 0; i < n; i++) list.push_back(dec(buf, len, pos))\<close>: the first exception ends
  the loop. The decoder may depend on the index.
\<close>

primrec decode_loop ::
  "(nat \<Rightarrow> bytes \<Rightarrow> int \<Rightarrow> int \<Rightarrow> ('a \<times> int) res) \<Rightarrow> bytes \<Rightarrow> int \<Rightarrow> int \<Rightarrow> nat \<Rightarrow> nat
     \<Rightarrow> ('a list \<times> int) res" where
  "decode_loop dec buf len pos i 0 = Inr ([], pos)"
| "decode_loop dec buf len pos i (Suc n) =
     rbind (dec i buf len pos)
       (\<lambda>(x, pos). rbind (decode_loop dec buf len pos (Suc i) n)
                     (\<lambda>(xs, pos). Inr (x # xs, pos)))"

section \<open>The reader's contract\<close>

definition only_spchat :: "'a res \<Rightarrow> bool" where
  "only_spchat r = (case r of Inr a \<Rightarrow> True | Inl (Throw (SPChatException m)) \<Rightarrow> True | _ \<Rightarrow> False)"

lemma only_spchat_simps [simp]:
  "only_spchat (Inr a)" "only_spchat (spchat_throw m)"
  by (simp_all add: only_spchat_def)

lemma only_spchat_cases:
  assumes "only_spchat r"
  obtains a where "r = Inr a" | m where "r = spchat_throw m"
  using assms by (cases r) (auto simp: only_spchat_def split: stop.splits exn.splits)

lemma only_spchat_rbind:
  "only_spchat r \<Longrightarrow> (\<And>a. r = Inr a \<Longrightarrow> only_spchat (f a)) \<Longrightarrow> only_spchat (rbind r f)"
  by (erule only_spchat_cases) auto

lemma only_spchat_defined: "only_spchat r \<Longrightarrow> \<not> is_undefined r"
  by (erule only_spchat_cases) auto

text \<open>A guard of a setter in the middle of such a sequence.\<close>

lemma guard_seq:
  assumes "\<And>m. P (spchat_throw m)" and "b \<Longrightarrow> P (f a)"
  shows "P (rbind (if \<not> b then spchat_throw e else Inr a) f)"
  using assms by simp

lemma guard_seq':
  assumes "\<And>m. P (spchat_throw m)" and "\<not> b \<Longrightarrow> P (f a)"
  shows "P (rbind (if b then spchat_throw e else Inr a) f)"
  using assms by simp

locale field_reader =
  fixes enc :: "'a \<Rightarrow> bytes"
    and dec :: "'c \<Rightarrow> bytes \<Rightarrow> int \<Rightarrow> int \<Rightarrow> ('a \<times> int) res"
    and ok :: "'a \<Rightarrow> bool"
  assumes stops: "k \<le> length buf \<Longrightarrow> only_spchat (dec c buf (int (length buf)) (int k))"
    and faithful: "k \<le> length buf \<Longrightarrow> dec c buf (int (length buf)) (int k) = Inr (x, q) \<Longrightarrow>
      ok x \<and> q = int (k + length (enc x)) \<and> (\<exists>r. rest_at buf k (enc x @ r))"
begin

text \<open>After a successful read the cursor is still inside the buffer.\<close>

lemma readE:
  assumes "dec c buf (int (length buf)) (int k) = Inr (x, q)" and "k \<le> length buf"
  obtains r where "ok x" "q = int (k + length (enc x))" "rest_at buf k (enc x @ r)"
    "rest_at buf (k + length (enc x)) r" "k + length (enc x) \<le> length buf"
  using faithful [OF assms(2,1)] by (meson rest_at_append rest_at_le)

text \<open>A reader in front of a continuation: only \<open>SPChatException\<close>s, so never undefined.\<close>

lemma stops_then:
  assumes "k \<le> length buf"
    and "\<And>x j. ok x \<Longrightarrow> j \<le> length buf \<Longrightarrow> only_spchat (f (x, int j))"
  shows "only_spchat (rbind (dec c buf (int (length buf)) (int k)) f)"
proof (rule only_spchat_rbind)
  show "only_spchat (dec c buf (int (length buf)) (int k))" by (rule stops) fact
  fix a assume a: "dec c buf (int (length buf)) (int k) = Inr a"
  then obtain x q where xq: "a = (x, q)" by (cases a)
  from a assms(1) show "only_spchat (f a)"
    unfolding xq by (elim readE) (auto simp del: of_nat_add intro: assms(2))
qed

text \<open>
  Sequencing for the constructors that read one field after another: \<open>acc\<close> is what
  has been consumed since position \<open>k\<close>.
\<close>

lemma reads_seq:
  assumes "rest_at buf k (acc @ r0)" and "\<And>m. P (spchat_throw m)"
    and "\<And>x r. ok x \<Longrightarrow> rest_at buf k ((acc @ enc x) @ r) \<Longrightarrow>
           P (f (x, int (k + length (acc @ enc x))))"
  shows "P (rbind (dec c buf (int (length buf)) (int (k + length acc))) f)"
proof -
  have le: "k + length acc \<le> length buf" using rest_at_length [OF assms(1)] by simp
  from stops [OF le, of c] show ?thesis
  proof (cases rule: only_spchat_cases)
    case (1 a)
    obtain x q where a: "a = (x, q)" by (cases a)
    from faithful [OF le 1 [unfolded a]] obtain r where
      x: "ok x" "q = int (k + length acc + length (enc x))" "rest_at buf (k + length acc) (enc x @ r)"
      by auto
    have "rest_at buf k ((acc @ enc x) @ r)" using rest_at_splice [OF assms(1) x(3)] by simp
    from assms(3) [OF x(1) this] have "P (f (x, int (k + length (acc @ enc x))))" .
    moreover have "dec c buf (int (length buf)) (int (k + length acc)) = Inr (x, int (k + length (acc @ enc x)))"
      using 1 a x(2) by (simp add: add.assoc)
    ultimately show ?thesis by (simp only: rbind_Inr)
  next
    case (2 m)
    then show ?thesis by (simp add: assms(2))
  qed
qed

text \<open>A read followed by the guard of a setter, \<open>if (!b) throw\<close> or \<open>if (b) throw\<close>.\<close>

lemma reads_guard:
  assumes "rest_at buf k (acc @ r0)" and "\<And>m. P (spchat_throw m)"
    and "\<And>x r. ok x \<Longrightarrow> b x \<Longrightarrow> rest_at buf k ((acc @ enc x) @ r) \<Longrightarrow>
           P (f (g x) (int (k + length (acc @ enc x))))"
  shows "P (rbind (dec c buf (int (length buf)) (int (k + length acc)))
             (\<lambda>(x, pos). rbind (if \<not> b x then spchat_throw e else Inr (g x)) (\<lambda>y. f y pos)))"
  by (rule reads_seq [where P = P, OF assms(1,2)])
    (auto intro!: guard_seq [where P = P] assms simp del: of_nat_add length_append)

lemma reads_guard':
  assumes "rest_at buf k (acc @ r0)" and "\<And>m. P (spchat_throw m)"
    and "\<And>x r. ok x \<Longrightarrow> \<not> b x \<Longrightarrow> rest_at buf k ((acc @ enc x) @ r) \<Longrightarrow>
           P (f (g x) (int (k + length (acc @ enc x))))"
  shows "P (rbind (dec c buf (int (length buf)) (int (k + length acc)))
             (\<lambda>(x, pos). rbind (if b x then spchat_throw e else Inr (g x)) (\<lambda>y. f y pos)))"
  by (rule reads_seq [where P = P, OF assms(1,2)])
    (auto intro!: guard_seq' [where P = P] assms simp del: of_nat_add length_append)

lemma reads_plain:
  assumes "rest_at buf k (acc @ r0)" and "\<And>m. P (spchat_throw m)"
    and "\<And>x r. ok x \<Longrightarrow> rest_at buf k ((acc @ enc x) @ r) \<Longrightarrow> P (f x (int (k + length (acc @ enc x))))"
  shows "P (rbind (dec c buf (int (length buf)) (int (k + length acc))) (\<lambda>(x, pos). f x pos))"
  by (rule reads_seq [where P = P, OF assms(1,2)]) (use assms(3) in \<open>simp del: of_nat_add length_append\<close>)

lemma loop_stops:
  "k \<le> length buf \<Longrightarrow> only_spchat (decode_loop (\<lambda>i. dec (cs i)) buf (int (length buf)) (int k) i n)"
proof (induction n arbitrary: i k)
  case (Suc n)
  show ?case
    unfolding decode_loop.simps prod.case
    by (rule stops_then) (auto intro!: only_spchat_rbind Suc)
qed simp

lemma loop_faithful:
  "k \<le> length buf \<Longrightarrow>
   decode_loop (\<lambda>i. dec (cs i)) buf (int (length buf)) (int k) i n = Inr (xs, q) \<Longrightarrow>
   length xs = n \<and> list_all ok xs \<and> q = int (k + length (concat (map enc xs))) \<and>
   (\<exists>r. rest_at buf k (concat (map enc xs) @ r))"
proof (induction n arbitrary: i k xs)
  case 0
  then show ?case by (auto simp: rest_at_exists)
next
  case (Suc n)
  from Suc.prems(2) obtain x p ys where
    d: "dec (cs i) buf (int (length buf)) (int k) = Inr (x, p)" and
    l: "decode_loop (\<lambda>i. dec (cs i)) buf (int (length buf)) p (Suc i) n = Inr (ys, q)" and
    xs: "xs = x # ys"
    by (auto elim!: rbindE)
  from d Suc.prems(1) show ?case
  proof (rule readE)
    fix r
    assume x: "ok x" "p = int (k + length (enc x))" "rest_at buf k (enc x @ r)"
      "k + length (enc x) \<le> length buf"
    from Suc.IH [OF x(4) l [unfolded x(2)]] obtain s where
      ys: "length ys = n" "list_all ok ys"
        "q = int (k + length (enc x) + length (concat (map enc ys)))"
        "rest_at buf (k + length (enc x)) (concat (map enc ys) @ s)"
      by auto
    from rest_at_splice [OF x(3) ys(4)] x(1) ys(1-3) show ?case
      by (auto simp: xs)
  qed
qed

end

section \<open>The codec's contract\<close>

locale field_codec = field_reader enc dec ok
  for enc :: "'a \<Rightarrow> bytes"
    and dec :: "'c \<Rightarrow> bytes \<Rightarrow> int \<Rightarrow> int \<Rightarrow> ('a \<times> int) res"
    and ok :: "'a \<Rightarrow> bool" +
  fixes good :: "'c \<Rightarrow> bool"
  assumes accepts: "good c \<Longrightarrow> ok x \<Longrightarrow> rest_at buf k (enc x @ r) \<Longrightarrow>
      dec c buf (int (length buf)) (int k) = Inr (x, int (k + length (enc x)))"
begin

text \<open>In a good context the decoder succeeds exactly on encodings of valid values.\<close>

lemma dec_iff:
  assumes "good c" and "k \<le> length buf"
  shows "dec c buf (int (length buf)) (int k) = Inr (x, q) \<longleftrightarrow>
    ok x \<and> q = int (k + length (enc x)) \<and> (\<exists>r. rest_at buf k (enc x @ r))"
  using assms faithful accepts by blast

lemma accepts_then:
  assumes "good c" "ok x" "rest_at buf k (enc x @ r)"
  shows "rbind (dec c buf (int (length buf)) (int k)) f = f (x, int (k + length (enc x)))"
  by (simp only: accepts [OF assms] rbind_Inr)

lemma accepts_seq:
  assumes "good c" "ok x" "rest_at buf k (acc @ enc x @ r)"
  shows "rbind (dec c buf (int (length buf)) (int (k + length acc))) f
         = f (x, int (k + length (acc @ enc x)))"
  using accepts_then [OF assms(1,2) rest_at_append [OF assms(3)]] by (simp only: add.assoc length_append)

lemma loop_accepts:
  "(\<And>i. good (cs i)) \<Longrightarrow> list_all ok xs \<Longrightarrow> rest_at buf k (concat (map enc xs) @ r) \<Longrightarrow>
   decode_loop (\<lambda>i. dec (cs i)) buf (int (length buf)) (int k) i (length xs)
   = Inr (xs, int (k + length (concat (map enc xs))))"
proof (induction xs arbitrary: i k)
  case Nil
  then show ?case by simp
next
  case (Cons x xs)
  from Cons.prems(3) have r: "rest_at buf k (enc x @ concat (map enc xs) @ r)" by simp
  from Cons.prems(1,2) have "good (cs i)" "ok x" "list_all ok xs" by auto
  with r Cons.IH [OF Cons.prems(1) _ rest_at_append [OF r], of "Suc i"] show ?case
    by (simp add: accepts_then add.assoc del: of_nat_add)
qed

text \<open>The encoding determines the value: no two valid values share one.\<close>

lemma enc_inj:
  assumes "good c" "ok x" "ok y" "enc x = enc y"
  shows "x = y"
proof -
  have "dec c (enc x) (int (length (enc x))) (int 0) = Inr (x, int (0 + length (enc x)))"
    by (rule accepts [of c x _ _ "[]"]) (simp_all add: assms)
  moreover have "dec c (enc x) (int (length (enc x))) (int 0) = Inr (y, int (0 + length (enc y)))"
    by (rule accepts [of c y _ _ "[]"]) (simp_all add: assms)
  ultimately show ?thesis by simp
qed

end

section \<open>Establishing the contracts\<close>

text \<open>
  Both contracts follow from one case distinction on what the decoder finds at the cursor.
\<close>

definition reads_or_throws ::
  "('a \<Rightarrow> bytes) \<Rightarrow> ('a \<times> int) res \<Rightarrow> ('a \<Rightarrow> bool) \<Rightarrow> bytes \<Rightarrow> nat \<Rightarrow> bool" where
  "reads_or_throws enc r ok buf k \<longleftrightarrow>
     (\<exists>m. r = spchat_throw m) \<or>
     (\<exists>x s. ok x \<and> rest_at buf k (enc x @ s) \<and> r = Inr (x, int (k + length (enc x))))"

lemma field_readerI:
  assumes "\<And>c buf k. k \<le> length buf \<Longrightarrow>
    reads_or_throws enc (dec c buf (int (length buf)) (int k)) ok buf k"
  shows "field_reader enc dec ok"
proof
  fix k c x q and buf :: bytes
  assume "k \<le> length buf"
  from assms [OF this, of c] show "only_spchat (dec c buf (int (length buf)) (int k))"
    by (auto simp: reads_or_throws_def)
next
  fix k c x q and buf :: bytes
  assume "k \<le> length buf" and "dec c buf (int (length buf)) (int k) = Inr (x, q)"
  with assms [of k buf c] show "ok x \<and> q = int (k + length (enc x)) \<and> (\<exists>r. rest_at buf k (enc x @ r))"
    by (auto simp: reads_or_throws_def)
qed

lemma field_codecI:
  assumes "\<And>c buf k. k \<le> length buf \<Longrightarrow>
      reads_or_throws enc (dec c buf (int (length buf)) (int k)) ok buf k"
    and "\<And>c x buf k r. good c \<Longrightarrow> ok x \<Longrightarrow> rest_at buf k (enc x @ r) \<Longrightarrow>
      dec c buf (int (length buf)) (int k) = Inr (x, int (k + length (enc x)))"
  shows "field_codec enc dec ok good"
  by (intro field_codec.intro field_codec_axioms.intro field_readerI assms)

end
