(* ===== verification/Wire.thy ===== *)
theory Wire
  imports Codec
begin

text \<open>
  The serialisation primitives of \<open>SPChatMessage\<close> (\<open>mockServer/protocol/SPChatMessage.cpp\<close>):
  \<open>isLittleEndian\<close>, \<open>encodeLong\<close>, \<open>encodeInt\<close>, \<open>encodeString\<close>, \<open>decodeLong\<close>,
  \<open>decodeInt\<close>, \<open>decodePositiveInt\<close>, \<open>decodeString\<close>, and the validity tests
  \<open>validUsername\<close> and \<open>validPositiveNum\<close>.

  The locale \<open>field_codec\<close> is the interface through which the message classes use the
  primitives: an encoder and a decoder that invert each other, keep the cursor inside the
  buffer and never read outside it. The interpretations at the end show that the three
  primitive pairs provide it on a little-endian host.
\<close>

section \<open>Host byte order\<close>

datatype endian = LittleEndian | BigEndian

text \<open>
  \<open>isLittleEndian\<close> stores 1 in a \<open>short\<close> and looks at its first byte in memory.
  \<open>short_memory\<close> is that object representation on a host of the given byte order.
\<close>

definition short_memory :: "endian \<Rightarrow> 16 word \<Rightarrow> bytes" where
  "short_memory e w =
     (let bs = [ucast w, ucast (drop_bit 8 w)] in
      case e of LittleEndian \<Rightarrow> bs | BigEndian \<Rightarrow> rev bs)"

definition isLittleEndian :: "endian \<Rightarrow> bool" where
  "isLittleEndian e \<longleftrightarrow> short_memory e 1 ! 0 = 1"

lemma isLittleEndian_simps [simp]:
  "isLittleEndian LittleEndian" "\<not> isLittleEndian BigEndian"
  by (simp_all add: isLittleEndian_def short_memory_def drop_bit_eq_div)

section \<open>Sizes\<close>

definition LONG_SIZE :: nat where "LONG_SIZE = 8"

definition INT_SIZE :: nat where "INT_SIZE = 4"

definition BYTE_SIZE :: nat where "BYTE_SIZE = 1"

lemmas size_defs = LONG_SIZE_def INT_SIZE_def BYTE_SIZE_def

section \<open>Encoders\<close>

text \<open>
  The loops \<open>buf->push_back(num >> k)\<close>: \<open>>>\<close> on a signed value is the arithmetic
  shift, and the conversion to \<open>unsigned char\<close> keeps the low byte.
\<close>

definition encodeLong :: "endian \<Rightarrow> bytes \<Rightarrow> clong \<Rightarrow> bytes" where
  "encodeLong e buf num =
     (if isLittleEndian e
      then buf @ map (\<lambda>i. ucast (signed_drop_bit ((LONG_SIZE - 1 - i) * 8) num)) [0..<LONG_SIZE]
      else buf @ map (\<lambda>i. ucast (signed_drop_bit (i * 8) num)) [0..<LONG_SIZE])"

definition encodeInt :: "endian \<Rightarrow> bytes \<Rightarrow> cint \<Rightarrow> bytes" where
  "encodeInt e buf num =
     (if isLittleEndian e
      then buf @ map (\<lambda>i. ucast (signed_drop_bit ((INT_SIZE - 1 - i) * 8) num)) [0..<INT_SIZE]
      else buf @ map (\<lambda>i. ucast (signed_drop_bit (i * 8) num)) [0..<INT_SIZE])"

text \<open>\<open>str.length()\<close> is a \<open>size_t\<close>; passing it as an \<open>int\<close> keeps its low 32 bits.\<close>

definition encodeString :: "endian \<Rightarrow> bytes \<Rightarrow> bytes \<Rightarrow> bytes" where
  "encodeString e buf str = encodeInt e buf (word_of_nat (length str)) @ str"

section \<open>Decoders\<close>

text \<open>
  The loop \<open>n = n | (buf[*pos+i] << k)\<close> over the indices in the order given; \<open>sz\<close> is
  the number of bytes of the integer. The most significant byte comes first on either host.
\<close>

fun or_bytes :: "nat \<Rightarrow> bytes \<Rightarrow> int \<Rightarrow> nat list \<Rightarrow> 'a::len word \<Rightarrow> 'a word res" where
  "or_bytes sz buf pos [] n = Inr n"
| "or_bytes sz buf pos (i # is) n =
     rbind (rd buf (pos + int i))
       (\<lambda>b. or_bytes sz buf pos is (n OR push_bit ((sz - 1 - i) * 8) (ucast b)))"

definition decodeLong :: "endian \<Rightarrow> bytes \<Rightarrow> int \<Rightarrow> int \<Rightarrow> (clong \<times> int) res" where
  "decodeLong e buf len pos =
     (if int LONG_SIZE > len - pos then spchat_throw TOO_SHORT_EXCEPTION
      else rbind (if \<not> isLittleEndian e
                  then or_bytes LONG_SIZE buf pos (rev [0..<LONG_SIZE]) 0
                  else or_bytes LONG_SIZE buf pos [0..<LONG_SIZE] 0)
             (\<lambda>n. Inr (n, pos + int LONG_SIZE)))"

definition decodeInt :: "endian \<Rightarrow> bytes \<Rightarrow> int \<Rightarrow> int \<Rightarrow> (cint \<times> int) res" where
  "decodeInt e buf len pos =
     (if int INT_SIZE > len - pos then spchat_throw TOO_SHORT_EXCEPTION
      else rbind (if \<not> isLittleEndian e
                  then or_bytes INT_SIZE buf pos (rev [0..<INT_SIZE]) 0
                  else or_bytes INT_SIZE buf pos [0..<INT_SIZE] 0)
             (\<lambda>n. Inr (n, pos + int INT_SIZE)))"

definition decodePositiveInt :: "endian \<Rightarrow> bytes \<Rightarrow> int \<Rightarrow> int \<Rightarrow> (cint \<times> int) res" where
  "decodePositiveInt e buf len pos =
     rbind (decodeInt e buf len pos)
       (\<lambda>(i, pos). if sint i < 0 then spchat_throw NEGATIVE_NUM_EXCEPTION else Inr (i, pos))"

text \<open>The byte loop of \<open>decodeString\<close> reads one byte and advances the cursor, \<open>strLen\<close> times.\<close>

definition decodeString :: "endian \<Rightarrow> bytes \<Rightarrow> int \<Rightarrow> int \<Rightarrow> (bytes \<times> int) res" where
  "decodeString e buf len pos =
     rbind (decodePositiveInt e buf len pos)
       (\<lambda>(strLen, pos).
          if len - pos < sint strLen then spchat_throw TOO_SHORT_EXCEPTION
          else rbind (rdn buf pos (nat (sint strLen)))
                 (\<lambda>str. Inr (str, pos + sint strLen)))"

section \<open>Validity tests\<close>

text \<open>\<open>isalnum\<close> in the C locale: a byte above 127 (a negative \<open>char\<close>) is not alphanumeric.\<close>

definition c_isalnum :: "byte \<Rightarrow> bool" where
  "c_isalnum b \<longleftrightarrow> (48 \<le> b \<and> b \<le> 57) \<or> (65 \<le> b \<and> b \<le> 90) \<or> (97 \<le> b \<and> b \<le> 122)"

definition validUsername :: "bytes \<Rightarrow> bool" where
  "validUsername str =
     list_all (\<lambda>c. \<not> (\<not> c_isalnum c \<and> c \<noteq> of_char CHR ''@'' \<and> c \<noteq> of_char CHR ''-''
                     \<and> c \<noteq> of_char CHR ''.'' \<and> c \<noteq> of_char CHR ''_'')) str"

definition validPositiveNum :: "'a::len word \<Rightarrow> bool" where
  "validPositiveNum num \<longleftrightarrow> sint num \<ge> 0"

section \<open>Lengths and accumulation\<close>

lemma upt_LONG: "[0..<LONG_SIZE] = [0, 1, 2, 3, 4, 5, 6, 7]"
  by (simp add: LONG_SIZE_def upt_rec)

lemma upt_INT: "[0..<INT_SIZE] = [0, 1, 2, 3]"
  by (simp add: INT_SIZE_def upt_rec)

lemma encodeLong_append: "encodeLong e buf num = buf @ encodeLong e [] num"
  by (simp add: encodeLong_def)

lemma encodeInt_append: "encodeInt e buf num = buf @ encodeInt e [] num"
  by (simp add: encodeInt_def)

lemma encodeString_append: "encodeString e buf s = buf @ encodeString e [] s"
  by (simp add: encodeString_def encodeInt_append [of e buf])

lemma length_encodeLong [simp, codec_simps]: "length (encodeLong e buf num) = length buf + 8"
  by (simp add: encodeLong_def LONG_SIZE_def)

lemma length_encodeInt [simp, codec_simps]: "length (encodeInt e buf num) = length buf + 4"
  by (simp add: encodeInt_def INT_SIZE_def)

lemma length_encodeString [simp, codec_simps]:
  "length (encodeString e buf s) = length buf + 4 + length s"
  by (simp add: encodeString_def)

text \<open>On a big-endian host the encoders emit the same bytes in the opposite order.\<close>

lemma encodeLong_BE: "encodeLong BigEndian [] num = rev (encodeLong LittleEndian [] num)"
  unfolding encodeLong_def upt_LONG by (simp add: LONG_SIZE_def)

lemma encodeInt_BE: "encodeInt BigEndian [] num = rev (encodeInt LittleEndian [] num)"
  unfolding encodeInt_def upt_INT by (simp add: INT_SIZE_def)

section \<open>The OR loop inverts the shift loop\<close>

text \<open>The big-endian bytes of a word: what the encoders emit on a little-endian host.\<close>

definition be_bytes :: "nat \<Rightarrow> 'a::len word \<Rightarrow> bytes" where
  "be_bytes sz x = map (\<lambda>i. ucast (signed_drop_bit ((sz - 1 - i) * 8) x)) [0..<sz]"

lemma length_be_bytes [simp]: "length (be_bytes sz x) = sz"
  by (simp add: be_bytes_def)

lemma encodeLong_LE: "encodeLong LittleEndian [] x = be_bytes 8 x"
  by (simp add: encodeLong_def be_bytes_def LONG_SIZE_def)

lemma encodeInt_LE: "encodeInt LittleEndian [] x = be_bytes 4 x"
  by (simp add: encodeInt_def be_bytes_def INT_SIZE_def)

lemma bit_byte_bound: "bit (b :: byte) n \<Longrightarrow> n < 8"
  using bit_imp_le_length [of b n] by simp

lemma or_step:
  fixes x :: "'a::len word"
  assumes "k + 8 \<le> LENGTH('a)"
  shows "push_bit (k + 8) (drop_bit (k + 8) x) OR push_bit k (ucast (ucast (signed_drop_bit k x) :: byte))
         = push_bit k (drop_bit k x)"
proof (rule bit_word_eqI)
  fix n assume n: "n < LENGTH('a)"
  show "bit (push_bit (k + 8) (drop_bit (k + 8) x) OR
             push_bit k (ucast (ucast (signed_drop_bit k x) :: byte))) n
        = bit (push_bit k (drop_bit k x)) n"
  proof (cases "n < k + 8")
    case True
    with n assms show ?thesis
      by (auto simp: bit_simps le_diff_conv2)
  next
    case False
    with n assms show ?thesis
      by (auto simp: bit_simps not_less)
  qed
qed

lemma or_bytes_join:
  fixes x :: "'a::len word"
  assumes len: "LENGTH('a) = 8 * sz"
    and rd: "\<And>i. i < sz \<Longrightarrow> rd buf (pos + int i) = Inr (be_bytes sz x ! i)"
    and j: "j \<le> sz"
  shows "or_bytes sz buf pos [j..<sz] (push_bit (8 * (sz - j)) (drop_bit (8 * (sz - j)) x)) = Inr x"
  using j
proof (induction "sz - j" arbitrary: j)
  case 0
  then show ?case by simp
next
  case (Suc m)
  then have j: "j < sz" by simp
  let ?k = "8 * (sz - Suc j)"
  have k: "8 * (sz - j) = ?k + 8" using j by (simp add: Suc_diff_Suc)
  have "or_bytes sz buf pos [Suc j..<sz] (push_bit ?k (drop_bit ?k x)) = Inr x"
    using Suc j by (intro Suc.hyps(1)) auto
  moreover have "push_bit (8 * (sz - j)) (drop_bit (8 * (sz - j)) x)
      OR push_bit ((sz - 1 - j) * 8) (ucast (be_bytes sz x ! j)) = push_bit ?k (drop_bit ?k x)"
    unfolding k using or_step [of ?k x] j len by (simp add: be_bytes_def mult.commute)
  ultimately show ?case
    using j by (simp add: upt_conv_Cons rd)
qed

lemma byte_at_above:
  fixes x :: "'a::len word"
  assumes "k + 8 \<le> m" and "m + 8 \<le> LENGTH('a)"
  shows "ucast (signed_drop_bit m (x OR push_bit k (ucast (b :: byte)))) = (ucast (signed_drop_bit m x) :: byte)"
  using assms by (intro bit_word_eqI) (auto simp: bit_simps dest: bit_byte_bound)

lemma byte_at_here:
  fixes x :: "'a::len word"
  assumes "take_bit (m + 8) x = 0" and "m + 8 \<le> LENGTH('a)"
  shows "ucast (signed_drop_bit m (x OR push_bit m (ucast (b :: byte)))) = b"
proof (rule bit_word_eqI)
  fix n assume n: "n < LENGTH(8)"
  have "\<not> bit (take_bit (m + 8) x) (m + n)" by (simp add: assms)
  with n assms(2) show "bit (ucast (signed_drop_bit m (x OR push_bit m (ucast b))) :: byte) n = bit b n"
    by (auto simp: bit_simps)
qed

lemma take_bit_step:
  fixes x :: "'a::len word"
  assumes "take_bit (m + 8) x = 0"
  shows "take_bit m (x OR push_bit m (ucast (b :: byte))) = 0"
proof (rule bit_word_eqI)
  fix n
  have "\<not> bit (take_bit (m + 8) x) n" by (simp add: assms)
  then show "bit (take_bit m (x OR push_bit m (ucast b))) n = bit (0 :: 'a word) n"
    by (auto simp: bit_simps)
qed

lemma or_bytes_split:
  fixes acc :: "'a::len word"
  assumes len: "LENGTH('a) = 8 * sz" and bs: "length bs = sz"
    and rd: "\<And>i. i < sz \<Longrightarrow> rd buf (pos + int i) = Inr (bs ! i)"
  shows "j \<le> sz \<Longrightarrow> take_bit (8 * (sz - j)) acc = 0 \<Longrightarrow>
     (\<And>i. i < j \<Longrightarrow> ucast (signed_drop_bit ((sz - 1 - i) * 8) acc) = bs ! i) \<Longrightarrow>
     \<exists>y. or_bytes sz buf pos [j..<sz] acc = Inr y \<and> be_bytes sz y = bs"
proof (induction "sz - j" arbitrary: j acc)
  case 0
  then have "be_bytes sz acc = bs"
    using bs by (intro nth_equalityI) (auto simp: be_bytes_def)
  with 0 show ?case by simp
next
  case (Suc m)
  then have j: "j < sz" by simp
  let ?k = "(sz - Suc j) * 8"
  let ?acc = "acc OR push_bit ?k (ucast (bs ! j))"
  have k: "8 * (sz - j) = ?k + 8" using j by (simp add: Suc_diff_Suc)
  have lt: "?k + 8 \<le> LENGTH('a)" using j len by simp
  have z: "take_bit (?k + 8) acc = 0" using Suc.prems(2) by (simp only: k)
  have "\<exists>y. or_bytes sz buf pos [Suc j..<sz] ?acc = Inr y \<and> be_bytes sz y = bs"
  proof (rule Suc.hyps(1))
    show "m = sz - Suc j" and "Suc j \<le> sz" using Suc j by auto
    show "take_bit (8 * (sz - Suc j)) ?acc = 0"
      using take_bit_step [OF z] by (simp add: mult.commute)
    fix i assume i: "i < Suc j"
    show "ucast (signed_drop_bit ((sz - 1 - i) * 8) ?acc) = bs ! i"
    proof (cases "i = j")
      case True
      then show ?thesis using byte_at_here [OF z lt] by simp
    next
      case False
      with i j have "?k + 8 \<le> (sz - 1 - i) * 8" and "(sz - 1 - i) * 8 + 8 \<le> LENGTH('a)"
        by (auto simp: len)
      from byte_at_above [OF this] show ?thesis
        using False i Suc.prems(3) [of i] by simp
    qed
  qed
  with j show ?case by (simp add: upt_conv_Cons rd)
qed

text \<open>With every read in range, the loop is a fold, so the order of the indices is immaterial.\<close>

lemma or_bytes_fold:
  assumes "\<And>i. i \<in> set is \<Longrightarrow> rd buf (pos + int i) = Inr (bs i)"
  shows "or_bytes sz buf pos is n = Inr (fold (\<lambda>i n. n OR push_bit ((sz - 1 - i) * 8) (ucast (bs i))) is n)"
  using assms by (induction "is" arbitrary: n) auto

lemma or_bytes_rev:
  assumes "\<And>i. i \<in> set is \<Longrightarrow> rd buf (pos + int i) = Inr (bs i)"
  shows "or_bytes sz buf pos (rev is) n = or_bytes sz buf pos is n"
proof -
  have "fold (\<lambda>i n. n OR push_bit ((sz - 1 - i) * 8) (ucast (bs i))) (rev is) n
      = fold (\<lambda>i n. n OR push_bit ((sz - 1 - i) * 8) (ucast (bs i))) is n"
    by (intro fold_rev [THEN fun_cong]) (auto simp: fun_eq_iff or.assoc or.commute or.left_commute)
  then show ?thesis
    using or_bytes_fold [of "rev is" buf pos bs sz n] or_bytes_fold [of "is" buf pos bs sz n] assms
    by simp
qed

section \<open>The primitives as codecs\<close>

lemma or_bytes_read:
  assumes len: "LENGTH('a) = 8 * sz" and bs: "length bs = sz" and r: "rest_at buf k (bs @ r)"
  shows "\<exists>y :: 'a::len word. or_bytes sz buf (int k) [0..<sz] 0 = Inr y
           \<and> or_bytes sz buf (int k) (rev [0..<sz]) 0 = Inr y \<and> be_bytes sz y = bs"
proof -
  have rd: "rd buf (int k + int i) = Inr (bs ! i)" if "i < sz" for i
    using rest_at_rd [OF r, of i] that bs by (simp add: nth_append)
  have "or_bytes sz buf (int k) (rev [0..<sz]) (0 :: 'a word) = or_bytes sz buf (int k) [0..<sz] 0"
    by (rule or_bytes_rev [where bs = "\<lambda>i. bs ! i"]) (simp add: rd)
  with or_bytes_split [OF len bs rd, of 0 "0 :: 'a word"] show ?thesis by simp
qed

lemma or_bytes_be:
  fixes x :: "'a::len word"
  assumes len: "LENGTH('a) = 8 * sz" and r: "rest_at buf k (be_bytes sz x @ r)"
  shows "or_bytes sz buf (int k) [0..<sz] 0 = Inr x"
proof -
  have rd: "rd buf (int k + int i) = Inr (be_bytes sz x ! i)" if "i < sz" for i
    using rest_at_rd [OF r, of i] that by (simp add: nth_append)
  have "drop_bit (8 * sz) x = 0"
    by (rule bit_word_eqI) (auto simp: bit_simps len dest: bit_imp_le_length)
  with or_bytes_join [OF len rd, of 0] show ?thesis by simp
qed

lemma be_bytes_inj: "LENGTH('a) = 8 * sz \<Longrightarrow> be_bytes sz x = be_bytes sz y \<Longrightarrow> x = (y :: 'a::len word)"
  using or_bytes_be [of sz "be_bytes sz x" 0 x "[]"] or_bytes_be [of sz "be_bytes sz x" 0 y "[]"]
  by simp

text \<open>The decoders give the same answer on hosts of either byte order.\<close>

lemma decodeLong_at:
  assumes "rest_at buf k (encodeLong LittleEndian [] x @ r)"
  shows "decodeLong e buf (int (length buf)) (int k) = Inr (x, int k + 8)"
proof -
  have r: "rest_at buf k (be_bytes 8 x @ r)" using assms by (simp add: encodeLong_LE)
  obtain y :: clong where y: "or_bytes 8 buf (int k) [0..<8] 0 = Inr y"
      "or_bytes 8 buf (int k) (rev [0..<8]) 0 = Inr y" "be_bytes 8 y = be_bytes 8 x"
    using or_bytes_read [OF _ _ r, where 'a = 64] by auto
  from y(3) have "y = x" by (intro be_bytes_inj [of 8]) simp_all
  with y(1,2) rest_at_length [OF r] show ?thesis by (simp add: decodeLong_def LONG_SIZE_def)
qed

lemma decodeInt_at:
  assumes "rest_at buf k (encodeInt LittleEndian [] x @ r)"
  shows "decodeInt e buf (int (length buf)) (int k) = Inr (x, int k + 4)"
proof -
  have r: "rest_at buf k (be_bytes 4 x @ r)" using assms by (simp add: encodeInt_LE)
  obtain y :: cint where y: "or_bytes 4 buf (int k) [0..<4] 0 = Inr y"
      "or_bytes 4 buf (int k) (rev [0..<4]) 0 = Inr y" "be_bytes 4 y = be_bytes 4 x"
    using or_bytes_read [OF _ _ r, where 'a = 32] by auto
  from y(3) have "y = x" by (intro be_bytes_inj [of 4]) simp_all
  with y(1,2) rest_at_length [OF r] show ?thesis by (simp add: decodeInt_def INT_SIZE_def)
qed

lemma rest_at_split:
  assumes "k + n \<le> length buf"
  obtains bs r where "rest_at buf k (bs @ r)" and "length bs = n"
  by (rule that [of "take n (drop k buf)" "drop n (drop k buf)"])
    (use assms in \<open>simp_all add: rest_at_def del: drop_drop\<close>)

lemma decodeLong_cases:
  assumes "k \<le> length buf"
  obtains "decodeLong e buf (int (length buf)) (int k) = spchat_throw TOO_SHORT_EXCEPTION"
      "length buf < k + 8"
    | x r where "rest_at buf k (encodeLong LittleEndian [] x @ r)"
      "decodeLong e buf (int (length buf)) (int k) = Inr (x, int k + 8)"
proof (cases "k + 8 \<le> length buf")
  case True
  then obtain bs r where b: "rest_at buf k (bs @ r)" "length bs = 8" by (rule rest_at_split)
  from or_bytes_read [OF _ b(2,1), where 'a = 64] obtain y :: clong where "be_bytes 8 y = bs" by auto
  with b(1) have "rest_at buf k (encodeLong LittleEndian [] y @ r)" by (simp add: encodeLong_LE)
  from that(2) [OF this decodeLong_at [OF this]] show ?thesis .
next
  case False
  with that(1) show ?thesis by (simp add: decodeLong_def LONG_SIZE_def)
qed

lemma decodeInt_cases:
  assumes "k \<le> length buf"
  obtains "decodeInt e buf (int (length buf)) (int k) = spchat_throw TOO_SHORT_EXCEPTION"
      "length buf < k + 4"
    | x r where "rest_at buf k (encodeInt LittleEndian [] x @ r)"
      "decodeInt e buf (int (length buf)) (int k) = Inr (x, int k + 4)"
proof (cases "k + 4 \<le> length buf")
  case True
  then obtain bs r where b: "rest_at buf k (bs @ r)" "length bs = 4" by (rule rest_at_split)
  from or_bytes_read [OF _ b(2,1), where 'a = 32] obtain y :: cint where "be_bytes 4 y = bs" by auto
  with b(1) have "rest_at buf k (encodeInt LittleEndian [] y @ r)" by (simp add: encodeInt_LE)
  from that(2) [OF this decodeInt_at [OF this]] show ?thesis .
next
  case False
  with that(1) show ?thesis by (simp add: decodeInt_def INT_SIZE_def)
qed

text \<open>A string that the code can describe: its length fits an \<open>int\<close>.\<close>

definition ok_string :: "bytes \<Rightarrow> bool" where
  "ok_string s \<longleftrightarrow> length s < 2 ^ 31"

lemma decodeString_at:
  assumes ok: "ok_string s" and r: "rest_at buf k (encodeString LittleEndian [] s @ r)"
  shows "decodeString e buf (int (length buf)) (int k) = Inr (s, int (k + (4 + length s)))"
proof -
  let ?n = "word_of_nat (length s) :: cint"
  from r have r1: "rest_at buf k (encodeInt LittleEndian [] ?n @ s @ r)"
    by (simp add: encodeString_def)
  have n: "sint ?n = int (length s)"
    using ok by (simp add: ok_string_def sint_word_of_nat32)
  have r2: "rest_at buf (k + 4) (s @ r)"
    using rest_at_append [OF r1] by simp
  have "rdn buf (int (k + 4)) (length s) = Inr s"
    using rest_at_rdn [OF r2, of "length s"] by simp
  moreover have "decodePositiveInt e buf (int (length buf)) (int k) = Inr (?n, int (k + 4))"
    using n by (simp add: decodePositiveInt_def decodeInt_at [OF r1])
  ultimately show ?thesis
    using n rest_at_length [OF r2] by (simp add: decodeString_def)
qed

lemma decodeString_cases:
  assumes k: "k \<le> length buf"
  obtains m where "decodeString e buf (int (length buf)) (int k) = spchat_throw m"
    | s r where "ok_string s" "rest_at buf k (encodeString LittleEndian [] s @ r)"
      "decodeString e buf (int (length buf)) (int k) = Inr (s, int (k + (4 + length s)))"
  using k
proof (cases rule: decodeInt_cases [of _ _ e])
  case 1
  with that(1) show ?thesis by (simp add: decodeString_def decodePositiveInt_def)
next
  case (2 x r)
  show ?thesis
  proof (cases "sint x < 0 \<or> int (length buf) - (int k + 4) < sint x")
    case True
    then have "\<exists>m. decodeString e buf (int (length buf)) (int k) = spchat_throw m"
      by (cases "sint x < 0") (simp_all add: decodeString_def decodePositiveInt_def 2)
    with that(1) show ?thesis by auto
  next
    case False
    let ?n = "nat (sint x)"
    have "k + 4 + ?n \<le> length buf" using False rest_at_length [OF 2(1)] by (simp add: nat_le_iff)
    then obtain s t where s: "rest_at buf (k + 4) (s @ t)" "length s = ?n" by (rule rest_at_split)
    have "sint x < 2 ^ 31" using sint_lt [of x] by simp
    with s(2) have ok: "ok_string s" by (simp add: ok_string_def)
    have "word_of_nat (length s) = x"
      using False s(2) by (simp add: word_of_nat_eq_iff nat_eq_iff)
    then have "rest_at buf k (encodeString LittleEndian [] s @ t)"
      using rest_at_splice [OF 2(1), of "s @ t"] s(1) by (simp add: encodeString_def)
    from that(2) [OF ok this] decodeString_at [OF ok this] show ?thesis by simp
  qed
qed

interpretation long: field_codec "encodeLong LittleEndian []" decodeLong "\<lambda>_. True" "\<lambda>_. True"
proof (rule field_codecI)
  fix e k and buf :: bytes assume "k \<le> length buf"
  then show "reads_or_throws (encodeLong LittleEndian []) (decodeLong e buf (int (length buf)) (int k))
      (\<lambda>_. True) buf k"
    by (cases rule: decodeLong_cases [of _ _ e]) (auto simp: reads_or_throws_def)
qed (simp add: decodeLong_at)

interpretation int: field_codec "encodeInt LittleEndian []" decodeInt "\<lambda>_. True" "\<lambda>_. True"
proof (rule field_codecI)
  fix e k and buf :: bytes assume "k \<le> length buf"
  then show "reads_or_throws (encodeInt LittleEndian []) (decodeInt e buf (int (length buf)) (int k))
      (\<lambda>_. True) buf k"
    by (cases rule: decodeInt_cases [of _ _ e]) (auto simp: reads_or_throws_def)
qed (simp add: decodeInt_at)

interpretation str: field_codec "encodeString LittleEndian []" decodeString ok_string "\<lambda>_. True"
proof (rule field_codecI)
  fix e k and buf :: bytes assume "k \<le> length buf"
  then show "reads_or_throws (encodeString LittleEndian []) (decodeString e buf (int (length buf)) (int k))
      ok_string buf k"
    by (cases rule: decodeString_cases [of _ _ e]) (auto simp: reads_or_throws_def)
qed (simp add: decodeString_at)

text \<open>
  On a big-endian host the encoders reverse the bytes, so a number comes back only when its
  bytes form a palindrome.
\<close>

lemma big_endian_encoder:
  "decodeLong e (encodeLong BigEndian [] x) 8 0 = Inr (x, 8) \<longleftrightarrow>
     rev (encodeLong LittleEndian [] x) = encodeLong LittleEndian [] x"
proof -
  have "r = []" if "rev (encodeLong LittleEndian [] x) = encodeLong LittleEndian [] x @ r" for r
    using arg_cong [OF that, of length] by simp
  then show ?thesis
    using long.dec_iff [where c = e and k = 0 and buf = "encodeLong BigEndian [] x" and x = x and q = 8]
    by (auto simp: encodeLong_BE)
qed

end
