(* ===== verification/Sockets.thy ===== *)
theory Sockets
  imports BabbleBase
begin

text \<open>
  The socket wrapper of \<open>mockServer/PracticalSocket.cpp\<close> as the server uses it: \<open>send\<close>,
  \<open>recv\<close>, \<open>recvFully\<close>, \<open>close\<close> and the destructor.

  The kernel below the wrapper is described by what POSIX says of a stream socket: a call of
  \<open>recv\<close> returns some bytes of the stream, at least one and at most as many as asked for;
  it returns 0 when the peer has closed, -1 on an error, and does not return while a silent
  peer keeps the connection open. A call of \<open>send\<close> takes some prefix of the bytes, fails, or
  finds the connection broken and raises SIGPIPE: the flags argument is 0 and the program
  neither ignores nor handles the signal, so its default action ends the process. How the stream is cut into pieces and how each \<open>send\<close> ends are parts of the
  state, so every theorem holds for all of them.
\<close>

section \<open>State\<close>

datatype stream_end = PeerClosed | PeerReset | PeerSilent

datatype send_outcome = Takes nat | SendFails | BrokenPipe

text \<open>
  \<open>inq\<close>: the segments that have arrived and not been read. \<open>in_end\<close>: what follows them.
  \<open>out\<close>: the bytes the kernel has taken from \<open>send\<close>. \<open>send_plan\<close>: how the next calls
  of \<open>send\<close> end (\<open>Takes k\<close>: at most \<open>k\<close> bytes are taken); calls
  beyond the list take everything. \<open>closes\<close>: the descriptors given to \<open>::close\<close>.
\<close>

record sock =
  sockDesc :: int
  inq :: "bytes list"
  in_end :: stream_end
  out :: bytes
  send_plan :: "send_outcome list"
  closes :: "int list"

definition pending :: "sock \<Rightarrow> bytes" where
  "pending s = concat (inq s)"

section \<open>The kernel\<close>

datatype recv_result = RData bytes | RError | RBlock

definition kernel_recv :: "nat \<Rightarrow> sock \<Rightarrow> recv_result \<times> sock" where
  "kernel_recv n s =
     (case dropWhile (\<lambda>seg. seg = []) (inq s) of
        [] \<Rightarrow> ((case in_end s of PeerClosed \<Rightarrow> RData [] | PeerReset \<Rightarrow> RError | PeerSilent \<Rightarrow> RBlock),
               s\<lparr>inq := []\<rparr>)
      | seg # rest \<Rightarrow> (RData (take n seg), s\<lparr>inq := drop n seg # rest\<rparr>))"

text \<open>\<open>None\<close>: the call does not return, SIGPIPE has ended the process.\<close>

definition kernel_send :: "bytes \<Rightarrow> sock \<Rightarrow> int option \<times> sock" where
  "kernel_send bs s =
     (case send_plan s of
        [] \<Rightarrow> (Some (int (length bs)), s\<lparr>out := out s @ bs\<rparr>)
      | SendFails # p \<Rightarrow> (Some (-1), s\<lparr>send_plan := p\<rparr>)
      | BrokenPipe # p \<Rightarrow> (None, s\<lparr>send_plan := p\<rparr>)
      | Takes k # p \<Rightarrow> (Some (int (min k (length bs))), s\<lparr>out := out s @ take k bs, send_plan := p\<rparr>))"

section \<open>CommunicatingSocket\<close>

text \<open>
  \<open>send\<close> hands \<open>bufferLen\<close> bytes from the pointer on to the kernel; reading past the end
  of the buffer is undefined (a negative length is a huge \<open>size_t\<close>). Only a negative
  result is looked at.
\<close>

definition CommunicatingSocket_send :: "bytes \<Rightarrow> int \<Rightarrow> sock \<Rightarrow> unit res \<times> sock" where
  "CommunicatingSocket_send buffer bufferLen s =
     (if bufferLen < 0 \<or> int (length buffer) < bufferLen then (Inl (Undefined OutOfBounds), s)
      else (case kernel_send (take (nat bufferLen) buffer) s of
          (None, s) \<Rightarrow> (Inl Killed, s)
        | (Some r, s) \<Rightarrow>
            if r < 0 then (Inl (Throw (SocketException ''Send failed (send())'')), s)
            else (Inr (), s)))"

definition CommunicatingSocket_recv :: "int \<Rightarrow> sock \<Rightarrow> bytes res \<times> sock" where
  "CommunicatingSocket_recv bufferLen s =
     (if bufferLen < 0 then (Inl (Undefined OutOfBounds), s)
      else (case kernel_recv (nat bufferLen) s of
          (RData d, s) \<Rightarrow> (Inr d, s)
        | (RError, s) \<Rightarrow> (Inl (Throw (SocketException ''Receive failed (recv())'')), s)
        | (RBlock, s) \<Rightarrow> (Inl Blocks, s)))"

text \<open>Whatever becomes of a \<open>send\<close>, only the output and the plan change.\<close>

lemma kernel_send_shape:
  "kernel_send bs s = (r, s') \<Longrightarrow> s' = s\<lparr>out := out s', send_plan := send_plan s'\<rparr>"
  by (auto simp: kernel_send_def split: list.splits send_outcome.splits)

lemma send_shape:
  assumes "CommunicatingSocket_send buf n s = (r, s')"
  obtains sent plan where "s' = s\<lparr>out := sent, send_plan := plan\<rparr>"
proof -
  have "s' = s\<lparr>out := out s', send_plan := send_plan s'\<rparr>"
    using assms unfolding CommunicatingSocket_send_def
    by (auto split: if_splits prod.splits option.splits dest: kernel_send_shape)
  with that show thesis by blast
qed

lemma pending_dropWhile: "concat (dropWhile (\<lambda>seg. seg = []) xs) = concat xs"
  by (induction xs) auto

lemma dropWhile_nonempty:
  "dropWhile (\<lambda>seg. seg = []) xs = seg # rest \<Longrightarrow> seg \<noteq> []"
  by (induction xs) (auto split: if_splits)

text \<open>The two ways \<open>kernel_recv\<close> can go, by whether anything is left to read.\<close>

lemma kernel_recv_cases:
  obtains "pending s = []"
      "kernel_recv n s = ((case in_end s of PeerClosed \<Rightarrow> RData [] | PeerReset \<Rightarrow> RError | PeerSilent \<Rightarrow> RBlock),
         s\<lparr>inq := []\<rparr>)"
    | seg rest where "seg \<noteq> []" "pending s = seg @ concat rest"
      "kernel_recv n s = (RData (take n seg), s\<lparr>inq := drop n seg # rest\<rparr>)"
proof (cases "dropWhile (\<lambda>seg. seg = []) (inq s)")
  case Nil
  with pending_dropWhile [of "inq s"] that(1) show ?thesis
    by (simp add: pending_def kernel_recv_def)
next
  case (Cons seg rest)
  from dropWhile_nonempty [OF Cons] that(2) [of seg rest] Cons show ?thesis
    using pending_dropWhile [of "inq s"] by (simp add: pending_def kernel_recv_def)
qed

lemma kernel_recv_data:
  assumes "kernel_recv n s = (RData d, s')"
  shows "pending s = d @ pending s'" and "length d \<le> n"
    and "s' = s\<lparr>inq := inq s'\<rparr>"
    and "d = [] \<Longrightarrow> 0 < n \<Longrightarrow> pending s = [] \<and> in_end s = PeerClosed \<and> s' = s\<lparr>inq := []\<rparr>"
proof -
  have "pending s = d @ pending s' \<and> length d \<le> n \<and> s' = s\<lparr>inq := inq s'\<rparr> \<and>
    (d = [] \<longrightarrow> 0 < n \<longrightarrow> pending s = [] \<and> in_end s = PeerClosed \<and> s' = s\<lparr>inq := []\<rparr>)"
  proof (cases rule: kernel_recv_cases [of s n])
    case 1
    with assms show ?thesis by (auto simp: pending_def split: stream_end.splits)
  next
    case (2 seg rest)
    then have "d = take n seg" "s' = s\<lparr>inq := drop n seg # rest\<rparr>" using assms by auto
    with 2(1,2) show ?thesis by (simp add: pending_def)
  qed
  then show "pending s = d @ pending s'" and "length d \<le> n" and "s' = s\<lparr>inq := inq s'\<rparr>"
    and "d = [] \<Longrightarrow> 0 < n \<Longrightarrow> pending s = [] \<and> in_end s = PeerClosed \<and> s' = s\<lparr>inq := []\<rparr>"
    by blast+
qed

lemma kernel_recv_stop:
  assumes "kernel_recv n s = (r, s')" and "r = RError \<or> r = RBlock"
  shows "pending s = []" and "s' = s\<lparr>inq := []\<rparr>"
    and "in_end s = (if r = RError then PeerReset else PeerSilent)"
proof -
  have "pending s = [] \<and> s' = s\<lparr>inq := []\<rparr> \<and> in_end s = (if r = RError then PeerReset else PeerSilent)"
    by (cases rule: kernel_recv_cases [of s n]) (use assms in \<open>auto split: stream_end.splits\<close>)
  then show "pending s = []" and "s' = s\<lparr>inq := []\<rparr>"
    and "in_end s = (if r = RError then PeerReset else PeerSilent)"
    by blast+
qed

text \<open>
  The loop of \<open>recvFully\<close>: \<open>got\<close> is the filled prefix of the buffer, its length is
  \<open>rcount\<close>. Every round that continues has taken at least one byte off the stream.
\<close>

function recv_loop :: "int \<Rightarrow> bytes \<Rightarrow> sock \<Rightarrow> bytes res \<times> sock" where
  "recv_loop bufferLen got s =
     (case kernel_recv (nat (bufferLen - int (length got))) s of
        (RData d, s') \<Rightarrow>
          if d \<noteq> [] \<and> int (length got + length d) < bufferLen
          then recv_loop bufferLen (got @ d) s' else (Inr (got @ d), s')
      | (RError, s') \<Rightarrow> (Inl (Throw (SocketException ''Receive failed (recv())'')), s')
      | (RBlock, s') \<Rightarrow> (Inl Blocks, s'))"
  by pat_completeness auto
termination
  by (relation "measure (\<lambda>(n, got, s). length (pending s))")
    (auto dest!: kernel_recv_data(1) [OF sym])

declare recv_loop.simps [simp del]

definition recvFully :: "int \<Rightarrow> sock \<Rightarrow> bytes res \<times> sock" where
  "recvFully bufferLen s =
     (if bufferLen < 0 then (Inl (Undefined OutOfBounds), s) else recv_loop bufferLen [] s)"

section \<open>What recvFully returns\<close>

text \<open>The result when the stream ends after \<open>got\<close>, before the buffer is full.\<close>

fun short_read :: "stream_end \<Rightarrow> bytes \<Rightarrow> bytes res" where
  "short_read PeerClosed got = Inr got"
| "short_read PeerReset got = Inl (Throw (SocketException ''Receive failed (recv())''))"
| "short_read PeerSilent got = Inl Blocks"

text \<open>
  The stream may arrive in any pieces: the result only depends on the bytes still to be
  read and on how the stream ends.
\<close>

lemma recv_loop_enough:
  assumes "length got + m = n" and "0 < m" and "m \<le> length (pending s)"
  shows "\<exists>q. recv_loop (int n) got s = (Inr (got @ take m (pending s)), s\<lparr>inq := q\<rparr>)
             \<and> concat q = drop m (pending s)"
  using assms
proof (induction "int n" got s arbitrary: m rule: recv_loop.induct)
  case (1 got s)
  have k: "nat (int n - int (length got)) = m" using "1.prems"(1) by simp
  obtain r s' where r: "kernel_recv m s = (r, s')" by (cases "kernel_recv m s")
  have "r \<noteq> RError" "r \<noteq> RBlock"
    using kernel_recv_stop(1) [OF r] "1.prems"(2,3) by auto
  then obtain d where d: "r = RData d" by (cases r) auto
  note data = kernel_recv_data [OF r [unfolded d]]
  have ne: "d \<noteq> []" using data(4) "1.prems"(2,3) by auto
  have ps: "pending s = d @ pending s'" by (rule data(1))
  show ?case
  proof (cases "length d < m")
    case True
    then have c: "d \<noteq> [] \<and> int (length got + length d) < int n" using ne "1.prems"(1) by simp
    have "\<exists>q. recv_loop (int n) (got @ d) s'
        = (Inr ((got @ d) @ take (m - length d) (pending s')), s'\<lparr>inq := q\<rparr>)
        \<and> concat q = drop (m - length d) (pending s')"
      using True "1.prems" ps by (intro "1.hyps" [OF _ _ c]) (simp_all add: k r d)
    moreover obtain q' where "s' = s\<lparr>inq := q'\<rparr>" using data(3) by blast
    ultimately show ?thesis
      using True c by (subst recv_loop.simps) (auto simp: k r d ps)
  next
    case False
    then have "length d = m" using data(2) by simp
    moreover obtain q where q: "s' = s\<lparr>inq := q\<rparr>" using data(3) by blast
    moreover have "pending s' = concat q" by (simp add: q pending_def)
    ultimately show ?thesis
      using "1.prems"(1) ps by (intro exI [of _ q], subst recv_loop.simps) (simp add: k r d)
  qed
qed

lemma recv_loop_short:
  assumes "length got + length (pending s) < n"
  shows "recv_loop (int n) got s = (short_read (in_end s) (got @ pending s), s\<lparr>inq := []\<rparr>)"
  using assms
proof (induction "int n" got s rule: recv_loop.induct)
  case (1 got s)
  let ?m = "n - length got"
  have k: "nat (int n - int (length got)) = ?m" using "1.prems" by simp
  obtain r s' where r: "kernel_recv ?m s = (r, s')" by (cases "kernel_recv ?m s")
  show ?case
  proof (cases r)
    case (RData d)
    note data = kernel_recv_data [OF r [unfolded RData]]
    show ?thesis
    proof (cases "d = []")
      case True
      with data(4) "1.prems" show ?thesis by (subst recv_loop.simps) (simp add: k r RData)
    next
      case False
      then have c: "d \<noteq> [] \<and> int (length got + length d) < int n"
        using "1.prems" data(1) by simp
      obtain q where q: "s' = s\<lparr>inq := q\<rparr>" using data(3) by blast
      have "recv_loop (int n) (got @ d) s' = (short_read (in_end s') ((got @ d) @ pending s'), s'\<lparr>inq := []\<rparr>)"
        using "1.prems" data(1) by (intro "1.hyps" [OF _ _ c]) (simp_all add: k r RData)
      with c data(1) show ?thesis
        by (subst recv_loop.simps) (simp add: k r RData q)
    qed
  next
    case RError
    with kernel_recv_stop [OF r] show ?thesis by (subst recv_loop.simps) (simp add: k r)
  next
    case RBlock
    with kernel_recv_stop [OF r] show ?thesis by (subst recv_loop.simps) (simp add: k r)
  qed
qed

lemma recvFully_enough:
  assumes "0 < n" and "n \<le> length (pending s)"
  shows "\<exists>q. recvFully (int n) s = (Inr (take n (pending s)), s\<lparr>inq := q\<rparr>)
             \<and> concat q = drop n (pending s)"
  using recv_loop_enough [of "[]" n n s] assms by (simp add: recvFully_def)

lemma recvFully_short:
  assumes "length (pending s) < n"
  shows "recvFully (int n) s = (short_read (in_end s) (pending s), s\<lparr>inq := []\<rparr>)"
  using recv_loop_short [of "[]" s n] assms by (simp add: recvFully_def)

lemma recvFully_exact:
  assumes "0 < n"
  shows "(\<exists>q. recvFully (int n) s =
    (if n \<le> length (pending s) then Inr (take n (pending s)) else short_read (in_end s) (pending s), s\<lparr>inq := q\<rparr>)
      \<and> concat q = drop n (pending s))"
  using recvFully_enough [OF assms, of s] recvFully_short [of s n] by (cases "n \<le> length (pending s)") auto

text \<open>When the kernel takes fewer bytes than given, \<open>send\<close> returns and the rest is lost.\<close>

lemma partial_send_unnoticed:
  assumes "k < length buf"
  shows "(send_plan s = Takes k # plan \<longrightarrow> CommunicatingSocket_send buf (int (length buf)) s
      = (Inr (), s\<lparr>out := out s @ take k buf, send_plan := plan\<rparr>)) \<and>
    (send_plan s = SendFails # plan \<longrightarrow> CommunicatingSocket_send buf (int (length buf)) s
      = (Inl (Throw (SocketException ''Send failed (send())'')), s\<lparr>send_plan := plan\<rparr>)) \<and>
    (send_plan s = BrokenPipe # plan \<longrightarrow> CommunicatingSocket_send buf (int (length buf)) s
      = (Inl Killed, s\<lparr>send_plan := plan\<rparr>))"
  using assms by (simp add: CommunicatingSocket_send_def kernel_send_def)

text \<open>Whatever \<open>recvFully\<close> returns, it only takes bytes off the front of the stream.\<close>

lemma recv_loop_takes:
  "recv_loop n got s = (r, s') \<Longrightarrow>
     s' = s\<lparr>inq := inq s'\<rparr> \<and> length (pending s') \<le> length (pending s) \<and>
     (\<forall>buf. r = Inr buf \<longrightarrow> got @ pending s = buf @ pending s')"
proof (induction n got s rule: recv_loop.induct)
  case (1 n got s)
  obtain k s1 where k: "kernel_recv (nat (n - int (length got))) s = (k, s1)"
    by (cases "kernel_recv (nat (n - int (length got))) s")
  show ?case
  proof (cases k)
    case (RData d)
    note data = kernel_recv_data [OF k [unfolded RData]]
    obtain q where q: "s1 = s\<lparr>inq := q\<rparr>" using data(3) by blast
    show ?thesis
    proof (cases "d \<noteq> [] \<and> int (length got + length d) < n")
      case True
      then have "recv_loop n (got @ d) s1 = (r, s')"
        using "1.prems" by (subst (asm) recv_loop.simps) (simp add: k RData)
      from "1.IH" [OF k [symmetric] RData True this] data(1) q show ?thesis by simp
    next
      case False
      then show ?thesis
        using "1.prems" data(1) q by (subst (asm) recv_loop.simps) (auto simp: k RData)
    qed
  next
    case RError
    with "1.prems" kernel_recv_stop(2) [OF k] show ?thesis
      by (subst (asm) recv_loop.simps) (auto simp: k pending_def)
  next
    case RBlock
    with "1.prems" kernel_recv_stop(2) [OF k] show ?thesis
      by (subst (asm) recv_loop.simps) (auto simp: k pending_def)
  qed
qed

lemma recvFully_shrinks: "recvFully n s = (r, s') \<Longrightarrow> length (pending s') \<le> length (pending s)"
  using recv_loop_takes [of n "[]" s r s'] by (auto simp: recvFully_def split: if_splits)

text \<open>Two sockets with the same bytes to read are read alike, however the bytes are segmented.\<close>

definition same_input :: "sock \<Rightarrow> sock \<Rightarrow> bool" where
  "same_input s t \<longleftrightarrow> pending s = pending t \<and> in_end s = in_end t"

lemma recv_loop_zero: "recv_loop 0 [] s = (case kernel_recv 0 s of
    (RData d, s') \<Rightarrow> (Inr d, s')
  | (RError, s') \<Rightarrow> (Inl (Throw (SocketException ''Receive failed (recv())'')), s')
  | (RBlock, s') \<Rightarrow> (Inl Blocks, s'))"
  by (subst recv_loop.simps) (auto split: prod.split recv_result.split)

lemma recvFully_zero:
  assumes "recvFully 0 s = (r, s')"
  shows "r = (if pending s = [] then short_read (in_end s) [] else Inr [])
     \<and> pending s' = pending s \<and> in_end s' = in_end s"
  using assms unfolding recvFully_def recv_loop_zero
  by (cases rule: kernel_recv_cases [of s 0])
    (auto simp: pending_def split: stream_end.splits)

lemma recvFully_same_input:
  assumes "same_input s t" and "recvFully n s = (r, s')" and "recvFully n t = (r', t')"
  shows "r = r' \<and> same_input s' t'"
proof -
  consider "n < 0" | "n = 0" | m where "n = int m" "0 < m" "m \<le> length (pending s)"
    | m where "n = int m" "length (pending s) < m"
    by (metis nonneg_int_cases not_less of_nat_0_less_iff linorder_neqE_linordered_idom less_imp_le)
  then show ?thesis
  proof cases
    case 1
    with assms show ?thesis by (auto simp: recvFully_def)
  next
    case 2
    with assms recvFully_zero [of s r s'] recvFully_zero [of t r' t'] show ?thesis
      by (auto simp: same_input_def)
  next
    case (3 m)
    with assms recvFully_enough [of m s] recvFully_enough [of m t] show ?thesis
      by (auto simp: same_input_def pending_def)
  next
    case (4 m)
    with assms recvFully_short [of s m] recvFully_short [of t m] show ?thesis
      by (auto simp: same_input_def pending_def)
  qed
qed

lemma recvFully_takes:
  assumes "recvFully n s = (r, s')"
  shows "s' = s\<lparr>inq := inq s'\<rparr>" and "r = Inr buf \<Longrightarrow> pending s = buf @ pending s'"
  using assms recv_loop_takes [of n "[]" s r s'] by (auto simp: recvFully_def split: if_splits)

section \<open>Closing\<close>

definition Socket_close :: "sock \<Rightarrow> sock" where
  "Socket_close s = s\<lparr>closes := closes s @ [sockDesc s], sockDesc := -1\<rparr>"

text \<open>\<open>delete sock\<close> runs the destructor; the stream members of a server socket are null.\<close>

definition Socket_delete :: "sock \<Rightarrow> sock" where
  "Socket_delete s = (if sockDesc s \<ge> 0 then Socket_close s else s)"

end
