(* ===== verification/JavaBase.thy ===== *)
theory JavaBase
  imports Wire Sockets
begin

text \<open>
  The Java platform as the client (\<open>BabbleOnClient2_newest/src/main/java\<close>) uses it: strings and
  their ASCII encoding, exceptions, and the data streams over a socket.

  A \<open>char\<close> is a 16 bit word and a \<open>String\<close> a list of them. The client passes no null strings,
  so the tests against null in its constructors are left out; their other halves stay.
\<close>

section \<open>How a call ends\<close>

text \<open>
  The exceptions of the client and of the library calls it makes. The texts of exceptions,
  which are only logged, are left out.
\<close>

datatype jexn =
    BabbleException
  | NullPointerException
  | IOException
  | IllegalArgumentException
  | BadPaddingException
  | UnsupportedOperationException

datatype jstop =
    JThrow jexn
  | JBlocks      \<comment> \<open>a read that waits for the peer\<close>

type_synonym 'a jres = "jstop + 'a"

abbreviation babble_throw :: "'a jres" where
  "babble_throw \<equiv> Inl (JThrow BabbleException)"

text \<open>Calls that also change a state, in sequence; and \<open>catch (IOException e)\<close> with a rethrow.\<close>

definition jret :: "'a \<Rightarrow> 's \<Rightarrow> 'a jres \<times> 's" where
  "jret a s = (Inr a, s)"

definition jlift :: "'a jres \<Rightarrow> 's \<Rightarrow> 'a jres \<times> 's" where
  "jlift r s = (r, s)"

definition jbind :: "('s \<Rightarrow> 'a jres \<times> 's) \<Rightarrow> ('a \<Rightarrow> 's \<Rightarrow> 'b jres \<times> 's) \<Rightarrow> 's \<Rightarrow> 'b jres \<times> 's" where
  "jbind m f s = (case m s of (Inl x, s) \<Rightarrow> (Inl x, s) | (Inr a, s) \<Rightarrow> f a s)"

definition io_to_babble :: "'a jres \<Rightarrow> 'a jres" where
  "io_to_babble r = (case r of Inl (JThrow IOException) \<Rightarrow> babble_throw | _ \<Rightarrow> r)"

definition rethrow_io :: "('s \<Rightarrow> 'a jres \<times> 's) \<Rightarrow> 's \<Rightarrow> 'a jres \<times> 's" where
  "rethrow_io m s = (case m s of (r, s) \<Rightarrow> (io_to_babble r, s))"

text \<open>\<open>if (b) throw new BabbleException(...)\<close>\<close>

definition babble_if :: "bool \<Rightarrow> unit jres" where
  "babble_if b = (if b then babble_throw else Inr ())"

lemma jret_simps [simp]: "jbind (jret a) f s = f a s" "jbind (jlift (Inr a)) f s = f a s"
  "jbind (jlift (Inl x)) f s = (Inl x, s)"
  by (simp_all add: jbind_def jret_def jlift_def)

lemma babble_if_simps [simp]: "babble_if False = Inr ()" "babble_if True = babble_throw"
  by (simp_all add: babble_if_def)

lemma io_to_babble_simps [simp]: "io_to_babble (Inr a) = Inr a"
  "io_to_babble (Inl (JThrow IOException)) = babble_throw" "io_to_babble babble_throw = babble_throw"
  by (simp_all add: io_to_babble_def)

section \<open>Strings\<close>

type_synonym jchar = "16 word"
type_synonym jstring = "jchar list"

text \<open>The characters of a literal.\<close>

definition jstr :: "string \<Rightarrow> jstring" where
  "jstr s = map of_char s"

text \<open>
  \<open>s.getBytes("ASCII")\<close>: a character outside ASCII becomes a question mark, a pair of
  surrogates (one character outside the basic plane) a single one.
\<close>

definition high_surrogate :: "jchar \<Rightarrow> bool" where
  "high_surrogate c \<longleftrightarrow> 0xD800 \<le> c \<and> c \<le> 0xDBFF"

definition low_surrogate :: "jchar \<Rightarrow> bool" where
  "low_surrogate c \<longleftrightarrow> 0xDC00 \<le> c \<and> c \<le> 0xDFFF"

definition ascii_byte :: "jchar \<Rightarrow> byte" where
  "ascii_byte c = (if c < 128 then ucast c else 63)"

fun getBytes :: "jstring \<Rightarrow> bytes" where
  "getBytes (c # d # cs) = ascii_byte c #
     (if high_surrogate c \<and> low_surrogate d then getBytes cs else getBytes (d # cs))"
| "getBytes [c] = [ascii_byte c]"
| "getBytes [] = []"

text \<open>\<open>new String(bs, "ASCII")\<close>: a byte above 127 becomes the replacement character.\<close>

definition string_of :: "bytes \<Rightarrow> jstring" where
  "string_of bs = map (\<lambda>b. if b < 128 then ucast b else 0xFFFD) bs"

definition is_ascii :: "jstring \<Rightarrow> bool" where
  "is_ascii s \<longleftrightarrow> list_all (\<lambda>c. c < 128) s"

lemma length_getBytes: "length (getBytes s) \<le> length s"
  by (induction s rule: getBytes.induct) auto

lemma ascii_no_surrogate: "c < 128 \<Longrightarrow> \<not> high_surrogate c"
  by (auto simp: high_surrogate_def word_le_nat_alt word_less_nat_alt)

lemma getBytes_ascii: "is_ascii s \<Longrightarrow> getBytes s = map ucast s"
  by (induction s rule: getBytes.induct) (auto simp: is_ascii_def ascii_byte_def ascii_no_surrogate)

lemma length_getBytes_ascii [simp]: "is_ascii s \<Longrightarrow> length (getBytes s) = length s"
  by (simp add: getBytes_ascii)

lemma length_string_of [simp]: "length (string_of bs) = length bs"
  by (simp add: string_of_def)

lemma string_of_getBytes: "is_ascii s \<Longrightarrow> string_of (getBytes s) = s"
proof -
  have c: "ucast (ucast c :: byte) = c \<and> (ucast c :: byte) < 128" if "c < 128" for c :: jchar
  proof -
    have "unat c < 128" using that by (simp add: word_less_nat_alt)
    then show ?thesis by (simp add: word_less_nat_alt word_unat_eq_iff unsigned_ucast_eq unsigned_take_bit_eq take_bit_nat_eq_self)
  qed
  assume "is_ascii s"
  then show ?thesis
    by (simp add: getBytes_ascii string_of_def is_ascii_def list_all_iff map_idI c)
qed

lemma getBytes_string_of: "list_all (\<lambda>b. b < 128) bs \<Longrightarrow> is_ascii (string_of bs) \<and> getBytes (string_of bs) = bs"
proof -
  have c: "ucast (ucast b :: jchar) = b \<and> (ucast b :: jchar) < 128" if "b < 128" for b :: byte
  proof -
    have "unat b < 128" using that by (simp add: word_less_nat_alt)
    then show ?thesis by (simp add: word_less_nat_alt word_unat_eq_iff unsigned_ucast_eq unsigned_take_bit_eq take_bit_nat_eq_self)
  qed
  assume bs: "list_all (\<lambda>b. b < 128) bs"
  then have a: "is_ascii (string_of bs)" by (auto simp: is_ascii_def string_of_def list_all_iff c)
  with bs show ?thesis by (auto simp: getBytes_ascii string_of_def list_all_iff c intro!: map_idI)
qed

text \<open>ASCII literals are the same on both sides.\<close>

lemma ascii_char:
  assumes "of_char c < (128 :: nat)"
  shows "(of_char c :: jchar) < 128" and "ucast (of_char c :: jchar) = (of_char c :: byte)"
proof -
  have w: "(of_char c :: jchar) = word_of_nat (of_char c)" "(of_char c :: byte) = word_of_nat (of_char c)"
    by (simp_all only: of_nat_of_char)
  have "unat (word_of_nat (of_char c) :: jchar) = of_char c"
    using assms by (simp add: unsigned_of_nat take_bit_nat_eq_self)
  then show "(of_char c :: jchar) < 128" using assms unfolding w by (simp add: word_less_nat_alt del: of_nat_of_char)
  show "ucast (of_char c :: jchar) = (of_char c :: byte)"
    unfolding w using assms
    by (simp add: word_unat_eq_iff unsigned_ucast_eq unsigned_take_bit_eq unsigned_of_nat take_bit_nat_eq_self del: of_nat_of_char)
qed

lemma literal_bytes:
  assumes "list_all (\<lambda>c. of_char c < (128 :: nat)) s"
  shows "is_ascii (jstr s)" and "getBytes (jstr s) = ascii s" and "string_of (ascii s) = jstr s"
proof -
  show a: "is_ascii (jstr s)" using assms by (auto simp: is_ascii_def jstr_def list_all_iff ascii_char(1))
  show g: "getBytes (jstr s) = ascii s"
    using assms by (simp add: getBytes_ascii [OF a]) (auto simp: jstr_def ascii_def list_all_iff ascii_char(2))
  show "string_of (ascii s) = jstr s" using string_of_getBytes [OF a] by (simp add: g)
qed

section \<open>Reading a DataInputStream\<close>

text \<open>Taking bytes off the segments that have arrived.\<close>

fun drop_bytes :: "nat \<Rightarrow> bytes list \<Rightarrow> bytes list" where
  "drop_bytes n [] = []"
| "drop_bytes n (seg # segs) =
     (if n < length seg then drop n seg # segs else drop_bytes (n - length seg) segs)"

lemma concat_drop_bytes [simp]: "concat (drop_bytes n segs) = drop n (concat segs)"
  by (induction n segs rule: drop_bytes.induct) simp_all

text \<open>
  \<open>readFully\<close> and the readers over it block until all bytes are there; the end of the stream
  and a reset connection are \<open>IOException\<close>s. \<open>read_some\<close> is \<open>read(chunk)\<close>: as many bytes as one
  call of the system gives, or \<open>None\<close> at the end of the stream.
\<close>

definition readFully :: "nat \<Rightarrow> sock \<Rightarrow> bytes jres \<times> sock" where
  "readFully n s =
     (if n \<le> length (pending s) then (Inr (take n (pending s)), s\<lparr>inq := drop_bytes n (inq s)\<rparr>)
      else ((case in_end s of PeerSilent \<Rightarrow> Inl JBlocks | _ \<Rightarrow> Inl (JThrow IOException)), s\<lparr>inq := []\<rparr>))"

definition read_some :: "nat \<Rightarrow> sock \<Rightarrow> bytes option jres \<times> sock" where
  "read_some n s =
     (case kernel_recv n s of
        (RData d, s) \<Rightarrow> (Inr (if d = [] \<and> 0 < n then None else Some d), s)
      | (RError, s) \<Rightarrow> (Inl (JThrow IOException), s)
      | (RBlock, s) \<Rightarrow> (Inl JBlocks, s))"

text \<open>The most significant byte comes first.\<close>

definition from_bytes :: "bytes \<Rightarrow> 'a::len word" where
  "from_bytes bs = foldl (\<lambda>n b. push_bit 8 n OR ucast b) 0 bs"

definition to_bytes :: "nat \<Rightarrow> 'a::len word \<Rightarrow> bytes" where
  "to_bytes k n = map (\<lambda>i. ucast (drop_bit (8 * (k - 1 - i)) n)) [0..<k]"

definition ds_readByte :: "sock \<Rightarrow> byte jres \<times> sock" where
  "ds_readByte = jbind (readFully 1) (\<lambda>bs. jret (hd bs))"

definition ds_readInt :: "sock \<Rightarrow> cint jres \<times> sock" where
  "ds_readInt = jbind (readFully 4) (\<lambda>bs. jret (from_bytes bs))"

definition ds_readLong :: "sock \<Rightarrow> clong jres \<times> sock" where
  "ds_readLong = jbind (readFully 8) (\<lambda>bs. jret (from_bytes bs))"

section \<open>Writing a DataOutputStream\<close>

text \<open>
  A call of \<open>write\<close> returns when the kernel has taken every byte, and throws when it refuses;
  the Java machine ignores SIGPIPE. \<open>None\<close> stands for a null array.
\<close>

primrec write_all :: "send_outcome list \<Rightarrow> bytes \<Rightarrow> sock \<Rightarrow> unit jres \<times> sock" where
  "write_all [] bs s = (Inr (), s\<lparr>out := out s @ bs, send_plan := []\<rparr>)"
| "write_all (p # ps) bs s =
     (if bs = [] then (Inr (), s\<lparr>send_plan := p # ps\<rparr>)
      else case p of
        Takes k \<Rightarrow> write_all ps (drop k bs) (s\<lparr>out := out s @ take k bs\<rparr>)
      | _ \<Rightarrow> (Inl (JThrow IOException), s\<lparr>send_plan := ps\<rparr>))"

primrec write_each :: "bytes option list \<Rightarrow> sock \<Rightarrow> unit jres \<times> sock" where
  "write_each [] = jret ()"
| "write_each (c # cs) =
     (case c of
        None \<Rightarrow> jlift (Inl (JThrow NullPointerException))
      | Some bs \<Rightarrow> jbind (\<lambda>s. write_all (send_plan s) bs s) (\<lambda>_. write_each cs))"

section \<open>Properties of the streams\<close>

lemma readFully_front:
  assumes "pending s = bs @ rest" and "length bs = n"
  shows "\<exists>q. readFully n s = (Inr bs, s\<lparr>inq := q\<rparr>) \<and> concat q = rest"
  using assms by (auto simp: readFully_def pending_def)

lemma write_each_ok:
  "send_plan s = [] \<Longrightarrow> None \<notin> set cs \<Longrightarrow>
   write_each cs s = (Inr (), s\<lparr>out := out s @ concat (map the cs)\<rparr>)"
proof (induction cs arbitrary: s)
  case Nil
  then show ?case by (simp add: jret_def)
next
  case (Cons c cs)
  then obtain bs where c: "c = Some bs" by (cases c) auto
  from Cons show ?case by (simp add: c jbind_def)
qed

text \<open>
  The integers are those of the C++ side: what \<open>writeInt\<close> and \<open>writeLong\<close> put on the wire is
  what \<open>encodeInt\<close> and \<open>encodeLong\<close> do on a little-endian host, and reading gives it back.
\<close>

lemma byte_shifts:
  fixes n :: "'a::len word"
  assumes "m + 8 \<le> LENGTH('a)"
  shows "(ucast (drop_bit m n) :: byte) = ucast (signed_drop_bit m n)"
  using assms by (intro bit_word_eqI) (auto simp: bit_simps)

lemma to_bytes_be: "LENGTH('a::len) = 8 * k \<Longrightarrow> to_bytes k (n :: 'a word) = be_bytes k n"
  unfolding to_bytes_def be_bytes_def
  by (intro map_cong refl) (simp add: byte_shifts mult.commute)

lemma to_bytes_int: "to_bytes 4 (n :: cint) = encodeInt LittleEndian [] n"
  by (simp add: to_bytes_be encodeInt_LE)

lemma to_bytes_long: "to_bytes 8 (n :: clong) = encodeLong LittleEndian [] n"
  by (simp add: to_bytes_be encodeLong_LE)

lemma from_bytes_snoc: "from_bytes (bs @ [b]) = push_bit 8 (from_bytes bs) OR ucast b"
  by (simp add: from_bytes_def)

lemma bit_from_bytes:
  "bit (from_bytes bs :: 'a::len word) n \<longleftrightarrow> n < LENGTH('a) \<and> n < 8 * length bs \<and> bit (rev bs ! (n div 8)) (n mod 8)"
proof (induction bs arbitrary: n rule: rev_induct)
  case Nil
  then show ?case by (simp add: from_bytes_def)
next
  case (snoc b bs)
  show ?case
  proof (cases "n < 8")
    case True
    then show ?thesis by (auto simp: from_bytes_snoc bit_simps)
  next
    case False
    then obtain m where n: "n = m + 8" by (metis add.commute le_Suc_ex not_less)
    have "n div 8 = Suc (m div 8)" "n mod 8 = m mod 8" by (simp_all add: n)
    then show ?thesis using snoc.IH [of m] bit_byte_bound [of b n]
      by (auto simp: from_bytes_snoc bit_simps n dest: bit_imp_le_length)
  qed
qed

lemma from_to_bytes:
  assumes "LENGTH('a::len) = 8 * k"
  shows "from_bytes (to_bytes k (x :: 'a word)) = x"
proof (rule bit_word_eqI)
  fix n assume n: "n < LENGTH('a)"
  then have "n div 8 < k" using assms by simp
  then have "rev (to_bytes k x) ! (n div 8) = ucast (drop_bit (8 * (n div 8)) x)"
    by (simp add: to_bytes_def rev_nth)
  moreover have "8 * (n div 8) + n mod 8 = n" by simp
  ultimately show "bit (from_bytes (to_bytes k x) :: 'a word) n \<longleftrightarrow> bit x n"
    using n assms by (simp add: bit_from_bytes to_bytes_def [of k x] bit_simps)
qed

lemma length_to_bytes [simp]: "length (to_bytes k n) = k"
  by (simp add: to_bytes_def)

lemma from_bytes_encoded [simp]:
  "from_bytes (encodeInt LittleEndian [] n) = (n :: cint)"
  "from_bytes (encodeLong LittleEndian [] m) = (m :: clong)"
  using from_to_bytes [where 'a = 32 and k = 4] from_to_bytes [where 'a = 64 and k = 8]
  by (simp_all add: to_bytes_int to_bytes_long)

text \<open>Readers on what the encoders wrote.\<close>

lemma ds_readInt_front:
  assumes "pending s = encodeInt LittleEndian [] n @ rest"
  shows "\<exists>q. ds_readInt s = (Inr n, s\<lparr>inq := q\<rparr>) \<and> concat q = rest"
  using readFully_front [OF assms, of 4] by (auto simp: ds_readInt_def jbind_def jret_def)

lemma ds_readLong_front:
  assumes "pending s = encodeLong LittleEndian [] n @ rest"
  shows "\<exists>q. ds_readLong s = (Inr n, s\<lparr>inq := q\<rparr>) \<and> concat q = rest"
  using readFully_front [OF assms, of 8] by (auto simp: ds_readLong_def jbind_def jret_def)

lemma ds_readByte_front:
  assumes "pending s = b # rest"
  shows "\<exists>q. ds_readByte s = (Inr b, s\<lparr>inq := q\<rparr>) \<and> concat q = rest"
  using readFully_front [of s "[b]" rest 1] assms by (auto simp: ds_readByte_def jbind_def jret_def)

end
