(* ===== verification/JavaMessages.thy ===== *)
theory JavaMessages
  imports JavaBase
begin

text \<open>
  The message classes of the Java client (\<open>BabbleOnClient2_newest/src/main/java/protocol\<close>),
  except the list of chat messages: \<open>BabbleOnMessage\<close>, \<open>LoginMessage\<close>, \<open>ResponseMessage\<close>,
  \<open>ChallengeMessage\<close>, \<open>ACKMessage\<close>, \<open>PollMessage\<close>. A constructor is a function to the object
  or the exception; a constructor from a stream also changes the stream; \<open>encode\<close> is the list
  of its \<open>write\<close> calls.
\<close>

section \<open>BabbleOnMessage\<close>

definition HEADER_J :: jstring where "HEADER_J = jstr ''SPChat/1.0''"
definition MAX_UNAME_LEN :: int where "MAX_UNAME_LEN = 64"

datatype MessageType =
    LoginType | ChallengeType | ResponseType | ACKType | MsgType | PollType | PollResponseType | DefaultType

fun ordinal :: "MessageType \<Rightarrow> byte" where
  "ordinal LoginType = 0"
| "ordinal ChallengeType = 1"
| "ordinal ResponseType = 2"
| "ordinal ACKType = 3"
| "ordinal MsgType = 4"
| "ordinal PollType = 5"
| "ordinal PollResponseType = 6"
| "ordinal DefaultType = 7"

definition getMessageType :: "byte \<Rightarrow> MessageType option" where
  "getMessageType b =
     (if b = 0 then Some LoginType else if b = 1 then Some ChallengeType else if b = 2 then Some ResponseType
      else if b = 3 then Some ACKType else if b = 4 then Some MsgType else if b = 5 then Some PollType
      else if b = 6 then Some PollResponseType else None)"

text \<open>The length member of a message built from values: it stays 0 unless the length is positive.\<close>

definition BabbleOnMessage_new :: "byte \<Rightarrow> clong \<Rightarrow> clong jres" where
  "BabbleOnMessage_new type messageLen =
     (if sint type \<ge> 7 then babble_throw else Inr (if 0 < sint messageLen then messageLen else 0))"

definition readInt :: "int \<Rightarrow> sock \<Rightarrow> cint jres \<times> sock" where
  "readInt maxValue =
     jbind (rethrow_io ds_readInt) (\<lambda>tempLen.
     jbind (jlift (babble_if (0 > sint tempLen \<or> maxValue < sint tempLen))) (\<lambda>_. jret tempLen))"

definition readStr :: "cint \<Rightarrow> sock \<Rightarrow> jstring jres \<times> sock" where
  "readStr len = jbind (rethrow_io (readFully (nat (sint len)))) (\<lambda>b. jret (string_of b))"

definition readLong :: "sock \<Rightarrow> clong jres \<times> sock" where
  "readLong = rethrow_io ds_readLong"

text \<open>The constructor from a stream, as the reader thread calls it: the header, type and length.\<close>

definition BabbleOnMessage_read :: "sock \<Rightarrow> (byte \<times> clong) jres \<times> sock" where
  "BabbleOnMessage_read =
     rethrow_io (
       jbind (readStr (word_of_nat (length HEADER_J))) (\<lambda>strg.
       jbind (jlift (if strg = [] then Inl (JThrow NullPointerException) else babble_if (HEADER_J \<noteq> strg))) (\<lambda>_.
       jbind ds_readByte (\<lambda>messageType.
       jbind ds_readLong (\<lambda>messageLen.
       jbind (jlift (babble_if (0 > sint messageLen))) (\<lambda>_. jret (messageType, messageLen)))))))"

text \<open>What every \<open>encode\<close> writes first.\<close>

definition header_writes :: "MessageType \<Rightarrow> clong \<Rightarrow> bytes option list" where
  "header_writes t messageLen = [Some (getBytes HEADER_J), Some [ordinal t], Some (to_bytes 8 messageLen)]"

section \<open>LoginMessage\<close>

datatype KeyType = NONE | ASYMMETRIC | SYMMETRIC | DEFAULT

fun key_ordinal :: "KeyType \<Rightarrow> byte" where
  "key_ordinal NONE = 0"
| "key_ordinal ASYMMETRIC = 1"
| "key_ordinal SYMMETRIC = 2"
| "key_ordinal DEFAULT = 3"

fun getKeyLen :: "KeyType \<Rightarrow> cint" where
  "getKeyLen NONE = 0"
| "getKeyLen ASYMMETRIC = 271"
| "getKeyLen SYMMETRIC = 128"
| "getKeyLen DEFAULT = 0"

definition KEY_FILE_HEADER :: jstring where "KEY_FILE_HEADER = jstr ''-----BEGIN PUBLIC KEY-----''"
definition KEY_FILE_FOOTER :: jstring where "KEY_FILE_FOOTER = 10 # jstr ''-----END PUBLIC KEY-----''"
definition KEYSIZE :: nat where "KEYSIZE = 220"
definition KEY_LEN :: nat where "KEY_LEN = length KEY_FILE_HEADER + KEYSIZE + length KEY_FILE_FOOTER"

record LoginMessage =
  jl_messageLen :: clong
  jl_usernameLength :: cint
  jl_username :: jstring
  jl_keyType :: byte
  jl_publicKeyStr :: "jstring option"
  jl_encodedKey :: "bytes option"

text \<open>
  \<open>calculateKey\<close> of a public key: \<open>base64\<close> is the encoding of the key by the library, of which a
  line break precedes every 64 characters.
\<close>

primrec pem_lines :: "nat \<Rightarrow> jstring \<Rightarrow> jstring" where
  "pem_lines i [] = []"
| "pem_lines i (c # cs) = (if i mod 64 = 0 then [10] else []) @ c # pem_lines (Suc i) cs"

definition calculateKey :: "bytes \<Rightarrow> jstring" where
  "calculateKey base64 = KEY_FILE_HEADER @ pem_lines 0 (string_of base64) @ KEY_FILE_FOOTER"

text \<open>The checks of a user name against its announced length, common to the constructors.\<close>

definition check_name :: "cint \<Rightarrow> jstring \<Rightarrow> unit jres" where
  "check_name usernameLength username =
     rbind (babble_if (0 > sint usernameLength \<or> MAX_UNAME_LEN < sint usernameLength)) (\<lambda>_.
     babble_if (usernameLength \<noteq> word_of_nat (length username)))"

definition LoginMessage_new ::
  "('k \<Rightarrow> bytes) \<Rightarrow> cint \<Rightarrow> jstring \<Rightarrow> KeyType \<Rightarrow> 'k option \<Rightarrow> LoginMessage jres" where
  "LoginMessage_new base64 usernameLength username keyType publicKey =
     rbind (BabbleOnMessage_new (ordinal LoginType) (scast (4 + usernameLength + 1 + getKeyLen keyType))) (\<lambda>messageLen.
     rbind (check_name usernameLength username) (\<lambda>_.
     rbind (babble_if (keyType = ASYMMETRIC \<and> publicKey = None)) (\<lambda>_.
     Inr \<lparr>jl_messageLen = messageLen, jl_usernameLength = usernameLength, jl_username = username,
       jl_keyType = key_ordinal keyType,
       jl_publicKeyStr = (if keyType = ASYMMETRIC then map_option (\<lambda>k. calculateKey (base64 k)) publicKey else None),
       jl_encodedKey = None\<rparr>)))"

text \<open>The part of a PEM text that \<open>decodeKey\<close> hands to the library, which may refuse it.\<close>

definition justKey :: "jstring \<Rightarrow> jstring" where
  "justKey key = take (length key - length KEY_FILE_FOOTER - length KEY_FILE_HEADER) (drop (length KEY_FILE_HEADER) key)"

definition decodeKey_J :: "(jstring \<Rightarrow> 'k option) \<Rightarrow> jstring \<Rightarrow> 'k jres" where
  "decodeKey_J parse key = (case parse (justKey key) of None \<Rightarrow> babble_throw | Some k \<Rightarrow> Inr k)"

definition LoginMessage_read :: "(jstring \<Rightarrow> 'k option) \<Rightarrow> sock \<Rightarrow> LoginMessage jres \<times> sock" where
  "LoginMessage_read parse =
     jbind (rethrow_io ds_readInt) (\<lambda>usernameLength.
     jbind (jlift (babble_if (0 > sint usernameLength \<or> MAX_UNAME_LEN < sint usernameLength))) (\<lambda>_.
     jbind (readStr usernameLength) (\<lambda>username.
     jbind (jlift (babble_if (usernameLength \<noteq> word_of_nat (length username)))) (\<lambda>_.
     jbind (rethrow_io ds_readByte) (\<lambda>keyType.
     jbind (jlift (babble_if (sint keyType \<ge> sint (key_ordinal DEFAULT)))) (\<lambda>_.
     jbind (if keyType = key_ordinal ASYMMETRIC
            then jbind (readStr (word_of_nat KEY_LEN)) (\<lambda>str.
                 jbind (jlift (decodeKey_J parse str)) (\<lambda>_. jret (Some str)))
            else jret None) (\<lambda>publicKeyStr.
     jret \<lparr>jl_messageLen = 0, jl_usernameLength = usernameLength, jl_username = username,
       jl_keyType = keyType, jl_publicKeyStr = publicKeyStr, jl_encodedKey = None\<rparr>)))))))"

definition setEncodedKey :: "bytes \<Rightarrow> LoginMessage \<Rightarrow> LoginMessage" where
  "setEncodedKey key m = m\<lparr>jl_encodedKey := Some key\<rparr>"

definition jl_encode :: "LoginMessage \<Rightarrow> bytes option list" where
  "jl_encode m =
     header_writes LoginType (jl_messageLen m) @
     [Some (to_bytes 4 (jl_usernameLength m)), Some (getBytes (jl_username m)), Some [jl_keyType m]] @
     (if jl_keyType m = key_ordinal ASYMMETRIC then [map_option getBytes (jl_publicKeyStr m)]
      else if jl_keyType m = key_ordinal SYMMETRIC then [jl_encodedKey m]
      else [])"

section \<open>ResponseMessage and PollMessage\<close>

record ResponseMessage =
  jr_messageLen :: clong
  jr_usernameLength :: cint
  jr_username :: jstring
  jr_hashLen :: cint
  jr_hash :: jstring
  jr_nonce :: clong

definition ResponseMessage_new :: "cint \<Rightarrow> jstring \<Rightarrow> cint \<Rightarrow> jstring \<Rightarrow> clong \<Rightarrow> ResponseMessage jres" where
  "ResponseMessage_new usernameLength username fLen hashF nonce =
     rbind (BabbleOnMessage_new (ordinal ResponseType) (scast (4 * 2 + usernameLength + fLen + 8))) (\<lambda>messageLen.
     rbind (babble_if (fLen \<noteq> word_of_nat (length hashF))) (\<lambda>_.
     rbind (check_name usernameLength username) (\<lambda>_.
     Inr \<lparr>jr_messageLen = messageLen, jr_usernameLength = usernameLength, jr_username = username,
       jr_hashLen = fLen, jr_hash = hashF, jr_nonce = nonce\<rparr>)))"

definition jr_encode :: "ResponseMessage \<Rightarrow> bytes option list" where
  "jr_encode m =
     header_writes ResponseType (jr_messageLen m) @
     [Some (to_bytes 4 (jr_usernameLength m)), Some (getBytes (jr_username m)),
      Some (to_bytes 4 (jr_hashLen m)), Some (getBytes (jr_hash m)), Some (to_bytes 8 (jr_nonce m))]"

record PollMessage =
  jp_messageLen :: clong
  jp_usernameLength :: cint
  jp_username :: jstring
  jp_timestamp :: clong

text \<open>\<open>now\<close> is what \<open>currentTimeMillis\<close> returns inside the constructor.\<close>

definition PollMessage_new :: "clong \<Rightarrow> cint \<Rightarrow> jstring \<Rightarrow> clong \<Rightarrow> PollMessage jres" where
  "PollMessage_new now usernameLength username timestamp =
     rbind (BabbleOnMessage_new (ordinal PollType) (scast (4 + usernameLength + 8))) (\<lambda>messageLen.
     rbind (check_name usernameLength username) (\<lambda>_.
     rbind (babble_if (sint timestamp > sint now)) (\<lambda>_.
     rbind (babble_if (0 > sint timestamp)) (\<lambda>_.
     Inr \<lparr>jp_messageLen = messageLen, jp_usernameLength = usernameLength, jp_username = username,
       jp_timestamp = timestamp\<rparr>))))"

definition jp_encode :: "PollMessage \<Rightarrow> bytes option list" where
  "jp_encode m =
     header_writes PollType (jp_messageLen m) @
     [Some (to_bytes 4 (jp_usernameLength m)), Some (getBytes (jp_username m)), Some (to_bytes 8 (jp_timestamp m))]"

section \<open>ChallengeMessage\<close>

text \<open>The loop that reads the eight bytes one by one.\<close>

primrec read_bytes :: "nat \<Rightarrow> sock \<Rightarrow> bytes jres \<times> sock" where
  "read_bytes 0 = jret []"
| "read_bytes (Suc n) =
     jbind (rethrow_io ds_readByte) (\<lambda>b. jbind (read_bytes n) (\<lambda>bs. jret (b # bs)))"

definition ChallengeMessage_read :: "sock \<Rightarrow> bytes jres \<times> sock" where
  "ChallengeMessage_read = read_bytes 8"

section \<open>ACKMessage\<close>

datatype Errors =
    SUCCESS_J | INVALID_MSG_TYPE_J | INVALID_USERNAME_PASSWORD_J | FORMATTING_ERROR_J
  | DEFAULT_ERROR_J | PASSWORD_AUTH_J | INVALID_RECIPIENT_J | INVALID_ERROR_J

definition getValue :: "int \<Rightarrow> Errors" where
  "getValue e =
     (if e = 0 then SUCCESS_J else if e = 1 then INVALID_MSG_TYPE_J else if e = 2 then INVALID_USERNAME_PASSWORD_J
      else if e = 3 then FORMATTING_ERROR_J else if e = 4 then DEFAULT_ERROR_J else if e = 5 then PASSWORD_AUTH_J
      else if e = 6 then INVALID_RECIPIENT_J else INVALID_ERROR_J)"

record ACKMessage =
  ja_errSender :: byte
  ja_error :: Errors
  ja_sender :: int

text \<open>
  \<open>errSender >>> 1\<close> shifts the byte after its promotion to an \<open>int\<close>, which copies the sign;
  \<open>errSender % 2\<close> has the sign of the byte.
\<close>

definition findError :: "byte \<Rightarrow> int" where
  "findError errSender = sint (drop_bit 1 (scast errSender :: cint))"

definition mod_binary :: "byte \<Rightarrow> int" where
  "mod_binary errSender = (let b = sint errSender in if b < 0 then - (- b mod 2) else b mod 2)"

definition ack_getSender_J :: "ACKMessage \<Rightarrow> int" where
  "ack_getSender_J m = mod_binary (ja_errSender m)"

text \<open>What both constructors make of the byte.\<close>

definition ACKMessage_of :: "byte \<Rightarrow> ACKMessage" where
  "ACKMessage_of errSender =
     \<lparr>ja_errSender = errSender, ja_error = getValue (findError errSender), ja_sender = mod_binary errSender\<rparr>"

definition SERVER_J :: int where "SERVER_J = 0"
definition CLIENT_J :: int where "CLIENT_J = 1"

definition ACKMessage_read :: "sock \<Rightarrow> ACKMessage jres \<times> sock" where
  "ACKMessage_read =
     jbind (rethrow_io ds_readByte) (\<lambda>errSender.
     jret (ACKMessage_of errSender))"

end
