(* ===== verification/JavaChat.thy ===== *)
theory JavaChat
  imports JavaMessages
begin

text \<open>
  The chat messages of the Java client: \<open>MsgMessage\<close> and the list of them, \<open>PollResponseMessage\<close>
  (\<open>BabbleOnClient2_newest/src/main/java/protocol\<close>).
\<close>

section \<open>Ciphers\<close>

text \<open>
  A \<open>javax.crypto.Cipher\<close> is an object with a state. \<open>update\<close> takes further input and returns
  the output it gives rise to, or null when there is none; \<open>doFinal\<close> ends the operation, or
  throws when the padding is wrong.
\<close>

record 'c cipher =
  c_update :: "'c \<Rightarrow> bytes \<Rightarrow> bytes option \<times> 'c"
  c_doFinal :: "'c \<Rightarrow> bytes \<Rightarrow> bytes option \<times> 'c"

definition BLOCK_SIZE :: nat where "BLOCK_SIZE = 16"

text \<open>The overloads with an offset and a length check both against the array.\<close>

definition update_range :: "'c cipher \<Rightarrow> bytes \<Rightarrow> nat \<Rightarrow> nat \<Rightarrow> 'c \<Rightarrow> bytes option jres \<times> 'c" where
  "update_range cipher chunk off len c =
     (if length chunk < off + len then (Inl (JThrow IllegalArgumentException), c)
      else case c_update cipher c (take len (drop off chunk)) of (r, c) \<Rightarrow> (Inr r, c))"

definition doFinal :: "'c cipher \<Rightarrow> bytes \<Rightarrow> 'c \<Rightarrow> bytes jres \<times> 'c" where
  "doFinal cipher chunk c =
     (case c_doFinal cipher c chunk of
        (None, c) \<Rightarrow> (Inl (JThrow BadPaddingException), c)
      | (Some bs, c) \<Rightarrow> (Inr bs, c))"

definition doFinal_range :: "'c cipher \<Rightarrow> bytes \<Rightarrow> nat \<Rightarrow> nat \<Rightarrow> 'c \<Rightarrow> bytes jres \<times> 'c" where
  "doFinal_range cipher chunk off len c =
     (if length chunk < off + len then (Inl (JThrow IllegalArgumentException), c)
      else doFinal cipher (take len (drop off chunk)) c)"

text \<open>\<open>catch (BadPaddingException | IllegalBlockSizeException ex)\<close>\<close>

definition padding_to_babble :: "('s \<Rightarrow> 'a jres \<times> 's) \<Rightarrow> 's \<Rightarrow> 'a jres \<times> 's" where
  "padding_to_babble m s =
     (case m s of (Inl (JThrow BadPaddingException), s) \<Rightarrow> (babble_throw, s) | r \<Rightarrow> r)"

section \<open>MsgMessage\<close>

definition MAX_MSG_LEN :: int where "MAX_MSG_LEN = 15"
definition MAX_MSGS :: int where "MAX_MSGS = 500"

record MsgMessage =
  jm_senderUsernameLength :: cint
  jm_senderUsername :: jstring
  jm_receiverUsernameLength :: cint
  jm_receiverUsername :: jstring
  jm_messageLengthEncrypted :: cint
  jm_message :: jstring
  jm_messageLenDecrypted :: clong
  jm_messageNumber :: cint
  jm_totalMessages :: cint
  jm_timestamp :: clong
  jm_encrypted :: bytes

text \<open>
  \<open>doEncryption\<close>: the loop over the chunks before the last one passes an end position where the
  library expects a length, and drops what \<open>update\<close> returns.
\<close>

function encrypt_loop :: "'c cipher \<Rightarrow> bytes \<Rightarrow> nat \<Rightarrow> 'c \<Rightarrow> nat jres \<times> 'c" where
  "encrypt_loop cipher chunk write =
     (if int write < int (length chunk) - int BLOCK_SIZE
      then jbind (update_range cipher chunk write (write + BLOCK_SIZE)) (\<lambda>_.
           encrypt_loop cipher chunk (write + BLOCK_SIZE))
      else jret write)"
  by pat_completeness auto
termination by (relation "measure (\<lambda>(cipher, chunk, write). length chunk - write)") (auto simp: BLOCK_SIZE_def)

declare encrypt_loop.simps [simp del]

definition doEncryption :: "'c cipher \<Rightarrow> jstring \<Rightarrow> 'c \<Rightarrow> bytes jres \<times> 'c" where
  "doEncryption cipher message =
     padding_to_babble (
       let chunk = getBytes message in
       jbind (encrypt_loop cipher chunk 0) (\<lambda>write.
       if write < length chunk then doFinal_range cipher chunk write (length chunk) else jret []))"

text \<open>\<open>now\<close> is what \<open>currentTimeMillis\<close> returns inside the constructor.\<close>

definition MsgMessage_new ::
  "'c cipher \<Rightarrow> clong \<Rightarrow> cint \<Rightarrow> jstring \<Rightarrow> cint \<Rightarrow> jstring \<Rightarrow> jstring \<Rightarrow> clong \<Rightarrow> cint \<Rightarrow> cint \<Rightarrow> clong
     \<Rightarrow> 'c \<Rightarrow> MsgMessage jres \<times> 'c" where
  "MsgMessage_new encrypt now senderUsernameLength senderUsername receiverUsernameLength receiverUsername
       message messageLength messageNumber totalMessages timestamp =
     jbind (jlift (
       rbind (BabbleOnMessage_new (ordinal MsgType)
         (scast (senderUsernameLength + receiverUsernameLength) + messageLength + 8 * 2 + 4 * 5)) (\<lambda>_.
       rbind (check_name senderUsernameLength senderUsername) (\<lambda>_.
       rbind (check_name receiverUsernameLength receiverUsername) (\<lambda>_.
       rbind (babble_if (0 > sint messageLength \<or> MAX_MSG_LEN < sint messageLength)) (\<lambda>_.
       babble_if (messageLength \<noteq> word_of_nat (length message)))))))) (\<lambda>_.
     jbind (doEncryption encrypt message) (\<lambda>encrypted.
     jlift (
       rbind (babble_if (sint totalMessages < sint messageNumber)) (\<lambda>_.
       rbind (babble_if (0 \<ge> sint totalMessages \<or> 0 \<ge> sint messageNumber)) (\<lambda>_.
       rbind (babble_if (sint timestamp > sint now)) (\<lambda>_.
       Inr \<lparr>jm_senderUsernameLength = senderUsernameLength, jm_senderUsername = senderUsername,
         jm_receiverUsernameLength = receiverUsernameLength, jm_receiverUsername = receiverUsername,
         jm_messageLengthEncrypted = word_of_nat (length encrypted), jm_message = message,
         jm_messageLenDecrypted = messageLength, jm_messageNumber = messageNumber,
         jm_totalMessages = totalMessages, jm_timestamp = timestamp, jm_encrypted = encrypted\<rparr>))))))"

text \<open>\<open>encode\<close> writes the time of the call, not the message's time stamp.\<close>

definition jm_encode :: "clong \<Rightarrow> MsgMessage \<Rightarrow> bytes option list" where
  "jm_encode now m =
     [Some (to_bytes 4 (jm_senderUsernameLength m)), Some (getBytes (jm_senderUsername m)),
      Some (to_bytes 4 (jm_receiverUsernameLength m)), Some (getBytes (jm_receiverUsername m)),
      Some (to_bytes 4 (word_of_nat (length (jm_encrypted m)) :: cint)), Some (jm_encrypted m),
      Some (to_bytes 8 (jm_messageLenDecrypted m)), Some (to_bytes 4 (jm_messageNumber m)),
      Some (to_bytes 4 (jm_totalMessages m)), Some (to_bytes 8 now)]"

text \<open>
  The constructor from a stream works on the stream, the cipher and the number of calls of
  \<open>currentTimeMillis\<close> so far, of which \<open>now\<close> gives the results. \<open>read(chunk)\<close> may fill only the
  front of the chunk, whose other bytes are then those of the block before.
\<close>

type_synonym 'c input = "sock \<times> 'c \<times> nat"

definition on_sock :: "(sock \<Rightarrow> 'a jres \<times> sock) \<Rightarrow> 'c input \<Rightarrow> 'a jres \<times> 'c input" where
  "on_sock m = (\<lambda>(s, c, k). case m s of (r, s) \<Rightarrow> (r, (s, c, k)))"

definition on_cipher :: "('c \<Rightarrow> 'a jres \<times> 'c) \<Rightarrow> 'c input \<Rightarrow> 'a jres \<times> 'c input" where
  "on_cipher m = (\<lambda>(s, c, k). case m c of (r, c) \<Rightarrow> (r, (s, c, k)))"

definition currentTimeMillis :: "(nat \<Rightarrow> clong) \<Rightarrow> 'c input \<Rightarrow> clong jres \<times> 'c input" where
  "currentTimeMillis now = (\<lambda>(s, c, k). (Inr (now k), (s, c, Suc k)))"

definition read_chunk :: "bytes \<Rightarrow> sock \<Rightarrow> bytes jres \<times> sock" where
  "read_chunk chunk =
     jbind (read_some (length chunk)) (\<lambda>got.
     jret (case got of None \<Rightarrow> chunk | Some d \<Rightarrow> d @ drop (length d) chunk))"

definition write_update :: "'c cipher \<Rightarrow> bytes \<Rightarrow> 'c \<Rightarrow> bytes jres \<times> 'c" where
  "write_update cipher chunk c =
     (case c_update cipher c chunk of
        (None, c) \<Rightarrow> (Inl (JThrow NullPointerException), c)
      | (Some bs, c) \<Rightarrow> (Inr bs, c))"

text \<open>\<open>left\<close> is what \<open>messageLengthEncrypted - read\<close> is in the code.\<close>

function decrypt_chunks :: "'c cipher \<Rightarrow> nat \<Rightarrow> bytes \<Rightarrow> 'c input \<Rightarrow> bytes jres \<times> 'c input" where
  "decrypt_chunks cipher left chunk =
     (if BLOCK_SIZE < left
      then jbind (on_sock (read_chunk chunk)) (\<lambda>chunk.
           jbind (on_cipher (write_update cipher chunk)) (\<lambda>bs.
           jbind (decrypt_chunks cipher (left - BLOCK_SIZE) chunk) (\<lambda>bs'.
           jret (bs @ bs'))))
      else if 0 < left
      then jbind (on_sock (read_chunk chunk)) (\<lambda>chunk.
           on_cipher (padding_to_babble (doFinal cipher chunk)))
      else jret [])"
  by pat_completeness auto
termination by (relation "measure (\<lambda>(cipher, left, chunk). left)") (auto simp: BLOCK_SIZE_def)

declare decrypt_chunks.simps [simp del]

definition MsgMessage_read :: "'c cipher \<Rightarrow> (nat \<Rightarrow> clong) \<Rightarrow> 'c input \<Rightarrow> MsgMessage jres \<times> 'c input" where
  "MsgMessage_read decrypt now =
     jbind (on_sock (readInt MAX_UNAME_LEN)) (\<lambda>senderUsernameLength.
     jbind (on_sock (readStr senderUsernameLength)) (\<lambda>senderUsername.
     jbind (jlift (check_name senderUsernameLength senderUsername)) (\<lambda>_.
     jbind (on_sock (readInt MAX_UNAME_LEN)) (\<lambda>receiverUsernameLength.
     jbind (on_sock (readStr receiverUsernameLength)) (\<lambda>receiverUsername.
     jbind (jlift (check_name receiverUsernameLength receiverUsername)) (\<lambda>_.
     jbind (on_sock (readInt (2 ^ 31 - 1))) (\<lambda>messageLengthEncrypted.
     jbind (decrypt_chunks decrypt (nat (sint messageLengthEncrypted)) (replicate BLOCK_SIZE 0)) (\<lambda>bs.
     let message = string_of bs in
     jbind (on_sock readLong) (\<lambda>messageLenDecrypted.
     jbind (jlift (babble_if (int (length message) \<noteq> sint messageLenDecrypted
                 \<or> MAX_MSG_LEN * MAX_MSGS < sint messageLenDecrypted))) (\<lambda>_.
     jbind (on_sock (readInt (2 ^ 31 - 1))) (\<lambda>messageNumber.
     jbind (on_sock (readInt (2 ^ 31 - 1))) (\<lambda>totalMessages.
     jbind (jlift (rbind (babble_if (sint totalMessages < sint messageNumber)) (\<lambda>_.
             babble_if (0 \<ge> sint totalMessages \<or> 0 \<ge> sint messageNumber)))) (\<lambda>_.
     jbind (on_sock readLong) (\<lambda>timestamp.
     jbind (currentTimeMillis now) (\<lambda>now.
     jbind (jlift (rbind (babble_if (sint timestamp > sint now)) (\<lambda>_. babble_if (0 > sint timestamp)))) (\<lambda>_.
     jret \<lparr>jm_senderUsernameLength = senderUsernameLength, jm_senderUsername = senderUsername,
       jm_receiverUsernameLength = receiverUsernameLength, jm_receiverUsername = receiverUsername,
       jm_messageLengthEncrypted = messageLengthEncrypted, jm_message = message,
       jm_messageLenDecrypted = messageLenDecrypted, jm_messageNumber = messageNumber,
       jm_totalMessages = totalMessages, jm_timestamp = timestamp, jm_encrypted = []\<rparr>))))))))))))))))"

section \<open>PollResponseMessage\<close>

definition MAX_LISTS :: int where "MAX_LISTS = 100"

record PollResponseMessage =
  jq_messageLen :: clong
  jq_usernameLength :: cint
  jq_username :: jstring
  jq_messageListSize :: cint
  jq_listNumber :: cint
  jq_totalLists :: cint
  jq_newMessages :: "MsgMessage list"

text \<open>\<open>getLen\<close> adds up in a \<open>long\<close>.\<close>

definition getLen :: "MsgMessage list \<Rightarrow> clong" where
  "getLen newMessages =
     foldl (\<lambda>ret m. ret + scast (jm_senderUsernameLength m) + scast (jm_receiverUsernameLength m)
       + word_of_nat (length (jm_encrypted m)) + 8 * 2 + 4 * 5) 0 newMessages"

definition PollResponseMessage_new ::
  "cint \<Rightarrow> jstring \<Rightarrow> cint \<Rightarrow> cint \<Rightarrow> cint \<Rightarrow> MsgMessage list \<Rightarrow> PollResponseMessage jres" where
  "PollResponseMessage_new usernameLength username messageListSize listNumber totalLists newMessages =
     rbind (BabbleOnMessage_new (ordinal PollResponseType) (scast (4 * 4 + usernameLength) + getLen newMessages)) (\<lambda>messageLen.
     rbind (check_name usernameLength username) (\<lambda>_.
     rbind (babble_if (0 > sint messageListSize)) (\<lambda>_.
     rbind (babble_if (sint listNumber > sint totalLists)) (\<lambda>_.
     rbind (babble_if (0 \<ge> sint listNumber \<or> 0 \<ge> sint totalLists)) (\<lambda>_.
     rbind (babble_if (newMessages = [])) (\<lambda>_.
     Inr \<lparr>jq_messageLen = messageLen, jq_usernameLength = usernameLength, jq_username = username,
       jq_messageListSize = messageListSize, jq_listNumber = listNumber, jq_totalLists = totalLists,
       jq_newMessages = newMessages\<rparr>))))))"

text \<open>\<open>now i\<close> is what the \<open>i\<close>-th call of \<open>currentTimeMillis\<close> from here on returns.\<close>

primrec encode_messages :: "(nat \<Rightarrow> clong) \<Rightarrow> nat \<Rightarrow> MsgMessage list \<Rightarrow> bytes option list" where
  "encode_messages now i [] = []"
| "encode_messages now i (m # ms) = jm_encode (now i) m @ encode_messages now (Suc i) ms"

definition jq_encode :: "(nat \<Rightarrow> clong) \<Rightarrow> nat \<Rightarrow> PollResponseMessage \<Rightarrow> bytes option list" where
  "jq_encode now i m =
     header_writes PollResponseType (jq_messageLen m) @
     [Some (to_bytes 4 (jq_usernameLength m)), Some (getBytes (jq_username m)),
      Some (to_bytes 4 (jq_listNumber m)), Some (to_bytes 4 (jq_totalLists m)),
      Some (to_bytes 4 (jq_messageListSize m))] @
     encode_messages now i (jq_newMessages m)"

primrec read_messages :: "'c cipher \<Rightarrow> (nat \<Rightarrow> clong) \<Rightarrow> nat \<Rightarrow> 'c input \<Rightarrow> MsgMessage list jres \<times> 'c input" where
  "read_messages decrypt now 0 = jret []"
| "read_messages decrypt now (Suc n) =
     jbind (rethrow_io (MsgMessage_read decrypt now)) (\<lambda>m.
     jbind (read_messages decrypt now n) (\<lambda>ms. jret (m # ms)))"

definition PollResponseMessage_read ::
  "'c cipher \<Rightarrow> (nat \<Rightarrow> clong) \<Rightarrow> 'c input \<Rightarrow> PollResponseMessage jres \<times> 'c input" where
  "PollResponseMessage_read decrypt now =
     jbind (on_sock (readInt MAX_UNAME_LEN)) (\<lambda>usernameLength.
     jbind (on_sock (readStr usernameLength)) (\<lambda>username.
     jbind (jlift (check_name usernameLength username)) (\<lambda>_.
     jbind (on_sock (readInt MAX_LISTS)) (\<lambda>listNumber.
     jbind (on_sock (readInt MAX_LISTS)) (\<lambda>totalLists.
     jbind (jlift (rbind (babble_if (0 \<ge> sint listNumber \<or> 0 \<ge> sint totalLists)) (\<lambda>_.
             babble_if (sint totalLists < sint listNumber)))) (\<lambda>_.
     jbind (on_sock (readInt (2 ^ 31 - 1))) (\<lambda>messageListSize.
     jbind (read_messages decrypt now (nat (sint messageListSize))) (\<lambda>newMessages.
     jret \<lparr>jq_messageLen = 0, jq_usernameLength = usernameLength, jq_username = username,
       jq_messageListSize = messageListSize, jq_listNumber = listNumber, jq_totalLists = totalLists,
       jq_newMessages = newMessages\<rparr>))))))))"

end
