(* ===== verification/JavaClient.thy ===== *)
theory JavaClient
  imports JavaChat
begin

text \<open>
  The Java client itself (\<open>BabbleOnClient2_newest/src/main/java/securityjavaclient\<close>): the login
  pane, the reader thread with the handlers of \<open>BabbleOnClient\<close>, the poll thread, and the send
  button. Windows and dialogs are left out, except the text of the box that shows the messages
  received.
\<close>

section \<open>State\<close>

text \<open>
  The library. \<open>jv_base64\<close>: the encoding of a public key; \<open>jv_parse\<close>: the key of an encoding;
  \<open>jv_wrap\<close>: RSA encryption of a secret key (\<open>None\<close>: it throws); \<open>jv_digest\<close>: SHA-256;
  \<open>jv_init\<close>: a cipher fresh from its initialisation for encryption or decryption with a key and
  a vector; \<open>jv_now i\<close>: what the \<open>i\<close>-th call of \<open>currentTimeMillis\<close> returns; \<open>jv_nonce i\<close>: the
  \<open>i\<close>-th nonce; \<open>jv_date\<close>, \<open>jv_newline\<close>: how a date and a line break are shown.
\<close>

record ('k, 'c) jlib =
  jv_base64 :: "'k \<Rightarrow> bytes"
  jv_parse :: "jstring \<Rightarrow> 'k option"
  jv_wrap :: "'k \<Rightarrow> bytes \<Rightarrow> bytes option"
  jv_digest :: "bytes \<Rightarrow> bytes"
  jv_cipher :: "'c cipher"
  jv_init :: "bool \<Rightarrow> bytes \<Rightarrow> bytes \<Rightarrow> 'c"
  jv_now :: "nat \<Rightarrow> clong"
  jv_nonce :: "nat \<Rightarrow> clong"
  jv_date :: "clong \<Rightarrow> jstring"
  jv_newline :: jstring

text \<open>
  The members of \<open>BabbleOnClient\<close> that outlive a call. \<open>bc_pollers\<close>: the \<open>lastPollTime\<close> of each
  poll thread started; \<open>bc_incoming\<close>: the text of the box; \<open>bc_outMsgs\<close>: the list the send button
  fills; \<open>bc_clock\<close>, \<open>bc_nonces\<close>: calls so far. The two keys do not change.
\<close>

record ('k, 'c) client =
  bc_localPublicKey :: 'k
  bc_symmetricKey :: bytes
  bc_authenticated :: bool
  bc_username :: "jstring option"
  bc_input :: "bytes option"
  bc_serverPubKey :: "'k option"
  bc_hasExchangedKeys :: bool
  bc_cipherOut :: "'c option"
  bc_cipherIn :: "'c option"
  bc_pollers :: "clong list"
  bc_recipients :: "jstring list"
  bc_outMsgs :: "MsgMessage list"
  bc_incoming :: jstring
  bc_sock :: sock
  bc_clock :: nat
  bc_nonces :: nat

type_synonym ('k, 'c, 'a) jact = "('k, 'c) client \<Rightarrow> 'a jres \<times> ('k, 'c) client"

definition on_socket :: "(sock \<Rightarrow> 'a jres \<times> sock) \<Rightarrow> ('k, 'c, 'a) jact" where
  "on_socket m cl = (case m (bc_sock cl) of (r, s) \<Rightarrow> (r, cl\<lparr>bc_sock := s\<rparr>))"

text \<open>Writing a message: \<open>encode\<close> turns an \<open>IOException\<close> into a \<open>BabbleException\<close>.\<close>

definition send_writes :: "bytes option list \<Rightarrow> ('k, 'c, unit) jact" where
  "send_writes ws = on_socket (rethrow_io (write_each ws))"

definition tick :: "('k, 'c) jlib \<Rightarrow> ('k, 'c, clong) jact" where
  "tick lib cl = (Inr (jv_now lib (bc_clock cl)), cl\<lparr>bc_clock := Suc (bc_clock cl)\<rparr>)"

text \<open>\<open>catch (BabbleException ex)\<close> with nothing but a log entry.\<close>

definition catch_babble :: "('k, 'c, unit) jact \<Rightarrow> ('k, 'c, unit) jact" where
  "catch_babble m cl = (case m cl of (Inl (JThrow BabbleException), cl) \<Rightarrow> (Inr (), cl) | r \<Rightarrow> r)"

text \<open>The user name, of which a method is called.\<close>

definition my_name :: "('k, 'c, jstring) jact" where
  "my_name cl = (case bc_username cl of None \<Rightarrow> (Inl (JThrow NullPointerException), cl) | Some u \<Rightarrow> (Inr u, cl))"

definition len :: "'a list \<Rightarrow> cint" where "len xs = word_of_nat (length xs)"

definition SYM_IV :: bytes where "SYM_IV = getBytes (jstr ''QtIkUCmeW0XTCybi'')"

section \<open>The login pane\<close>

definition name_char :: "jchar \<Rightarrow> bool" where
  "name_char c \<longleftrightarrow> (97 \<le> c \<and> c \<le> 122) \<or> (65 \<le> c \<and> c \<le> 90) \<or> (48 \<le> c \<and> c \<le> 57)
     \<or> c = of_char CHR ''.'' \<or> c = of_char CHR ''@'' \<or> c = of_char CHR ''_'' \<or> c = of_char CHR ''-''"

text \<open>\<open>s.matches("^[a-zA-Z0-9.@_-]*$")\<close>\<close>

definition matches_REGEX :: "jstring \<Rightarrow> bool" where
  "matches_REGEX s \<longleftrightarrow> list_all name_char s"

definition setInput :: "jstring \<Rightarrow> ('k, 'c) client \<Rightarrow> ('k, 'c) client" where
  "setInput pw cl = cl\<lparr>bc_input := Some (map ucast pw)\<rparr>"

definition checkPassword :: "jstring \<Rightarrow> jstring \<Rightarrow> ('k, 'c) client \<Rightarrow> ('k, 'c) client" where
  "checkPassword username password cl =
     (if 0 < length password \<and> username \<noteq> [] then (setInput password cl)\<lparr>bc_username := Some username\<rparr> else cl)"

definition isValidUsername :: "('k, 'c) jlib \<Rightarrow> jstring \<Rightarrow> ('k, 'c, unit) jact" where
  "isValidUsername lib username =
     (if username \<noteq> [] \<and> matches_REGEX username
      then catch_babble (jbind (jlift (LoginMessage_new (jv_base64 lib) (len username) username NONE None)) (\<lambda>m.
             send_writes (jl_encode m)))
      else jret ())"

text \<open>The button \<open>OK\<close>.\<close>

definition submit_login :: "('k, 'c) jlib \<Rightarrow> jstring \<Rightarrow> jstring \<Rightarrow> ('k, 'c, unit) jact" where
  "submit_login lib username password cl = isValidUsername lib username (checkPassword username password cl)"

section \<open>The challenge\<close>

text \<open>\<open>String.format("%064x", new BigInteger(1, digest))\<close>\<close>

definition hex_char :: "nat \<Rightarrow> jchar" where
  "hex_char d = (if d < 10 then word_of_nat (48 + d) else word_of_nat (87 + d))"

fun hex_nat :: "nat \<Rightarrow> jstring" where
  "hex_nat n = (if n < 16 then [hex_char n] else hex_nat (n div 16) @ [hex_char (n mod 16)])"

declare hex_nat.simps [simp del]

definition format_064x :: "nat \<Rightarrow> jstring" where
  "format_064x n = replicate (64 - length (hex_nat n)) 48 @ hex_nat n"

definition BigInteger1 :: "bytes \<Rightarrow> nat" where
  "BigInteger1 bs = foldl (\<lambda>n b. 256 * n + unat b) 0 bs"

text \<open>The array of the password is overwritten with the character 0 once the response is sent.\<close>

definition handleChallenge :: "('k, 'c) jlib \<Rightarrow> ('k, 'c, unit) jact" where
  "handleChallenge lib =
     jbind (on_socket ChallengeMessage_read) (\<lambda>challenge cl.
       case bc_input cl of
         None \<Rightarrow> (Inr (), cl)
       | Some input \<Rightarrow>
           if input = [] then (Inr (), cl)
           else let nonce = jv_nonce lib (bc_nonces cl);
                    hashed = format_064x (BigInteger1 (jv_digest lib (challenge @ to_bytes 8 nonce @ input)))
                in jbind my_name (\<lambda>username.
                   jbind (jlift (ResponseMessage_new (len username) username (len hashed) hashed nonce)) (\<lambda>resp.
                   jbind (send_writes (jr_encode resp)) (\<lambda>_ cl.
                   (Inr (), cl\<lparr>bc_input := Some (map (\<lambda>_. 48) input)\<rparr>))))
                   (cl\<lparr>bc_nonces := Suc (bc_nonces cl)\<rparr>))"

section \<open>Keys\<close>

definition fresh_cipher :: "('k, 'c) jlib \<Rightarrow> bool \<Rightarrow> ('k, 'c) client \<Rightarrow> 'c" where
  "fresh_cipher lib encrypting cl = jv_init lib encrypting (bc_symmetricKey cl) SYM_IV"

definition setPanes :: "('k, 'c) jlib \<Rightarrow> ('k, 'c) client \<Rightarrow> ('k, 'c) client" where
  "setPanes lib cl = cl\<lparr>
     bc_cipherOut := (case bc_cipherOut cl of None \<Rightarrow> Some (fresh_cipher lib True cl) | c \<Rightarrow> c),
     bc_cipherIn := Some (fresh_cipher lib False cl)\<rparr>"

definition start_poller :: "('k, 'c) jlib \<Rightarrow> ('k, 'c, unit) jact" where
  "start_poller lib = jbind (tick lib) (\<lambda>t cl. (Inr (), cl\<lparr>bc_pollers := bc_pollers cl @ [t]\<rparr>))"

definition handleACK :: "('k, 'c) jlib \<Rightarrow> ('k, 'c, unit) jact" where
  "handleACK lib =
     jbind (on_socket ACKMessage_read) (\<lambda>ack cl.
       if \<not> bc_authenticated cl \<and> PASSWORD_AUTH_J = ja_error ack \<and> SERVER_J = ack_getSender_J ack
       then catch_babble
              (jbind my_name (\<lambda>username.
               jbind (jlift (LoginMessage_new (jv_base64 lib) (len username) username ASYMMETRIC
                       (Some (bc_localPublicKey cl)))) (\<lambda>m.
               send_writes (jl_encode m))))
              (setPanes lib (cl\<lparr>bc_authenticated := True\<rparr>))
       else if SUCCESS_J \<noteq> ja_error ack \<and> SERVER_J = ack_getSender_J ack then (Inr (), cl)
       else if CLIENT_J = ack_getSender_J ack then (Inr (), cl)
       else if SUCCESS_J = ja_error ack \<and> bc_hasExchangedKeys cl then start_poller lib cl
       else (Inr (), cl))"

definition readServerPublic :: "('k, 'c) jlib \<Rightarrow> LoginMessage \<Rightarrow> ('k, 'c, unit) jact" where
  "readServerPublic lib loginResponse =
     jbind (jlift (babble_if (jl_username loginResponse \<noteq> []))) (\<lambda>_.
     jbind (jlift (case jl_publicKeyStr loginResponse of
              None \<Rightarrow> Inl (JThrow NullPointerException)
            | Some str \<Rightarrow> decodeKey_J (jv_parse lib) str)) (\<lambda>key cl.
     (Inr (), cl\<lparr>bc_serverPubKey := Some key\<rparr>)))"

text \<open>An exception of the library or of a constructor is logged.\<close>

definition sendSymmetricKey :: "('k, 'c) jlib \<Rightarrow> ('k, 'c, unit) jact" where
  "sendSymmetricKey lib cl =
     (case bc_serverPubKey cl of
        None \<Rightarrow> (Inr (), cl)
      | Some key \<Rightarrow>
          (case jv_wrap lib key (bc_symmetricKey cl) of
             None \<Rightarrow> (Inr (), cl)
           | Some encrypted \<Rightarrow>
               catch_babble
                 (jbind my_name (\<lambda>username.
                  jbind (jlift (LoginMessage_new (jv_base64 lib) (len username) username SYMMETRIC None)) (\<lambda>l.
                  jbind (send_writes (jl_encode (setEncodedKey encrypted l))) (\<lambda>_ cl.
                  (Inr (), cl\<lparr>bc_hasExchangedKeys := True\<rparr>))))) cl))"

definition handleLogin :: "('k, 'c) jlib \<Rightarrow> ('k, 'c, unit) jact" where
  "handleLogin lib =
     jbind (on_socket (LoginMessage_read (jv_parse lib))) (\<lambda>login.
     if jl_keyType login = key_ordinal ASYMMETRIC
     then jbind (readServerPublic lib login) (\<lambda>_. sendSymmetricKey lib)
     else jret ())"

section \<open>Polling\<close>

text \<open>
  What is shown of the answer to a poll: the sender, and of each message addressed to this user
  by that sender the text, with the date behind the one whose number is the size of the list.
\<close>

definition shown_message :: "('k, 'c) jlib \<Rightarrow> jstring option \<Rightarrow> PollResponseMessage \<Rightarrow> MsgMessage \<Rightarrow> jstring" where
  "shown_message lib username resp msg =
     (if Some (jm_receiverUsername msg) = username \<and> jm_senderUsername msg = jq_username resp
      then jm_message msg @
        (if jm_messageNumber msg = jq_messageListSize resp
         then jv_newline lib @ jv_date lib (jm_timestamp msg) @ jv_newline lib else [])
      else [])"

definition handlePollResponse :: "('k, 'c) jlib \<Rightarrow> ('k, 'c, unit) jact" where
  "handlePollResponse lib cl =
     (let c = (case bc_cipherIn cl of None \<Rightarrow> fresh_cipher lib False cl | Some c \<Rightarrow> c) in
      case PollResponseMessage_read (jv_cipher lib) (jv_now lib) (bc_sock cl, c, bc_clock cl) of (r, (s, c, k)) \<Rightarrow>
      let cl = cl\<lparr>bc_sock := s, bc_cipherIn := Some c, bc_clock := k\<rparr> in
      case r of
        Inl x \<Rightarrow> (Inl x, cl)
      | Inr resp \<Rightarrow>
          (Inr (), cl\<lparr>bc_incoming := bc_incoming cl @ jstr ''From: '' @ jq_username resp @ jv_newline lib @
             concat (map (shown_message lib (bc_username cl) resp) (jq_newMessages resp))\<rparr>))"

definition pollServer :: "('k, 'c) jlib \<Rightarrow> clong \<Rightarrow> ('k, 'c, unit) jact" where
  "pollServer lib timestamp cl =
     (case bc_username cl of
        None \<Rightarrow> (Inr (), cl)
      | Some username \<Rightarrow>
          jbind (tick lib) (\<lambda>now.
          jbind (jlift (PollMessage_new now (len username) username timestamp)) (\<lambda>poll.
          send_writes (jp_encode poll))) cl)"

definition WAIT_TIME :: clong where "WAIT_TIME = 5000"

text \<open>One turn of the loop of the \<open>i\<close>-th poll thread; when it sleeps is not modelled.\<close>

definition poll_turn :: "('k, 'c) jlib \<Rightarrow> nat \<Rightarrow> ('k, 'c, unit) jact" where
  "poll_turn lib i cl =
     (let lastPollTime = bc_pollers cl ! i in
      jbind (tick lib) (\<lambda>now.
      if sint now > sint (lastPollTime + WAIT_TIME)
      then catch_babble (jbind (pollServer lib lastPollTime) (\<lambda>_.
           jbind (tick lib) (\<lambda>t cl. (Inr (), cl\<lparr>bc_pollers := (bc_pollers cl)[i := t]\<rparr>))))
      else jret ()) cl)"

section \<open>The reader thread\<close>

text \<open>
  One iteration of its loop with \<open>working\<close> unset. \<open>working\<close> is set before the header is read and
  only reset by a handler that returns, so that it is still set, \<open>Stuck\<close>, behind an exception.
  A type without a name makes the \<open>switch\<close> throw, and what is not a \<open>BabbleException\<close> ends
  the thread.
\<close>

datatype reader = Ready | Stuck | Dead | Waiting

definition handle_type :: "('k, 'c) jlib \<Rightarrow> byte \<Rightarrow> ('k, 'c, unit) jact" where
  "handle_type lib ty =
     (case getMessageType ty of
        None \<Rightarrow> jlift (Inl (JThrow NullPointerException))
      | Some ACKType \<Rightarrow> handleACK lib
      | Some ChallengeType \<Rightarrow> handleChallenge lib
      | Some LoginType \<Rightarrow> handleLogin lib
      | Some PollResponseType \<Rightarrow> handlePollResponse lib
      | Some _ \<Rightarrow> jret ())"

definition reader_turn :: "('k, 'c) jlib \<Rightarrow> ('k, 'c) client \<Rightarrow> reader \<times> ('k, 'c) client" where
  "reader_turn lib cl =
     (case jbind (on_socket BabbleOnMessage_read) (\<lambda>(ty, messageLen). handle_type lib ty) cl of
        (Inr _, cl) \<Rightarrow> (Ready, cl)
      | (Inl JBlocks, cl) \<Rightarrow> (Waiting, cl)
      | (Inl (JThrow BabbleException), cl) \<Rightarrow> (Stuck, cl)
      | (Inl (JThrow _), cl) \<Rightarrow> (Dead, cl))"

text \<open>
  \<open>n\<close> iterations of the loop, from a value of \<open>working\<close> on; \<open>Ready\<close> and \<open>Stuck\<close> are its values
  at the end.
\<close>

fun reader_run :: "('k, 'c) jlib \<Rightarrow> nat \<Rightarrow> bool \<Rightarrow> ('k, 'c) client \<Rightarrow> reader \<times> ('k, 'c) client" where
  "reader_run lib 0 working cl = (if working then Stuck else Ready, cl)"
| "reader_run lib (Suc n) working cl =
     (if working then reader_run lib n working cl
      else case reader_turn lib cl of
        (Ready, cl) \<Rightarrow> reader_run lib n False cl
      | (Stuck, cl) \<Rightarrow> reader_run lib n True cl
      | r \<Rightarrow> r)"

lemma reader_stuck: "reader_run lib n True cl = (Stuck, cl)"
  by (induction n) simp_all

section \<open>Sending\<close>

text \<open>The button for the recipients: \<open>split(",")\<close>, \<open>trim()\<close>, and the names that are left.\<close>

fun split_comma :: "jstring \<Rightarrow> jstring list" where
  "split_comma [] = [[]]"
| "split_comma (c # cs) =
     (if c = 44 then [] # split_comma cs
      else case split_comma cs of [] \<Rightarrow> [[c]] | p # ps \<Rightarrow> (c # p) # ps)"

definition trim :: "jstring \<Rightarrow> jstring" where
  "trim s = rev (dropWhile (\<lambda>c. c \<le> 32) (rev (dropWhile (\<lambda>c. c \<le> 32) s)))"

definition enter_recipients :: "jstring \<Rightarrow> ('k, 'c) client \<Rightarrow> ('k, 'c) client" where
  "enter_recipients usernameText cl =
     cl\<lparr>bc_recipients := filter (\<lambda>r. r \<noteq> [] \<and> matches_REGEX r) (map trim (split_comma usernameText))\<rparr>"

text \<open>The number of pieces of a message, and the \<open>i\<close>-th one, counted from 1.\<close>

definition piece_count :: "jstring \<Rightarrow> nat" where
  "piece_count message = (length message + 14) div 15"

definition messageBit :: "jstring \<Rightarrow> nat \<Rightarrow> jstring" where
  "messageBit message i =
     (let messageLen = (if length message - (i - 1) * 15 < 15 then length message mod 15 else 15);
          end = (if messageLen < 15 then length message else 15 * i)
      in take (end - (i - 1) * 15) (drop ((i - 1) * 15) message))"

definition group_header :: "jstring list \<Rightarrow> jstring" where
  "group_header recipients =
     (if length recipients > 1
      then jstr ''**Group Message**'' @ [10] @ jstr ''To: '' @ concat (map (\<lambda>r. r @ [10]) recipients) else [])"

text \<open>One piece is added to the list: the time is read once for it and once by its constructor.\<close>

definition add_piece :: "('k, 'c) jlib \<Rightarrow> jstring \<Rightarrow> jstring \<Rightarrow> jstring \<Rightarrow> nat \<Rightarrow> ('k, 'c, unit) jact" where
  "add_piece lib username recipient message i =
     jbind (tick lib) (\<lambda>timestamp. jbind (tick lib) (\<lambda>now cl.
       let messageLen = (if length message - (i - 1) * 15 < 15 then length message mod 15 else 15) in
       case MsgMessage_new (jv_cipher lib) now (len username) username (len recipient) recipient
              (messageBit message i) (word_of_nat messageLen) (word_of_nat i) (word_of_nat (piece_count message))
              timestamp (the (bc_cipherOut cl)) of (r, c) \<Rightarrow>
       let cl = cl\<lparr>bc_cipherOut := Some c\<rparr> in
       case r of Inl x \<Rightarrow> (Inl x, cl) | Inr m \<Rightarrow> (Inr (), cl\<lparr>bc_outMsgs := bc_outMsgs cl @ [m]\<rparr>)))"

primrec add_pieces :: "('k, 'c) jlib \<Rightarrow> jstring \<Rightarrow> jstring \<Rightarrow> jstring \<Rightarrow> nat list \<Rightarrow> ('k, 'c, unit) jact" where
  "add_pieces lib username recipient message [] = jret ()"
| "add_pieces lib username recipient message (i # is) =
     jbind (add_piece lib username recipient message i) (\<lambda>_. add_pieces lib username recipient message is)"

text \<open>The list that an exception has left over goes out with the next message.\<close>

definition send_list :: "('k, 'c) jlib \<Rightarrow> jstring \<Rightarrow> ('k, 'c, unit) jact" where
  "send_list lib username cl =
     (if bc_outMsgs cl = [] then (Inr (), cl)
      else jbind (jlift (PollResponseMessage_new (len username) username (len (bc_outMsgs cl)) 1 1 (bc_outMsgs cl))) (\<lambda>m cl.
           jbind (send_writes (jq_encode (jv_now lib) (bc_clock cl) m)) (\<lambda>_. jret ())
             (cl\<lparr>bc_clock := bc_clock cl + length (jq_newMessages m)\<rparr>)) cl)"

primrec send_to :: "('k, 'c) jlib \<Rightarrow> jstring \<Rightarrow> jstring \<Rightarrow> jstring list \<Rightarrow> ('k, 'c, unit) jact" where
  "send_to lib username message [] = jret ()"
| "send_to lib username message (r # rs) =
     jbind (add_pieces lib username r message [1..<Suc (piece_count message)]) (\<lambda>_.
     jbind (send_list lib username) (\<lambda>_ cl.
     send_to lib username message rs (cl\<lparr>bc_outMsgs := []\<rparr>)))"

text \<open>The button \<open>Send\<close>. Without a user name the first piece throws.\<close>

definition send_text :: "('k, 'c) jlib \<Rightarrow> jstring \<Rightarrow> ('k, 'c, unit) jact" where
  "send_text lib outgoing cl =
     (if 0 < length outgoing \<and> int (length outgoing) < MAX_MSG_LEN * MAX_MSGS
      then let cl = cl\<lparr>bc_cipherOut :=
             (case bc_cipherOut cl of None \<Rightarrow> Some (fresh_cipher lib True cl) | c \<Rightarrow> c)\<rparr> in
           if bc_recipients cl = [] then (Inr (), cl)
           else catch_babble (jbind my_name (\<lambda>username.
             send_to lib username (group_header (bc_recipients cl) @ outgoing) (bc_recipients cl))) cl
      else (Inr (), cl))"

end
