(* ===== verification/MessageClass.thy ===== *)
theory MessageClass
  imports Wire
begin

text \<open>
  The interface between the base class \<open>SPChatMessage\<close> and its subclasses: the virtual
  methods \<open>encodeMiddle\<close> and \<open>getPayloadLength\<close>, and the constructor from a buffer that
  the factory \<open>SPChatMessage::decode\<close> calls.

  \<open>valid\<close> is the class invariant of the objects a constructor returns; \<open>sendable\<close> are the
  objects whose encoding is the one their header announces. Each subclass provides an
  interpretation in its own theory; \<open>Message\<close> proves the framing once, for all of them.
\<close>

locale payload_class =
  fixes encodeMiddle :: "endian \<Rightarrow> bytes \<Rightarrow> 'm \<Rightarrow> bytes"
    and getPayloadLength :: "'m \<Rightarrow> clong"
    and fromBuffer :: "'c \<Rightarrow> bytes \<Rightarrow> int \<Rightarrow> 'm res"
    and valid :: "'m \<Rightarrow> bool"
    and sendable :: "'m \<Rightarrow> bool"
    and good :: "'c \<Rightarrow> bool"
  assumes middle_append: "encodeMiddle e buf m = buf @ encodeMiddle e [] m"
    and payload_length: "sendable m \<Longrightarrow>
      getPayloadLength m = word_of_nat (length (encodeMiddle e [] m))"
    and from_stops: "buf \<noteq> [] \<Longrightarrow> only_spchat (fromBuffer c buf (int (length buf)))"
    and from_valid: "fromBuffer c buf (int (length buf)) = Inr m \<Longrightarrow> valid m"
    and from_middle: "good c \<Longrightarrow> sendable m \<Longrightarrow>
      fromBuffer c (encodeMiddle LittleEndian [] m) (int (length (encodeMiddle LittleEndian [] m))) = Inr m"
    and from_empty: "fromBuffer c [] 0 \<noteq> Inr m"
begin

text \<open>A sendable object has at least one byte of payload.\<close>

lemma middle_nonempty: "good c \<Longrightarrow> sendable m \<Longrightarrow> encodeMiddle LittleEndian [] m \<noteq> []"
  using from_middle [of c m] from_empty [of c m] by auto

lemma sendable_valid: "good c \<Longrightarrow> sendable m \<Longrightarrow> valid m"
  using from_middle from_valid by blast

lemma middle_inj:
  assumes "good c" "sendable m" "sendable m'"
    and "encodeMiddle LittleEndian [] m = encodeMiddle LittleEndian [] m'"
  shows "m = m'"
  using from_middle [OF assms(1,2)] from_middle [OF assms(1,3)] unfolding assms(4) by simp

lemma from_defined: "buf \<noteq> [] \<Longrightarrow> \<not> is_undefined (fromBuffer c buf (int (length buf)))"
  by (rule only_spchat_defined) (rule from_stops)

end

end
