(* ===== verification/Login.thy ===== *)
theory Login
  imports MessageClass
begin

text \<open>
  \<open>SPChatLogin\<close> (\<open>mockServer/protocol/SPChatLogin.cpp\<close>): a user name and, depending on
  \<open>keyType\<close>, no key, the PEM text of an RSA public key, or an encrypted symmetric key. The
  debugging output on \<open>cout\<close> is not modelled.
\<close>

section \<open>Data and constants\<close>

record SPChatLogin =
  lg_username :: bytes
  lg_keyType :: byte
  lg_key :: bytes
  lg_encSymKey :: bytes

text \<open>The getters.\<close>

definition lg_getUsername :: "SPChatLogin \<Rightarrow> bytes" where [simp]: "lg_getUsername m = lg_username m"
definition getKeyType :: "SPChatLogin \<Rightarrow> byte" where [simp]: "getKeyType m = lg_keyType m"
definition getKey :: "SPChatLogin \<Rightarrow> bytes" where [simp]: "getKey m = lg_key m"
definition getEncSymKey :: "SPChatLogin \<Rightarrow> bytes" where [simp]: "getEncSymKey m = lg_encSymKey m"

definition NO_KEY :: byte where "NO_KEY = 0"
definition ASYMMETRIC_KEY :: byte where "ASYMMETRIC_KEY = 1"
definition ENCRYPTED_SYM_KEY :: byte where "ENCRYPTED_SYM_KEY = 2"
definition ASYMMETRIC_LENGTH :: nat where "ASYMMETRIC_LENGTH = 271"
definition ENCRYPTED_SYM_LENGTH :: nat where "ENCRYPTED_SYM_LENGTH = 128"
definition ENDLINE :: byte where "ENDLINE = 10"

definition ASYMMETRIC_HEADER :: bytes where
  "ASYMMETRIC_HEADER = ascii ''-----BEGIN PUBLIC KEY-----'' @ [ENDLINE]"

definition ASYMMETRIC_FOOTER :: bytes where
  "ASYMMETRIC_FOOTER = ascii ''-----END PUBLIC KEY-----'' @ [ENDLINE]"

definition ASYMMETRIC_ENDLINE_POS :: "nat list" where
  "ASYMMETRIC_ENDLINE_POS = [91, 156, 221, 246]"

lemmas key_consts = NO_KEY_def ASYMMETRIC_KEY_def ENCRYPTED_SYM_KEY_def ASYMMETRIC_LENGTH_def
  ENCRYPTED_SYM_LENGTH_def ENDLINE_def

definition lg_uninit :: SPChatLogin where
  "lg_uninit = \<lparr>lg_username = [], lg_keyType = 0, lg_key = [], lg_encSymKey = []\<rparr>"

definition lg_setUsername :: "bytes \<Rightarrow> SPChatLogin \<Rightarrow> SPChatLogin res" where
  "lg_setUsername username m =
     (if \<not> validUsername username then spchat_throw BAD_USERNAME_EXCEPTION
      else Inr (m\<lparr>lg_username := username\<rparr>))"

section \<open>Checking a PEM key\<close>

text \<open>\<open>s[i]\<close> on a \<open>std::string\<close>: position \<open>size()\<close> holds a NUL, beyond is undefined.\<close>

definition str_at :: "bytes \<Rightarrow> int \<Rightarrow> byte res" where
  "str_at s i = rd (s @ [0]) i"

primrec match_at :: "bytes \<Rightarrow> int \<Rightarrow> bytes \<Rightarrow> unit res" where
  "match_at newKey off [] = Inr ()"
| "match_at newKey off (c # cs) =
     rbind (str_at newKey off) (\<lambda>b.
       if c \<noteq> b then spchat_throw ASYMMETRIC_KEY_EXCEPTION else match_at newKey (off + 1) cs)"

primrec check_endlines :: "bytes \<Rightarrow> nat list \<Rightarrow> unit res" where
  "check_endlines newKey [] = Inr ()"
| "check_endlines newKey (p # ps) =
     rbind (str_at newKey (int p)) (\<lambda>b.
       if ENDLINE \<noteq> b then spchat_throw ASYMMETRIC_KEY_EXCEPTION else check_endlines newKey ps)"

text \<open>The last byte of the footer, its newline, is not looked at: the key text ends before it.\<close>

definition setAsymmetricKey :: "bytes \<Rightarrow> SPChatLogin \<Rightarrow> SPChatLogin res" where
  "setAsymmetricKey newKey m =
     (let m = m\<lparr>lg_keyType := ASYMMETRIC_KEY\<rparr>;
          footerPos = int ASYMMETRIC_LENGTH - int (length ASYMMETRIC_FOOTER) + 1
      in rbind (match_at newKey 0 ASYMMETRIC_HEADER) (\<lambda>_.
         rbind (match_at newKey footerPos (take (length ASYMMETRIC_FOOTER - 1) ASYMMETRIC_FOOTER)) (\<lambda>_.
         rbind (check_endlines newKey ASYMMETRIC_ENDLINE_POS) (\<lambda>_.
         Inr (m\<lparr>lg_key := newKey\<rparr>)))))"

section \<open>Setting and decoding the key\<close>

definition bufferToString :: "bytes \<Rightarrow> int \<Rightarrow> int \<Rightarrow> int \<Rightarrow> bytes res" where
  "bufferToString buf bufLen pos cpyLen =
     (if bufLen - pos < cpyLen then Inl (Throw (StringThrown TOO_SHORT_EXCEPTION))
      else rdn buf pos (nat cpyLen))"

text \<open>\<open>setKey\<close> with a pointer and a length: \<open>newKey\<close> is the memory the pointer leads to.\<close>

definition setKey :: "byte \<Rightarrow> bytes \<Rightarrow> int \<Rightarrow> SPChatLogin \<Rightarrow> SPChatLogin res" where
  "setKey keyType newKey keyLen m =
     (let m = m\<lparr>lg_key := [], lg_encSymKey := []\<rparr> in
      if keyType = NO_KEY then Inr (m\<lparr>lg_keyType := NO_KEY\<rparr>)
      else if keyType = ASYMMETRIC_KEY \<and> keyLen = int ASYMMETRIC_LENGTH then
        rbind (rdn newKey 0 (nat keyLen)) (\<lambda>s.
        rbind (setAsymmetricKey s m) (\<lambda>m. Inr (m\<lparr>lg_keyType := keyType\<rparr>)))
      else if keyType = ENCRYPTED_SYM_KEY \<and> keyLen = int ENCRYPTED_SYM_LENGTH then
        rbind (rdn newKey 0 (nat keyLen)) (\<lambda>s.
        Inr (m\<lparr>lg_keyType := keyType, lg_encSymKey := s\<rparr>))
      else spchat_throw BAD_KEY_EXCEPTION)"

text \<open>The overload with a cursor wants the key to end exactly at the end of the buffer.\<close>

definition setKey_pos :: "byte \<Rightarrow> bytes \<Rightarrow> int \<Rightarrow> int \<Rightarrow> SPChatLogin \<Rightarrow> SPChatLogin res" where
  "setKey_pos keyType newKey keyLen pos m =
     (let m = m\<lparr>lg_key := [], lg_encSymKey := []\<rparr> in
      if keyType = ENCRYPTED_SYM_KEY \<and> keyLen - pos = int ENCRYPTED_SYM_LENGTH then
        rbind (rdn newKey pos (nat (keyLen - pos))) (\<lambda>s.
        Inr (m\<lparr>lg_keyType := keyType, lg_encSymKey := s\<rparr>))
      else spchat_throw BAD_KEY_EXCEPTION)"

definition decodeKey :: "bytes \<Rightarrow> int \<Rightarrow> int \<Rightarrow> SPChatLogin \<Rightarrow> SPChatLogin res" where
  "decodeKey buf len pos m =
     (if len - pos < int BYTE_SIZE then spchat_throw TOO_SHORT_EXCEPTION
      else rbind (rd buf pos) (\<lambda>keyType.
        let pos = pos + 1 in
        if keyType = NO_KEY then Inr (m\<lparr>lg_keyType := NO_KEY\<rparr>)
        else if keyType = ASYMMETRIC_KEY \<and> len - pos \<ge> int ASYMMETRIC_LENGTH then
          rbind (bufferToString buf len pos (int ASYMMETRIC_LENGTH)) (\<lambda>s. setAsymmetricKey s m)
        else if keyType = ENCRYPTED_SYM_KEY \<and> len - pos \<ge> int ENCRYPTED_SYM_LENGTH then
          setKey_pos keyType buf len pos m
        else spchat_throw BAD_KEY_EXCEPTION))"

section \<open>Constructors and encoder\<close>

text \<open>
  The value constructor first copies \<open>keyLen\<close> bytes into a string (for a debugging
  message), then sets the key. A negative length is an impossible string length.
\<close>

definition SPChatLogin_new :: "bytes \<Rightarrow> byte \<Rightarrow> bytes \<Rightarrow> int \<Rightarrow> SPChatLogin res" where
  "SPChatLogin_new username keyType key keyLen =
     rbind (lg_setUsername username lg_uninit) (\<lambda>m.
     if keyLen < 0 then Inl (Throw LengthError)
     else rbind (rdn key 0 (nat keyLen)) (\<lambda>testString.
     setKey keyType key keyLen m))"

definition SPChatLogin_decode :: "endian \<Rightarrow> bytes \<Rightarrow> int \<Rightarrow> SPChatLogin res" where
  "SPChatLogin_decode e buf len =
     (let pos = 0 in
      rbind (decodeString e buf len pos) (\<lambda>(username, pos).
      rbind (lg_setUsername username lg_uninit) (\<lambda>m.
      decodeKey buf len pos m)))"

definition lg_encodeMiddle :: "endian \<Rightarrow> bytes \<Rightarrow> SPChatLogin \<Rightarrow> bytes" where
  "lg_encodeMiddle e buf m =
     (let buf = encodeString e buf (lg_username m);
          buf = buf @ [lg_keyType m]
      in if lg_keyType m = ASYMMETRIC_KEY \<or> lg_keyType m = ENCRYPTED_SYM_KEY
         then buf @ lg_key m else buf)"

definition lg_getPayloadLength :: "SPChatLogin \<Rightarrow> clong" where
  "lg_getPayloadLength m =
     (let len = word_of_nat (INT_SIZE + length (lg_username m) + BYTE_SIZE) in
      if lg_keyType m = ASYMMETRIC_KEY then len + word_of_nat ASYMMETRIC_LENGTH
      else if lg_keyType m = ENCRYPTED_SYM_KEY then len + word_of_nat ENCRYPTED_SYM_LENGTH
      else len)"

section \<open>Valid objects\<close>

text \<open>The shape of an acceptable public key: header, line breaks and footer where PEM puts them.\<close>

definition pem_key :: "bytes \<Rightarrow> bool" where
  "pem_key s \<longleftrightarrow> length s = ASYMMETRIC_LENGTH \<and> take 27 s = ASYMMETRIC_HEADER
     \<and> drop 247 s = ascii ''-----END PUBLIC KEY-----''
     \<and> list_all (\<lambda>p. s ! p = ENDLINE) ASYMMETRIC_ENDLINE_POS"

definition lg_valid :: "SPChatLogin \<Rightarrow> bool" where
  "lg_valid m \<longleftrightarrow> validUsername (lg_username m) \<and> ok_string (lg_username m) \<and>
     (lg_keyType m = NO_KEY \<and> lg_key m = [] \<and> lg_encSymKey m = []
      \<or> lg_keyType m = ASYMMETRIC_KEY \<and> pem_key (lg_key m) \<and> lg_encSymKey m = []
      \<or> lg_keyType m = ENCRYPTED_SYM_KEY \<and> lg_key m = []
          \<and> length (lg_encSymKey m) = ENCRYPTED_SYM_LENGTH)"

text \<open>
  \<open>encodeMiddle\<close> writes \<open>key\<close> where a symmetric key login keeps its key in \<open>encSymKey\<close>:
  those objects are valid but not sendable.
\<close>

definition lg_sendable :: "SPChatLogin \<Rightarrow> bool" where
  "lg_sendable m \<longleftrightarrow> lg_valid m \<and> lg_keyType m \<noteq> ENCRYPTED_SYM_KEY"

lemma lg_middle:
  "lg_encodeMiddle e buf m = buf @ encodeString e [] (lg_username m) @ [lg_keyType m] @
     (if lg_keyType m = ASYMMETRIC_KEY \<or> lg_keyType m = ENCRYPTED_SYM_KEY then lg_key m else [])"
  using encodeString_append [of e buf "lg_username m"] by (simp add: lg_encodeMiddle_def)

lemma length_header [simp]: "length ASYMMETRIC_HEADER = 27"
  by (simp add: ASYMMETRIC_HEADER_def)

lemma length_footer [simp]: "length ASYMMETRIC_FOOTER = 25"
  by (simp add: ASYMMETRIC_FOOTER_def)

lemma str_at_in: "i < length s \<Longrightarrow> str_at s (int i) = Inr (s ! i)"
  by (simp add: str_at_def rd_in nth_append)

text \<open>Inside the string, the byte loop compares a slice.\<close>

lemma match_at_slice:
  "off + length cs \<le> length s \<Longrightarrow>
   match_at s (int off) cs
     = (if take (length cs) (drop off s) = cs then Inr () else spchat_throw ASYMMETRIC_KEY_EXCEPTION)"
proof (induction cs arbitrary: off)
  case (Cons c cs)
  then have "match_at s (int (Suc off)) cs
      = (if take (length cs) (drop (Suc off) s) = cs then Inr () else spchat_throw ASYMMETRIC_KEY_EXCEPTION)"
    by (intro Cons.IH) simp
  moreover have "drop off s = s ! off # drop (Suc off) s"
    using Cons.prems by (intro Cons_nth_drop_Suc [symmetric]) simp
  ultimately show ?case
    using Cons.prems by (auto simp: str_at_in add.commute)
qed simp

lemma check_endlines_all:
  "(\<And>p. p \<in> set ps \<Longrightarrow> p < length s) \<Longrightarrow>
   check_endlines s ps
     = (if list_all (\<lambda>p. s ! p = ENDLINE) ps then Inr () else spchat_throw ASYMMETRIC_KEY_EXCEPTION)"
  by (induction ps) (auto simp: str_at_in)

text \<open>On a string of the right length the three loops accept exactly the PEM shape.\<close>

lemma setAsymmetricKey_iff:
  assumes "length s = ASYMMETRIC_LENGTH"
  shows "setAsymmetricKey s m
    = (if pem_key s then Inr (m\<lparr>lg_keyType := ASYMMETRIC_KEY, lg_key := s\<rparr>)
       else spchat_throw ASYMMETRIC_KEY_EXCEPTION)"
proof -
  have l: "length s = 271" using assms by (simp add: key_consts)
  have h: "match_at s 0 ASYMMETRIC_HEADER
      = (if take 27 s = ASYMMETRIC_HEADER then Inr () else spchat_throw ASYMMETRIC_KEY_EXCEPTION)"
    using match_at_slice [of 0 ASYMMETRIC_HEADER s] l by simp
  have ft: "take 24 ASYMMETRIC_FOOTER = ascii ''-----END PUBLIC KEY-----''"
    by (simp add: ASYMMETRIC_FOOTER_def)
  have f: "match_at s 247 (take 24 ASYMMETRIC_FOOTER)
      = (if drop 247 s = ascii ''-----END PUBLIC KEY-----'' then Inr ()
         else spchat_throw ASYMMETRIC_KEY_EXCEPTION)"
    using match_at_slice [of 247 "take 24 ASYMMETRIC_FOOTER" s] l ft by simp
  have e: "check_endlines s ASYMMETRIC_ENDLINE_POS
      = (if list_all (\<lambda>p. s ! p = ENDLINE) ASYMMETRIC_ENDLINE_POS then Inr ()
         else spchat_throw ASYMMETRIC_KEY_EXCEPTION)"
    by (rule check_endlines_all) (auto simp: ASYMMETRIC_ENDLINE_POS_def l)
  show ?thesis
    using l h f e by (simp add: setAsymmetricKey_def pem_key_def key_consts Let_def)
qed

lemma setAsymmetricKey_stops: "length s = ASYMMETRIC_LENGTH \<Longrightarrow> only_spchat (setAsymmetricKey s m)"
  by (simp add: setAsymmetricKey_iff)

text \<open>What \<open>decodeKey\<close> does with the bytes \<open>r\<close> from the cursor on.\<close>

lemma decodeKey_at:
  assumes r: "rest_at buf k (acc @ r)"
  shows "decodeKey buf (int (length buf)) (int (k + length acc)) m =
    (case r of [] \<Rightarrow> spchat_throw TOO_SHORT_EXCEPTION
     | t # s \<Rightarrow>
         if t = NO_KEY then Inr (m\<lparr>lg_keyType := NO_KEY\<rparr>)
         else if t = ASYMMETRIC_KEY \<and> length s \<ge> ASYMMETRIC_LENGTH
           then setAsymmetricKey (take ASYMMETRIC_LENGTH s) m
         else if t = ENCRYPTED_SYM_KEY \<and> length s = ENCRYPTED_SYM_LENGTH
           then Inr (m\<lparr>lg_keyType := t, lg_key := [], lg_encSymKey := s\<rparr>)
         else spchat_throw BAD_KEY_EXCEPTION)"
proof (cases r)
  case Nil
  then show ?thesis using rest_at_length [OF r] by (simp add: decodeKey_def BYTE_SIZE_def)
next
  case (Cons t s)
  let ?p = "k + length acc"
  have r1: "rest_at buf ?p (t # s)" using rest_at_append [OF r] by (simp add: Cons)
  have r2: "rest_at buf (Suc ?p) s" using rest_at_append [of buf ?p "[t]" s] r1 by simp
  have rd: "rd buf (int ?p) = Inr t" using rest_at_rd [OF r1, of 0] by simp
  have len: "length buf = Suc ?p + length s" using rest_at_length [OF r2] by simp
  have rdn: "rdn buf (int ?p + 1) n = Inr (take n s)" if "n \<le> length s" for n
    using rest_at_rdn [OF r2 that] by (simp add: add.commute)
  show ?thesis
    unfolding decodeKey_def rd
    using rdn [of 271] rdn [of 128]
    by (auto simp: Cons len BYTE_SIZE_def key_consts bufferToString_def setKey_pos_def Let_def)
qed

lemma lg_decode_reads:
  assumes throws: "\<And>m. P (spchat_throw m)" and returns: "\<And>m. lg_valid m \<Longrightarrow> P (Inr m)"
  shows "P (SPChatLogin_decode e buf (int (length buf)))"
proof -
  have r0: "rest_at buf 0 ([] @ buf)" by simp
  have "P (rbind (decodeString e buf (int (length buf)) (int (0 + length ([] :: bytes)))) (\<lambda>(username, pos).
      rbind (lg_setUsername username lg_uninit) (\<lambda>m. decodeKey buf (int (length buf)) pos m)))"
    unfolding lg_setUsername_def
    apply (rule str.reads_guard [where P = P, OF r0 throws])
    apply (subst decodeKey_at, assumption)
    apply (auto simp: setAsymmetricKey_iff lg_valid_def lg_uninit_def key_consts
        intro!: returns throws split: list.splits)
    done
  then show ?thesis by (simp add: SPChatLogin_decode_def)
qed

lemma lg_decode_middle:
  assumes m: "lg_sendable m"
  shows "SPChatLogin_decode e (lg_encodeMiddle LittleEndian [] m)
           (int (length (lg_encodeMiddle LittleEndian [] m))) = Inr m"
proof -
  let ?U = "encodeString LittleEndian [] (lg_username m)" and ?b = "lg_encodeMiddle LittleEndian [] m"
  let ?K = "lg_keyType m # (if lg_keyType m = ASYMMETRIC_KEY \<or> lg_keyType m = ENCRYPTED_SYM_KEY
    then lg_key m else [])"
  note v = m [unfolded lg_sendable_def lg_valid_def]
  have r1: "rest_at ?b 0 ([] @ ?U @ ?K)" and r2: "rest_at ?b 0 (([] @ ?U) @ ?K)"
    by (simp_all add: lg_middle)
  have d: "decodeKey ?b (int (length ?b)) (int (0 + length ([] @ ?U))) (lg_uninit\<lparr>lg_username := lg_username m\<rparr>)
      = Inr m"
    unfolding decodeKey_at [OF r2]
    using v by (cases m) (auto simp: setAsymmetricKey_iff lg_uninit_def key_consts pem_key_def)
  have "rbind (decodeString e ?b (int (length ?b)) (int (0 + length ([] :: bytes)))) (\<lambda>(username, pos).
      rbind (lg_setUsername username lg_uninit) (\<lambda>m. decodeKey ?b (int (length ?b)) pos m)) = Inr m"
    using v by (simp only: str.accepts_seq [OF TrueI _ r1] prod.case rbind_Inr lg_setUsername_def d
        not_True_eq_False if_False)
  then show ?thesis by (simp add: SPChatLogin_decode_def)
qed

text \<open>
  A login whose key is an encrypted symmetric key, laid out as its decoder (and the announced
  length) wants it: the 128 bytes of the key come last.
\<close>

lemma lg_decode_symmetric:
  assumes "validUsername u" and "ok_string u" and "length k = 128"
  shows "SPChatLogin_decode e (encodeString LittleEndian [] u @ [ENCRYPTED_SYM_KEY] @ k)
           (int (length (encodeString LittleEndian [] u @ [ENCRYPTED_SYM_KEY] @ k)))
         = Inr \<lparr>lg_username = u, lg_keyType = ENCRYPTED_SYM_KEY, lg_key = [], lg_encSymKey = k\<rparr>"
proof -
  let ?U = "encodeString LittleEndian [] u" and ?K = "ENCRYPTED_SYM_KEY # k"
  let ?b = "?U @ [ENCRYPTED_SYM_KEY] @ k"
  have r1: "rest_at ?b 0 ([] @ ?U @ ?K)" and r2: "rest_at ?b 0 (([] @ ?U) @ ?K)" by simp_all
  have d: "decodeKey ?b (int (length ?b)) (int (0 + length ([] @ ?U))) (lg_uninit\<lparr>lg_username := u\<rparr>)
      = Inr \<lparr>lg_username = u, lg_keyType = ENCRYPTED_SYM_KEY, lg_key = [], lg_encSymKey = k\<rparr>"
    unfolding decodeKey_at [OF r2] using assms(3) by (simp add: key_consts lg_uninit_def)
  have "rbind (decodeString e ?b (int (length ?b)) (int (0 + length ([] :: bytes)))) (\<lambda>(username, pos).
      rbind (lg_setUsername username lg_uninit) (\<lambda>m. decodeKey ?b (int (length ?b)) pos m))
      = Inr \<lparr>lg_username = u, lg_keyType = ENCRYPTED_SYM_KEY, lg_key = [], lg_encSymKey = k\<rparr>"
    using assms(1,2) by (simp only: str.accepts_seq [OF TrueI _ r1] prod.case rbind_Inr lg_setUsername_def d
        not_True_eq_False if_False)
  then show ?thesis by (simp add: SPChatLogin_decode_def)
qed

interpretation login: payload_class lg_encodeMiddle lg_getPayloadLength SPChatLogin_decode
  lg_valid lg_sendable "\<lambda>_. True"
proof
  fix e :: endian and buf :: bytes and m
  show "lg_encodeMiddle e buf m = buf @ lg_encodeMiddle e [] m" by (simp add: lg_middle)
  show "lg_getPayloadLength m = word_of_nat (length (lg_encodeMiddle e [] m))" if "lg_sendable m"
    using that
    by (auto simp: lg_getPayloadLength_def lg_middle size_defs lg_sendable_def lg_valid_def key_consts pem_key_def)
  show "only_spchat (SPChatLogin_decode e buf (int (length buf)))"
    by (rule lg_decode_reads) simp_all
  show "SPChatLogin_decode e buf (int (length buf)) = Inr m \<Longrightarrow> lg_valid m"
    using lg_decode_reads [where P = "\<lambda>r. r = Inr m \<longrightarrow> lg_valid m", of e buf] by auto
  show "SPChatLogin_decode e [] 0 \<noteq> Inr m"
    by (simp add: SPChatLogin_decode_def decodeString_def decodePositiveInt_def decodeInt_def INT_SIZE_def)
qed (rule lg_decode_middle)

end
