(* ===== verification/Challenge.thy ===== *)
theory Challenge
  imports MessageClass
begin

text \<open>
  \<open>SPChatChallenge\<close> (\<open>mockServer/protocol/SPChatChallenge.cpp\<close>): the eight random bytes
  the server sends after a login request.
\<close>

record SPChatChallenge =
  ch_challenge :: bytes

text \<open>The getters.\<close>

definition getChallenge :: "SPChatChallenge \<Rightarrow> bytes" where [simp]: "getChallenge m = ch_challenge m"

definition CHALLENGE_LENGTH :: nat where "CHALLENGE_LENGTH = 8"

definition setChallenge :: "bytes \<Rightarrow> SPChatChallenge \<Rightarrow> SPChatChallenge res" where
  "setChallenge challenge m =
     (if length challenge \<noteq> CHALLENGE_LENGTH then spchat_throw BAD_CHALLENGE_EXCEPTION
      else Inr (m\<lparr>ch_challenge := challenge\<rparr>))"

definition SPChatChallenge_new :: "bytes \<Rightarrow> SPChatChallenge res" where
  "SPChatChallenge_new challenge = setChallenge challenge \<lparr>ch_challenge = []\<rparr>"

text \<open>The constructor from a buffer copies the first eight bytes and ignores the rest.\<close>

definition SPChatChallenge_decode :: "endian \<Rightarrow> bytes \<Rightarrow> int \<Rightarrow> SPChatChallenge res" where
  "SPChatChallenge_decode e buf len =
     (let pos = 0 in
      if len - pos < int CHALLENGE_LENGTH then spchat_throw BAD_CHALLENGE_EXCEPTION
      else rbind (rdn buf pos CHALLENGE_LENGTH) (\<lambda>challenge. Inr \<lparr>ch_challenge = challenge\<rparr>))"

definition ch_encodeMiddle :: "endian \<Rightarrow> bytes \<Rightarrow> SPChatChallenge \<Rightarrow> bytes" where
  "ch_encodeMiddle e buf m = buf @ ch_challenge m"

definition ch_getPayloadLength :: "SPChatChallenge \<Rightarrow> clong" where
  "ch_getPayloadLength m = word_of_nat CHALLENGE_LENGTH"

definition ch_valid :: "SPChatChallenge \<Rightarrow> bool" where
  "ch_valid m \<longleftrightarrow> length (ch_challenge m) = CHALLENGE_LENGTH"

lemmas ch_defs = SPChatChallenge_decode_def ch_encodeMiddle_def ch_getPayloadLength_def
  ch_valid_def CHALLENGE_LENGTH_def

lemma ch_new_iff:
  "SPChatChallenge_new c = Inr m \<longleftrightarrow> length c = 8 \<and> m = \<lparr>ch_challenge = c\<rparr>"
  by (auto simp: SPChatChallenge_new_def setChallenge_def CHALLENGE_LENGTH_def)

interpretation challenge: payload_class ch_encodeMiddle ch_getPayloadLength SPChatChallenge_decode
  ch_valid ch_valid "\<lambda>_. True"
proof
  fix c :: endian and buf :: bytes and m :: SPChatChallenge
  assume m: "ch_valid m"
  then have "rdn (ch_challenge m) 0 8 = Inr (ch_challenge m)"
    using rdn_in [of 0 8 "ch_challenge m"] by (simp add: ch_defs)
  with m show "SPChatChallenge_decode c (ch_encodeMiddle LittleEndian [] m)
      (int (length (ch_encodeMiddle LittleEndian [] m))) = Inr m"
    by (simp add: ch_defs)
qed (auto simp: ch_defs rdn_eq [of 0] rbind_eq_Inr split: if_splits dest: rdn_length)

end
