(* ===== verification/Response.thy ===== *)
theory Response
  imports MessageClass
begin

text \<open>
  \<open>SPChatResponse\<close> (\<open>mockServer/protocol/SPChatResponse.cpp\<close>): the client's answer to the
  challenge, a hash and the nonce it was computed with. \<open>decodeNonce\<close> returns the empty
  vector when fewer than eight bytes are left.
\<close>

record SPChatResponse =
  rs_hash :: bytes
  rs_username :: bytes
  rs_nonce :: bytes

text \<open>The getters.\<close>

definition getHash :: "SPChatResponse \<Rightarrow> bytes" where [simp]: "getHash m = rs_hash m"
definition rs_getUsername :: "SPChatResponse \<Rightarrow> bytes" where [simp]: "rs_getUsername m = rs_username m"
definition getNonce :: "SPChatResponse \<Rightarrow> bytes" where [simp]: "getNonce m = rs_nonce m"

definition rs_setHash :: "bytes \<Rightarrow> SPChatResponse \<Rightarrow> SPChatResponse res" where
  "rs_setHash h m = Inr (m\<lparr>rs_hash := h\<rparr>)"

definition rs_setUsername :: "bytes \<Rightarrow> SPChatResponse \<Rightarrow> SPChatResponse res" where
  "rs_setUsername username m =
     (if \<not> validUsername username then spchat_throw BAD_USERNAME_EXCEPTION
      else Inr (m\<lparr>rs_username := username\<rparr>))"

definition rs_setNonce :: "bytes \<Rightarrow> SPChatResponse \<Rightarrow> SPChatResponse res" where
  "rs_setNonce nonce m = Inr (m\<lparr>rs_nonce := nonce\<rparr>)"

definition rs_uninit :: SPChatResponse where
  "rs_uninit = \<lparr>rs_hash = [], rs_username = [], rs_nonce = []\<rparr>"

definition SPChatResponse_new :: "bytes \<Rightarrow> bytes \<Rightarrow> bytes \<Rightarrow> SPChatResponse res" where
  "SPChatResponse_new hash username nonce =
     rbind (rs_setHash hash rs_uninit) (\<lambda>m.
     rbind (rs_setUsername username m) (\<lambda>m.
     rs_setNonce nonce m))"

definition decodeNonce :: "bytes \<Rightarrow> int \<Rightarrow> int \<Rightarrow> (bytes \<times> int) res" where
  "decodeNonce buf len pos =
     (if len - pos \<ge> int LONG_SIZE
      then rbind (rdn buf pos LONG_SIZE) (\<lambda>newNonce. Inr (newNonce, pos + int LONG_SIZE))
      else Inr ([], pos))"

definition SPChatResponse_decode :: "endian \<Rightarrow> bytes \<Rightarrow> int \<Rightarrow> SPChatResponse res" where
  "SPChatResponse_decode e buf len =
     (let pos = 0 in
      rbind (decodeString e buf len pos) (\<lambda>(username, pos).
      rbind (rs_setUsername username rs_uninit) (\<lambda>m.
      rbind (decodeString e buf len pos) (\<lambda>(hash, pos).
      rbind (rs_setHash hash m) (\<lambda>m.
      rbind (decodeNonce buf len pos) (\<lambda>(nonce, pos).
      rs_setNonce nonce m))))))"

definition rs_encodeMiddle :: "endian \<Rightarrow> bytes \<Rightarrow> SPChatResponse \<Rightarrow> bytes" where
  "rs_encodeMiddle e buf m =
     (let buf = encodeString e buf (rs_username m);
          buf = encodeString e buf (rs_hash m)
      in buf @ rs_nonce m)"

definition rs_getPayloadLength :: "SPChatResponse \<Rightarrow> clong" where
  "rs_getPayloadLength m =
     word_of_nat (INT_SIZE + length (rs_username m) + INT_SIZE + length (rs_hash m) + LONG_SIZE)"

definition rs_valid :: "SPChatResponse \<Rightarrow> bool" where
  "rs_valid m \<longleftrightarrow> validUsername (rs_username m) \<and> ok_string (rs_username m) \<and> ok_string (rs_hash m)
     \<and> (length (rs_nonce m) = LONG_SIZE \<or> rs_nonce m = [])"

text \<open>\<open>getPayloadLength\<close> counts eight bytes of nonce whatever the nonce is.\<close>

definition rs_sendable :: "SPChatResponse \<Rightarrow> bool" where
  "rs_sendable m \<longleftrightarrow> rs_valid m \<and> length (rs_nonce m) = LONG_SIZE"

lemma rs_middle: "rs_encodeMiddle e buf m
    = buf @ encodeString e [] (rs_username m) @ encodeString e [] (rs_hash m) @ rs_nonce m"
  unfolding rs_encodeMiddle_def Let_def
  by (subst encodeString_append, subst encodeString_append) simp

lemma decodeNonce_in:
  assumes "rest_at buf k (acc @ r)"
  shows "decodeNonce buf (int (length buf)) (int (k + length acc))
      = Inr (if length r \<ge> 8 then (take 8 r, int (k + length acc) + 8) else ([], int (k + length acc)))"
  using rest_at_rdn [OF rest_at_append [OF assms], of 8] rest_at_length [OF assms]
  by (auto simp: decodeNonce_def LONG_SIZE_def)

lemma rs_decode_reads:
  assumes throws: "\<And>m. P (spchat_throw m)" and returns: "\<And>m. rs_valid m \<Longrightarrow> P (Inr m)"
  shows "P (SPChatResponse_decode e buf (int (length buf)))"
proof -
  have r0: "rest_at buf 0 ([] @ buf)" by simp
  have "P (rbind (decodeString e buf (int (length buf)) (int (0 + length ([] :: bytes)))) (\<lambda>(username, pos).
      rbind (rs_setUsername username rs_uninit) (\<lambda>m.
      rbind (decodeString e buf (int (length buf)) pos) (\<lambda>(hash, pos).
      rbind (rs_setHash hash m) (\<lambda>m.
      rbind (decodeNonce buf (int (length buf)) pos) (\<lambda>(nonce, pos). rs_setNonce nonce m))))))"
    unfolding rs_setUsername_def rs_setHash_def rs_setNonce_def rbind_Inr
    apply (rule str.reads_guard [where P = P, OF r0 throws])
    apply (rule str.reads_plain [where P = P, OF _ throws], assumption)
    apply (subst decodeNonce_in, assumption)
    apply (auto simp: rs_valid_def LONG_SIZE_def rs_uninit_def intro!: returns)
    done
  then show ?thesis by (simp add: SPChatResponse_decode_def)
qed

lemma rs_decode_middle:
  assumes m: "rs_sendable m"
  shows "SPChatResponse_decode e (rs_encodeMiddle LittleEndian [] m)
           (int (length (rs_encodeMiddle LittleEndian [] m))) = Inr m"
proof -
  let ?U = "encodeString LittleEndian [] (rs_username m)" and ?H = "encodeString LittleEndian [] (rs_hash m)"
  let ?b = "rs_encodeMiddle LittleEndian [] m"
  note v = m [unfolded rs_sendable_def rs_valid_def]
  have r1: "rest_at ?b 0 ([] @ ?U @ ?H @ rs_nonce m)" and r2: "rest_at ?b 0 (([] @ ?U) @ ?H @ rs_nonce m)"
    and r3: "rest_at ?b 0 ((([] @ ?U) @ ?H) @ rs_nonce m)"
    by (simp_all add: rs_middle)
  have "rbind (decodeString e ?b (int (length ?b)) (int (0 + length ([] :: bytes)))) (\<lambda>(username, pos).
      rbind (rs_setUsername username rs_uninit) (\<lambda>m.
      rbind (decodeString e ?b (int (length ?b)) pos) (\<lambda>(hash, pos).
      rbind (rs_setHash hash m) (\<lambda>m.
      rbind (decodeNonce ?b (int (length ?b)) pos) (\<lambda>(nonce, pos). rs_setNonce nonce m))))) = Inr m"
    by (simp only: str.accepts_seq [OF TrueI _ r1] str.accepts_seq [OF TrueI _ r2] decodeNonce_in [OF r3] v
        prod.case rbind_Inr rs_setUsername_def rs_setHash_def rs_setNonce_def)
      (use v in \<open>simp add: rs_uninit_def LONG_SIZE_def\<close>)
  then show ?thesis by (simp add: SPChatResponse_decode_def)
qed

interpretation response: payload_class rs_encodeMiddle rs_getPayloadLength SPChatResponse_decode
  rs_valid rs_sendable "\<lambda>_. True"
proof
  fix e :: endian and buf :: bytes and m
  show "rs_encodeMiddle e buf m = buf @ rs_encodeMiddle e [] m" by (simp add: rs_middle)
  show "rs_getPayloadLength m = word_of_nat (length (rs_encodeMiddle e [] m))" if "rs_sendable m"
    unfolding rs_getPayloadLength_def size_defs
    by (rule arg_cong [where f = word_of_nat]) (use that in \<open>simp add: rs_middle rs_sendable_def LONG_SIZE_def\<close>)
  show "only_spchat (SPChatResponse_decode e buf (int (length buf)))"
    by (rule rs_decode_reads) simp_all
  show "SPChatResponse_decode e buf (int (length buf)) = Inr m \<Longrightarrow> rs_valid m"
    using rs_decode_reads [where P = "\<lambda>r. r = Inr m \<longrightarrow> rs_valid m"] by auto
  show "SPChatResponse_decode e [] 0 \<noteq> Inr m"
    by (simp add: SPChatResponse_decode_def decodeString_def decodePositiveInt_def decodeInt_def INT_SIZE_def)
qed (rule rs_decode_middle)

end
