(* ===== verification/Ack.thy ===== *)
theory Ack
  imports MessageClass
begin

text \<open>
  \<open>SPChatACK\<close> (\<open>mockServer/protocol/SPChatACK.cpp\<close>): one byte, the sender in the low bit
  and the error code in the other seven.
\<close>

datatype senderType = SERVER | CLIENT

datatype errorType =
    SUCCESS | INVALID_MSG_TYPE | INVALID_USERNAME_PASSWORD | FORMATTING_ERROR
  | DEFAULT_ERROR | PASSWORD_AUTH

fun senderType_int :: "senderType \<Rightarrow> int" where
  "senderType_int SERVER = 0"
| "senderType_int CLIENT = 1"

fun errorType_int :: "errorType \<Rightarrow> int" where
  "errorType_int SUCCESS = 0"
| "errorType_int INVALID_MSG_TYPE = 1"
| "errorType_int INVALID_USERNAME_PASSWORD = 2"
| "errorType_int FORMATTING_ERROR = 3"
| "errorType_int DEFAULT_ERROR = 4"
| "errorType_int PASSWORD_AUTH = 5"

record SPChatACK =
  ack_sender :: senderType
  ack_error :: errorType

text \<open>The getters.\<close>

definition ack_getError :: "SPChatACK \<Rightarrow> int" where [simp]: "ack_getError m = errorType_int (ack_error m)"
definition ack_getSender :: "SPChatACK \<Rightarrow> int" where [simp]: "ack_getSender m = senderType_int (ack_sender m)"

text \<open>The members before the constructor's body; both are written before they are read.\<close>

definition ack_uninit :: SPChatACK where
  "ack_uninit = \<lparr>ack_sender = SERVER, ack_error = SUCCESS\<rparr>"

definition ack_setError :: "int \<Rightarrow> SPChatACK \<Rightarrow> SPChatACK res" where
  "ack_setError err m =
     (if err = errorType_int SUCCESS then Inr (m\<lparr>ack_error := SUCCESS\<rparr>)
      else if err = errorType_int INVALID_MSG_TYPE then Inr (m\<lparr>ack_error := INVALID_MSG_TYPE\<rparr>)
      else if err = errorType_int INVALID_USERNAME_PASSWORD
        then Inr (m\<lparr>ack_error := INVALID_USERNAME_PASSWORD\<rparr>)
      else if err = errorType_int FORMATTING_ERROR then Inr (m\<lparr>ack_error := FORMATTING_ERROR\<rparr>)
      else if err = errorType_int DEFAULT_ERROR then Inr (m\<lparr>ack_error := DEFAULT_ERROR\<rparr>)
      else if err = errorType_int PASSWORD_AUTH then Inr (m\<lparr>ack_error := PASSWORD_AUTH\<rparr>)
      else spchat_throw INVALID_ERROR_EXCEPTION)"

definition ack_setSender :: "int \<Rightarrow> SPChatACK \<Rightarrow> SPChatACK res" where
  "ack_setSender sender m =
     (if sender = senderType_int SERVER then Inr (m\<lparr>ack_sender := SERVER\<rparr>)
      else if sender = senderType_int CLIENT then Inr (m\<lparr>ack_sender := CLIENT\<rparr>)
      else spchat_throw INVALID_SENDER_EXCEPTION)"

definition SPChatACK_new :: "errorType \<Rightarrow> senderType \<Rightarrow> SPChatACK res" where
  "SPChatACK_new err sender =
     rbind (ack_setError (errorType_int err) ack_uninit) (ack_setSender (senderType_int sender))"

text \<open>The constructor from a buffer reads \<open>buf[0]\<close> without looking at \<open>len\<close>.\<close>

definition SPChatACK_decode :: "endian \<Rightarrow> bytes \<Rightarrow> int \<Rightarrow> SPChatACK res" where
  "SPChatACK_decode e buf len =
     (let pos = 0 in
      rbind (rd buf pos) (\<lambda>b.
      rbind (ack_setSender (uint b mod 2) ack_uninit) (\<lambda>m.
      rbind (rd buf pos) (\<lambda>b.
      ack_setError (uint (drop_bit 1 b)) m))))"

definition ack_encodeMiddle :: "endian \<Rightarrow> bytes \<Rightarrow> SPChatACK \<Rightarrow> bytes" where
  "ack_encodeMiddle e buf m =
     buf @ [word_of_int (push_bit 1 (errorType_int (ack_error m)) OR senderType_int (ack_sender m))]"

definition ack_getPayloadLength :: "SPChatACK \<Rightarrow> clong" where
  "ack_getPayloadLength m = word_of_nat BYTE_SIZE"

lemma ack_new [simp]: "SPChatACK_new err sender = Inr \<lparr>ack_sender = sender, ack_error = err\<rparr>"
  by (cases err; cases sender)
    (simp_all add: SPChatACK_new_def ack_setError_def ack_setSender_def ack_uninit_def)

lemma ack_setters_stop: "only_spchat (ack_setError n m)" "only_spchat (ack_setSender n m)"
  by (simp_all add: ack_setError_def ack_setSender_def)

lemma ack_roundtrip: "SPChatACK_decode e (ack_encodeMiddle e' [] m) len = Inr m"
  by (cases m; cases "ack_error m"; cases "ack_sender m")
    (auto simp: SPChatACK_decode_def ack_encodeMiddle_def rd_def ack_setError_def ack_setSender_def
      ack_uninit_def drop_bit_eq_div)

interpretation ack: payload_class ack_encodeMiddle ack_getPayloadLength SPChatACK_decode
  "\<lambda>_. True" "\<lambda>_. True" "\<lambda>_. True"
proof
  fix buf :: bytes and c :: endian
  assume "buf \<noteq> []"
  then obtain b bs where "buf = b # bs" by (cases buf) auto
  then show "only_spchat (SPChatACK_decode c buf (int (length buf)))"
    by (auto simp: SPChatACK_decode_def rd_def intro!: only_spchat_rbind ack_setters_stop)
next
  fix c :: endian and m :: SPChatACK
  show "SPChatACK_decode c (ack_encodeMiddle LittleEndian [] m)
      (int (length (ack_encodeMiddle LittleEndian [] m))) = Inr m"
    by (rule ack_roundtrip)
qed (auto simp: ack_encodeMiddle_def ack_getPayloadLength_def BYTE_SIZE_def SPChatACK_decode_def rd_def)

text \<open>The constructor accepts a byte exactly when it is the encoding of the result.\<close>

lemma ack_decode_iff: "SPChatACK_decode e [b] 1 = Inr m \<longleftrightarrow> ack_encodeMiddle e' [] m = [b]"
proof
  assume d: "SPChatACK_decode e [b] 1 = Inr m"
  have v: "uint (drop_bit (Suc 0) b) = uint b div 2"
    by (simp add: drop_bit_eq_div uint_div_distrib)
  have b: "b = word_of_int (2 * (uint b div 2) + uint b mod 2)" by simp
  from d have "uint b div 2 = errorType_int (ack_error m)" and "uint b mod 2 = senderType_int (ack_sender m)"
    by (auto simp: SPChatACK_decode_def rd_def v ack_setError_def ack_setSender_def ack_uninit_def split: if_splits)
  then have b': "b = word_of_int (2 * errorType_int (ack_error m) + senderType_int (ack_sender m))"
    using b by simp
  show "ack_encodeMiddle e' [] m = [b]"
    unfolding b' by (cases "ack_error m"; cases "ack_sender m") (simp_all add: ack_encodeMiddle_def)
next
  assume "ack_encodeMiddle e' [] m = [b]"
  then show "SPChatACK_decode e [b] 1 = Inr m" using ack_roundtrip [of e e' m 1] by simp
qed

end
