(* ===== verification/Poll.thy ===== *)
theory Poll
  imports MessageClass
begin

text \<open>
  \<open>SPChatPoll\<close> (\<open>mockServer/protocol/SPChatPoll.cpp\<close>): a client asks for the messages sent
  to \<open>username\<close> since \<open>time\<close>. The sign of \<open>time\<close> is only tested by \<open>getTime\<close>.
\<close>

record SPChatPoll =
  pl_username :: bytes
  pl_time :: clong

text \<open>The getters.\<close>

definition pl_getUsername :: "SPChatPoll \<Rightarrow> bytes" where [simp]: "pl_getUsername m = pl_username m"

definition pl_setUsername :: "bytes \<Rightarrow> SPChatPoll \<Rightarrow> SPChatPoll res" where
  "pl_setUsername username m =
     (if \<not> validUsername username then spchat_throw BAD_USERNAME_EXCEPTION
      else Inr (m\<lparr>pl_username := username\<rparr>))"

definition pl_setTime :: "clong \<Rightarrow> SPChatPoll \<Rightarrow> SPChatPoll res" where
  "pl_setTime t m = Inr (m\<lparr>pl_time := t\<rparr>)"

definition pl_getTime :: "SPChatPoll \<Rightarrow> clong res" where
  "pl_getTime m =
     (if \<not> validPositiveNum (pl_time m) then spchat_throw NEGATIVE_NUM_EXCEPTION
      else Inr (pl_time m))"

definition pl_uninit :: SPChatPoll where
  "pl_uninit = \<lparr>pl_username = [], pl_time = 0\<rparr>"

definition SPChatPoll_new :: "bytes \<Rightarrow> clong \<Rightarrow> SPChatPoll res" where
  "SPChatPoll_new username time = rbind (pl_setUsername username pl_uninit) (pl_setTime time)"

definition SPChatPoll_decode :: "endian \<Rightarrow> bytes \<Rightarrow> int \<Rightarrow> SPChatPoll res" where
  "SPChatPoll_decode e buf len =
     (let pos = 0 in
      rbind (decodeString e buf len pos) (\<lambda>(username, pos).
      rbind (pl_setUsername username pl_uninit) (\<lambda>m.
      rbind (decodeLong e buf len pos) (\<lambda>(time, pos).
      pl_setTime time m))))"

definition pl_encodeMiddle :: "endian \<Rightarrow> bytes \<Rightarrow> SPChatPoll \<Rightarrow> bytes" where
  "pl_encodeMiddle e buf m = encodeLong e (encodeString e buf (pl_username m)) (pl_time m)"

definition pl_getPayloadLength :: "SPChatPoll \<Rightarrow> clong" where
  "pl_getPayloadLength m = word_of_nat (INT_SIZE + length (pl_username m) + LONG_SIZE)"

definition pl_valid :: "SPChatPoll \<Rightarrow> bool" where
  "pl_valid m \<longleftrightarrow> validUsername (pl_username m) \<and> ok_string (pl_username m)"

lemma pl_middle: "pl_encodeMiddle e buf m = buf @ encodeString e [] (pl_username m) @ encodeLong e [] (pl_time m)"
  unfolding pl_encodeMiddle_def by (subst encodeLong_append, subst encodeString_append) simp

lemma pl_decode_reads:
  assumes throws: "\<And>m. P (spchat_throw m)" and returns: "\<And>m. pl_valid m \<Longrightarrow> P (Inr m)"
  shows "P (SPChatPoll_decode e buf (int (length buf)))"
proof -
  have r0: "rest_at buf 0 ([] @ buf)" by simp
  have "P (rbind (decodeString e buf (int (length buf)) (int (0 + length ([] :: bytes)))) (\<lambda>(username, pos).
      rbind (pl_setUsername username pl_uninit) (\<lambda>m.
      rbind (decodeLong e buf (int (length buf)) pos) (\<lambda>(time, pos). pl_setTime time m))))"
    unfolding pl_setUsername_def pl_setTime_def
    apply (rule str.reads_guard [where P = P, OF r0 throws])
    apply (rule long.reads_plain [where P = P, OF _ throws], assumption)
    apply (rule returns, simp add: pl_valid_def)
    done
  then show ?thesis by (simp add: SPChatPoll_decode_def)
qed

lemma pl_decode_middle:
  assumes m: "pl_valid m"
  shows "SPChatPoll_decode e (pl_encodeMiddle LittleEndian [] m)
           (int (length (pl_encodeMiddle LittleEndian [] m))) = Inr m"
proof -
  let ?S = "encodeString LittleEndian [] (pl_username m)" and ?L = "encodeLong LittleEndian [] (pl_time m)"
  let ?b = "pl_encodeMiddle LittleEndian [] m"
  note v = m [unfolded pl_valid_def]
  have r1: "rest_at ?b 0 ([] @ ?S @ ?L)" and r2: "rest_at ?b 0 (([] @ ?S) @ ?L @ [])"
    by (simp_all add: pl_middle)
  have "rbind (decodeString e ?b (int (length ?b)) (int (0 + length ([] :: bytes)))) (\<lambda>(username, pos).
      rbind (pl_setUsername username pl_uninit) (\<lambda>m.
      rbind (decodeLong e ?b (int (length ?b)) pos) (\<lambda>(time, pos). pl_setTime time m))) = Inr m"
    by (simp only: str.accepts_seq [OF TrueI _ r1] long.accepts_seq [OF TrueI TrueI r2] v
        prod.case rbind_Inr pl_setUsername_def pl_setTime_def) (simp add: pl_uninit_def)
  then show ?thesis by (simp add: SPChatPoll_decode_def)
qed

interpretation poll: payload_class pl_encodeMiddle pl_getPayloadLength SPChatPoll_decode
  pl_valid pl_valid "\<lambda>_. True"
proof
  fix e :: endian and buf :: bytes and m
  show "pl_encodeMiddle e buf m = buf @ pl_encodeMiddle e [] m" by (simp add: pl_middle)
  show "pl_getPayloadLength m = word_of_nat (length (pl_encodeMiddle e [] m))"
    unfolding pl_getPayloadLength_def size_defs
    by (rule arg_cong [where f = word_of_nat]) (simp add: pl_middle)
  show "only_spchat (SPChatPoll_decode e buf (int (length buf)))"
    by (rule pl_decode_reads) simp_all
  show "SPChatPoll_decode e buf (int (length buf)) = Inr m \<Longrightarrow> pl_valid m"
    using pl_decode_reads [where P = "\<lambda>r. r = Inr m \<longrightarrow> pl_valid m"] by auto
  show "SPChatPoll_decode e [] 0 \<noteq> Inr m"
    by (simp add: SPChatPoll_decode_def decodeString_def decodePositiveInt_def decodeInt_def INT_SIZE_def)
qed (rule pl_decode_middle)

lemma pl_setters_valid:
  assumes "pl_valid m"
  shows "ok_string s \<Longrightarrow> pl_setUsername s m = Inr m' \<Longrightarrow> pl_valid m'" and "pl_setTime n m = Inr m' \<Longrightarrow> pl_valid m'"
  using assms by (auto simp: pl_setUsername_def pl_setTime_def pl_valid_def split: if_splits)

end
