(* ===== verification/MsgMessage.thy ===== *)
theory MsgMessage
  imports Wire
begin

text \<open>
  \<open>SPChatMsgMessage\<close> (\<open>mockServer/protocol/SPChatMsgMessage.cpp\<close>): one chat message
  inside a poll response. The class is the element codec of the list in
  \<open>SPChatPollResponse\<close>; the interpretations \<open>msg\<close> at the end provide that contract.

  \<open>setMsgNum\<close> tests the member \<open>time\<close>, which the constructors only write afterwards, so
  the outcome of a constructor depends on the value that happened to be in that memory: the
  argument \<open>stale\<close>.
\<close>

section \<open>Data and setters\<close>

record SPChatMsgMessage =
  mm_sender :: bytes
  mm_receiver :: bytes
  mm_message :: bytes
  mm_decryptMsgLen :: clong
  mm_msgNum :: cint
  mm_totalMsg :: cint
  mm_time :: clong

text \<open>The getters.\<close>

definition getSender :: "SPChatMsgMessage \<Rightarrow> bytes" where [simp]: "getSender m = mm_sender m"
definition getReceiver :: "SPChatMsgMessage \<Rightarrow> bytes" where [simp]: "getReceiver m = mm_receiver m"
definition getMessage :: "SPChatMsgMessage \<Rightarrow> bytes" where [simp]: "getMessage m = mm_message m"
definition getDecryptMsgLen :: "SPChatMsgMessage \<Rightarrow> clong" where [simp]: "getDecryptMsgLen m = mm_decryptMsgLen m"
definition getMsgNum :: "SPChatMsgMessage \<Rightarrow> cint" where [simp]: "getMsgNum m = mm_msgNum m"
definition getTotalMsg :: "SPChatMsgMessage \<Rightarrow> cint" where [simp]: "getTotalMsg m = mm_totalMsg m"
definition mm_getTime :: "SPChatMsgMessage \<Rightarrow> clong" where [simp]: "mm_getTime m = mm_time m"

definition MAX_MESSAGE_LENGTH :: int where "MAX_MESSAGE_LENGTH = 500"

text \<open>
  The object before the constructor's body: empty strings, and integer members holding
  whatever was in memory. Only \<open>time\<close> is read before it is written.
\<close>

definition mm_uninit :: "clong \<Rightarrow> SPChatMsgMessage" where
  "mm_uninit stale = \<lparr>mm_sender = [], mm_receiver = [], mm_message = [], mm_decryptMsgLen = 0,
     mm_msgNum = 0, mm_totalMsg = 0, mm_time = stale\<rparr>"

definition mm_setSender :: "bytes \<Rightarrow> SPChatMsgMessage \<Rightarrow> SPChatMsgMessage res" where
  "mm_setSender sender m =
     (if \<not> validUsername sender then spchat_throw BAD_USERNAME_EXCEPTION
      else Inr (m\<lparr>mm_sender := sender\<rparr>))"

definition mm_setReceiver :: "bytes \<Rightarrow> SPChatMsgMessage \<Rightarrow> SPChatMsgMessage res" where
  "mm_setReceiver receiver m =
     (if \<not> validUsername receiver then spchat_throw BAD_USERNAME_EXCEPTION
      else Inr (m\<lparr>mm_receiver := receiver\<rparr>))"

definition mm_setMessage :: "bytes \<Rightarrow> SPChatMsgMessage \<Rightarrow> SPChatMsgMessage res" where
  "mm_setMessage newMsg m = Inr (m\<lparr>mm_message := newMsg\<rparr>)"

definition mm_setDecryptMsgLen :: "clong \<Rightarrow> SPChatMsgMessage \<Rightarrow> SPChatMsgMessage res" where
  "mm_setDecryptMsgLen n m =
     (if sint n > MAX_MESSAGE_LENGTH then spchat_throw MSG_LENGTH_EXCEPTION
      else Inr (m\<lparr>mm_decryptMsgLen := n\<rparr>))"

definition mm_setMsgNum :: "cint \<Rightarrow> SPChatMsgMessage \<Rightarrow> SPChatMsgMessage res" where
  "mm_setMsgNum n m =
     (if \<not> validPositiveNum (mm_time m) then spchat_throw NEGATIVE_NUM_EXCEPTION
      else Inr (m\<lparr>mm_msgNum := n\<rparr>))"

definition mm_setTotalMsg :: "cint \<Rightarrow> SPChatMsgMessage \<Rightarrow> SPChatMsgMessage res" where
  "mm_setTotalMsg n m =
     (if \<not> validPositiveNum n then spchat_throw NEGATIVE_NUM_EXCEPTION
      else Inr (m\<lparr>mm_totalMsg := n\<rparr>))"

definition mm_setTime :: "clong \<Rightarrow> SPChatMsgMessage \<Rightarrow> SPChatMsgMessage res" where
  "mm_setTime t m =
     (if \<not> validPositiveNum t then spchat_throw NEGATIVE_NUM_EXCEPTION
      else Inr (m\<lparr>mm_time := t\<rparr>))"

lemmas mm_setter_defs = mm_setSender_def mm_setReceiver_def mm_setMessage_def
  mm_setDecryptMsgLen_def mm_setMsgNum_def mm_setTotalMsg_def mm_setTime_def

section \<open>Constructors and encoder\<close>

definition SPChatMsgMessage_new ::
  "clong \<Rightarrow> bytes \<Rightarrow> bytes \<Rightarrow> bytes \<Rightarrow> clong \<Rightarrow> cint \<Rightarrow> cint \<Rightarrow> clong \<Rightarrow> SPChatMsgMessage res" where
  "SPChatMsgMessage_new stale sender receiver message decryptMsgLen msgNum totalMsg time =
     rbind (mm_setSender sender (mm_uninit stale)) (\<lambda>m.
     rbind (mm_setReceiver receiver m) (\<lambda>m.
     rbind (mm_setMessage message m) (\<lambda>m.
     rbind (mm_setDecryptMsgLen decryptMsgLen m) (\<lambda>m.
     rbind (mm_setMsgNum msgNum m) (\<lambda>m.
     rbind (mm_setTotalMsg totalMsg m) (\<lambda>m.
     mm_setTime time m))))))"

definition SPChatMsgMessage_decode ::
  "endian \<times> clong \<Rightarrow> bytes \<Rightarrow> int \<Rightarrow> int \<Rightarrow> (SPChatMsgMessage \<times> int) res" where
  "SPChatMsgMessage_decode c buf len pos = (case c of (e, stale) \<Rightarrow>
     rbind (decodeString e buf len pos) (\<lambda>(sender, pos).
     rbind (mm_setSender sender (mm_uninit stale)) (\<lambda>m.
     rbind (decodeString e buf len pos) (\<lambda>(receiver, pos).
     rbind (mm_setReceiver receiver m) (\<lambda>m.
     rbind (decodeString e buf len pos) (\<lambda>(message, pos).
     rbind (mm_setMessage message m) (\<lambda>m.
     rbind (decodeLong e buf len pos) (\<lambda>(decryptMsgLen, pos).
     rbind (mm_setDecryptMsgLen decryptMsgLen m) (\<lambda>m.
     rbind (decodeInt e buf len pos) (\<lambda>(msgNum, pos).
     rbind (mm_setMsgNum msgNum m) (\<lambda>m.
     rbind (decodeInt e buf len pos) (\<lambda>(totalMsg, pos).
     rbind (mm_setTotalMsg totalMsg m) (\<lambda>m.
     rbind (decodeLong e buf len pos) (\<lambda>(time, pos).
     rbind (mm_setTime time m) (\<lambda>m. Inr (m, pos))))))))))))))))"

definition encodeMessage :: "endian \<Rightarrow> bytes \<Rightarrow> SPChatMsgMessage \<Rightarrow> bytes" where
  "encodeMessage e buf m =
     (let buf = encodeString e buf (mm_sender m);
          buf = encodeString e buf (mm_receiver m);
          buf = encodeString e buf (mm_message m);
          buf = encodeLong e buf (mm_decryptMsgLen m);
          buf = encodeInt e buf (mm_msgNum m);
          buf = encodeInt e buf (mm_totalMsg m);
          buf = encodeLong e buf (mm_time m)
      in buf)"

definition mm_getPayloadLength :: "SPChatMsgMessage \<Rightarrow> clong" where
  "mm_getPayloadLength m =
     word_of_nat (INT_SIZE + length (mm_sender m) + INT_SIZE + length (mm_receiver m) + INT_SIZE
       + length (mm_message m) + LONG_SIZE + INT_SIZE + INT_SIZE + LONG_SIZE)"

section \<open>Valid messages\<close>

definition mm_valid :: "SPChatMsgMessage \<Rightarrow> bool" where
  "mm_valid m \<longleftrightarrow> validUsername (mm_sender m) \<and> validUsername (mm_receiver m)
     \<and> ok_string (mm_sender m) \<and> ok_string (mm_receiver m) \<and> ok_string (mm_message m)
     \<and> sint (mm_decryptMsgLen m) \<le> MAX_MESSAGE_LENGTH
     \<and> validPositiveNum (mm_totalMsg m) \<and> validPositiveNum (mm_time m)"

definition mm_good :: "endian \<times> clong \<Rightarrow> bool" where
  "mm_good c \<longleftrightarrow> validPositiveNum (snd c)"

lemma encodeMessage_parts:
  "encodeMessage e buf m = buf @ encodeString e [] (mm_sender m) @ encodeString e [] (mm_receiver m)
     @ encodeString e [] (mm_message m) @ encodeLong e [] (mm_decryptMsgLen m)
     @ encodeInt e [] (mm_msgNum m) @ encodeInt e [] (mm_totalMsg m) @ encodeLong e [] (mm_time m)"
  unfolding encodeMessage_def Let_def
  by (subst encodeLong_append, subst encodeInt_append, subst encodeInt_append, subst encodeLong_append,
      subst encodeString_append, subst encodeString_append, subst encodeString_append) simp

lemma encodeMessage_append: "encodeMessage e buf m = buf @ encodeMessage e [] m"
  by (simp add: encodeMessage_parts)

lemma length_encodeMessage:
  "length (encodeMessage e [] m)
     = 36 + length (mm_sender m) + length (mm_receiver m) + length (mm_message m)"
  by (simp add: encodeMessage_parts)

lemma mm_payload_length: "mm_getPayloadLength m = word_of_nat (length (encodeMessage e [] m))"
  unfolding length_encodeMessage mm_getPayloadLength_def size_defs
  by (rule arg_cong [where f = word_of_nat]) simp

lemma mm_new_valid:
  assumes "mm_valid m" and "validPositiveNum stale"
  shows "SPChatMsgMessage_new stale (mm_sender m) (mm_receiver m) (mm_message m)
           (mm_decryptMsgLen m) (mm_msgNum m) (mm_totalMsg m) (mm_time m) = Inr m"
  using assms
  by (simp add: SPChatMsgMessage_new_def mm_setter_defs mm_valid_def mm_uninit_def)

section \<open>The class as a codec\<close>

text \<open>The setters on the fields of a valid message.\<close>

lemma mm_setters_ok:
  assumes "mm_valid m"
  shows "mm_setSender (mm_sender m) x = Inr (x\<lparr>mm_sender := mm_sender m\<rparr>)"
    and "mm_setReceiver (mm_receiver m) x = Inr (x\<lparr>mm_receiver := mm_receiver m\<rparr>)"
    and "mm_setMessage (mm_message m) x = Inr (x\<lparr>mm_message := mm_message m\<rparr>)"
    and "mm_setDecryptMsgLen (mm_decryptMsgLen m) x = Inr (x\<lparr>mm_decryptMsgLen := mm_decryptMsgLen m\<rparr>)"
    and "mm_setTotalMsg (mm_totalMsg m) x = Inr (x\<lparr>mm_totalMsg := mm_totalMsg m\<rparr>)"
    and "mm_setTime (mm_time m) x = Inr (x\<lparr>mm_time := mm_time m\<rparr>)"
  using assms by (simp_all add: mm_setter_defs mm_valid_def)

lemma mm_decode_accepts:
  assumes c: "mm_good c" and m: "mm_valid m" and r: "rest_at buf k (encodeMessage LittleEndian [] m @ r)"
  shows "SPChatMsgMessage_decode c buf (int (length buf)) (int k)
         = Inr (m, int (k + length (encodeMessage LittleEndian [] m)))"
proof -
  obtain e stale where es: "c = (e, stale)" by (cases c)
  let ?S = "encodeString LittleEndian []" and ?L = "encodeLong LittleEndian []" and ?I = "encodeInt LittleEndian []"
  note v = m [unfolded mm_valid_def]
  have num: "mm_time x = stale \<Longrightarrow> mm_setMsgNum n x = Inr (x\<lparr>mm_msgNum := n\<rparr>)" for n x
    using c by (simp add: mm_setMsgNum_def mm_good_def es)
  let ?a1 = "[] @ ?S (mm_sender m)" let ?a2 = "?a1 @ ?S (mm_receiver m)"
  let ?a3 = "?a2 @ ?S (mm_message m)" let ?a4 = "?a3 @ ?L (mm_decryptMsgLen m)"
  let ?a5 = "?a4 @ ?I (mm_msgNum m)" let ?a6 = "?a5 @ ?I (mm_totalMsg m)"
  have r1: "rest_at buf k ([] @ ?S (mm_sender m) @ drop (length ?a1) (drop k buf))"
    and r2: "rest_at buf k (?a1 @ ?S (mm_receiver m) @ drop (length ?a2) (drop k buf))"
    and r3: "rest_at buf k (?a2 @ ?S (mm_message m) @ drop (length ?a3) (drop k buf))"
    and r4: "rest_at buf k (?a3 @ ?L (mm_decryptMsgLen m) @ drop (length ?a4) (drop k buf))"
    and r5: "rest_at buf k (?a4 @ ?I (mm_msgNum m) @ drop (length ?a5) (drop k buf))"
    and r6: "rest_at buf k (?a5 @ ?I (mm_totalMsg m) @ drop (length ?a6) (drop k buf))"
    and r7: "rest_at buf k (?a6 @ ?L (mm_time m) @ r)"
    using r by (simp_all add: rest_at_def encodeMessage_parts)
  have "SPChatMsgMessage_decode c buf (int (length buf)) (int (k + length ([] :: bytes)))
      = Inr (m, int (k + length (?a6 @ ?L (mm_time m))))"
    unfolding SPChatMsgMessage_decode_def es prod.case
    by (simp only: str.accepts_seq [OF TrueI _ r1] str.accepts_seq [OF TrueI _ r2]
        str.accepts_seq [OF TrueI _ r3] long.accepts_seq [OF TrueI TrueI r4]
        int.accepts_seq [OF TrueI TrueI r5] int.accepts_seq [OF TrueI TrueI r6]
        long.accepts_seq [OF TrueI TrueI r7] v num mm_setters_ok [OF m] prod.case rbind_Inr
        SPChatMsgMessage.simps mm_uninit_def) simp
  then show ?thesis by (simp add: encodeMessage_parts)
qed

lemma mm_decode_reads:
  assumes k: "k \<le> length buf" and throws: "\<And>m. P (spchat_throw m)"
    and returns: "\<And>m X r. mm_valid m \<Longrightarrow> X = encodeMessage LittleEndian [] m \<Longrightarrow>
      rest_at buf k (X @ r) \<Longrightarrow> P (Inr (m, int (k + length X)))"
  shows "P (SPChatMsgMessage_decode c buf (int (length buf)) (int k))"
proof -
  obtain e stale where es: "c = (e, stale)" by (cases c)
  from k obtain r0 where r0: "rest_at buf k ([] @ r0)" by (auto simp: rest_at_def)
  have "P (SPChatMsgMessage_decode c buf (int (length buf)) (int (k + length ([] :: bytes))))"
    unfolding SPChatMsgMessage_decode_def es prod.case mm_setter_defs rbind_Inr
    apply (rule str.reads_guard [where P = P, OF r0 throws])
    apply (rule str.reads_guard [where P = P, OF _ throws], assumption)
    apply (rule str.reads_plain [where P = P, OF _ throws], assumption)
    apply (rule long.reads_guard' [where P = P, OF _ throws], assumption)
    apply (rule int.reads_guard [where P = P, OF _ throws], assumption)
    apply (rule int.reads_guard [where P = P, OF _ throws], assumption)
    apply (rule long.reads_guard [where P = P, OF _ throws], assumption)
    apply (rule returns, auto simp: mm_valid_def encodeMessage_parts not_less)
    done
  then show ?thesis by simp
qed

interpretation msg: field_codec "encodeMessage LittleEndian []" SPChatMsgMessage_decode mm_valid mm_good
proof (rule field_codecI)
  fix c k and buf :: bytes assume "k \<le> length buf"
  then show "reads_or_throws (encodeMessage LittleEndian [])
      (SPChatMsgMessage_decode c buf (int (length buf)) (int k)) mm_valid buf k"
    by (rule mm_decode_reads [where P = "\<lambda>r. reads_or_throws (encodeMessage LittleEndian []) r mm_valid buf k"])
      (auto simp: reads_or_throws_def)
qed (rule mm_decode_accepts)

text \<open>The value constructor: when it returns, and what it returns.\<close>

lemma mm_new_iff:
  "SPChatMsgMessage_new stale s r msg dl n t tm = Inr m \<longleftrightarrow>
     validUsername s \<and> validUsername r \<and> sint dl \<le> MAX_MESSAGE_LENGTH \<and> validPositiveNum stale
     \<and> validPositiveNum t \<and> validPositiveNum tm
     \<and> m = \<lparr>mm_sender = s, mm_receiver = r, mm_message = msg, mm_decryptMsgLen = dl,
            mm_msgNum = n, mm_totalMsg = t, mm_time = tm\<rparr>"
  by (auto simp: SPChatMsgMessage_new_def mm_setter_defs mm_uninit_def rbind_eq_Inr split: if_splits)

lemma mm_new_stops: "only_spchat (SPChatMsgMessage_new stale s r msg dl n t tm)"
  by (auto simp: SPChatMsgMessage_new_def mm_setter_defs intro!: only_spchat_rbind)

text \<open>Every setter keeps the invariant.\<close>

lemma mm_setters_valid:
  assumes "mm_valid m"
  shows "ok_string s \<Longrightarrow> mm_setSender s m = Inr m' \<Longrightarrow> mm_valid m'"
    and "ok_string s \<Longrightarrow> mm_setReceiver s m = Inr m' \<Longrightarrow> mm_valid m'"
    and "ok_string s \<Longrightarrow> mm_setMessage s m = Inr m' \<Longrightarrow> mm_valid m'"
    and "mm_setDecryptMsgLen n m = Inr m' \<Longrightarrow> mm_valid m'"
    and "mm_setMsgNum i m = Inr m' \<Longrightarrow> mm_valid m'"
    and "mm_setTotalMsg i m = Inr m' \<Longrightarrow> mm_valid m'"
    and "mm_setTime n m = Inr m' \<Longrightarrow> mm_valid m'"
  using assms by (auto simp: mm_setter_defs mm_valid_def split: if_splits)

end
