(* ===== verification/PollResponse.thy ===== *)
theory PollResponse
  imports MessageClass MsgMessage
begin

text \<open>
  \<open>SPChatPollResponse\<close> (\<open>mockServer/protocol/SPChatPollResponse.cpp\<close>): a list of chat
  messages, sent by a client to post and by the server to deliver. The list code is proved
  through the codec contract of \<open>SPChatMsgMessage\<close>.

  \<open>stale i\<close> is the content of the uninitialised member the \<open>i\<close>-th element's constructor
  tests (see \<open>MsgMessage\<close>).
\<close>

record SPChatPollResponse =
  pr_username :: bytes
  pr_msgList :: "SPChatMsgMessage list"
  pr_listNum :: cint
  pr_totalList :: cint

text \<open>The getters.\<close>

definition pr_getUsername :: "SPChatPollResponse \<Rightarrow> bytes" where [simp]: "pr_getUsername m = pr_username m"
definition getListNum :: "SPChatPollResponse \<Rightarrow> cint" where [simp]: "getListNum m = pr_listNum m"
definition getTotalList :: "SPChatPollResponse \<Rightarrow> cint" where [simp]: "getTotalList m = pr_totalList m"
definition getMsgList :: "SPChatPollResponse \<Rightarrow> SPChatMsgMessage list" where [simp]: "getMsgList m = pr_msgList m"

definition pr_setUsername :: "bytes \<Rightarrow> SPChatPollResponse \<Rightarrow> SPChatPollResponse res" where
  "pr_setUsername username m =
     (if \<not> validUsername username then spchat_throw BAD_USERNAME_EXCEPTION
      else Inr (m\<lparr>pr_username := username\<rparr>))"

definition pr_setListNum :: "cint \<Rightarrow> SPChatPollResponse \<Rightarrow> SPChatPollResponse res" where
  "pr_setListNum n m =
     (if \<not> validPositiveNum n then spchat_throw NEGATIVE_NUM_EXCEPTION
      else Inr (m\<lparr>pr_listNum := n\<rparr>))"

definition pr_setTotalList :: "cint \<Rightarrow> SPChatPollResponse \<Rightarrow> SPChatPollResponse res" where
  "pr_setTotalList n m =
     (if \<not> validPositiveNum n then spchat_throw NEGATIVE_NUM_EXCEPTION
      else Inr (m\<lparr>pr_totalList := n\<rparr>))"

definition pr_setMsgList :: "SPChatMsgMessage list \<Rightarrow> SPChatPollResponse \<Rightarrow> SPChatPollResponse res" where
  "pr_setMsgList msgs m = Inr (m\<lparr>pr_msgList := msgs\<rparr>)"

definition pr_uninit :: SPChatPollResponse where
  "pr_uninit = \<lparr>pr_username = [], pr_msgList = [], pr_listNum = 0, pr_totalList = 0\<rparr>"

definition SPChatPollResponse_new ::
  "bytes \<Rightarrow> SPChatMsgMessage list \<Rightarrow> cint \<Rightarrow> cint \<Rightarrow> SPChatPollResponse res" where
  "SPChatPollResponse_new username msgList listNum totalList =
     rbind (pr_setUsername username pr_uninit) (\<lambda>m.
     rbind (pr_setListNum listNum m) (\<lambda>m.
     rbind (pr_setTotalList totalList m) (\<lambda>m.
     pr_setMsgList msgList m)))"

text \<open>
  \<open>for (int i = 0; i < msgNum; i++)\<close>: a negative count runs the loop zero times.
\<close>

definition decodeMsgList ::
  "endian \<times> (nat \<Rightarrow> clong) \<Rightarrow> bytes \<Rightarrow> int \<Rightarrow> int \<Rightarrow> (SPChatMsgMessage list \<times> int) res" where
  "decodeMsgList c buf len pos =
     rbind (decodeInt (fst c) buf len pos) (\<lambda>(msgNum, pos).
       decode_loop (\<lambda>i. SPChatMsgMessage_decode (fst c, snd c i)) buf len pos 0 (nat (sint msgNum)))"

definition SPChatPollResponse_decode ::
  "endian \<times> (nat \<Rightarrow> clong) \<Rightarrow> bytes \<Rightarrow> int \<Rightarrow> SPChatPollResponse res" where
  "SPChatPollResponse_decode c buf len =
     (let pos = 0 in
      rbind (decodeString (fst c) buf len pos) (\<lambda>(username, pos).
      rbind (pr_setUsername username pr_uninit) (\<lambda>m.
      rbind (decodeInt (fst c) buf len pos) (\<lambda>(listNum, pos).
      rbind (pr_setListNum listNum m) (\<lambda>m.
      rbind (decodeInt (fst c) buf len pos) (\<lambda>(totalList, pos).
      rbind (pr_setTotalList totalList m) (\<lambda>m.
      rbind (decodeMsgList c buf len pos) (\<lambda>(msgList, pos).
      Inr (m\<lparr>pr_msgList := msgList\<rparr>)))))))))"

primrec encodeMessages :: "endian \<Rightarrow> bytes \<Rightarrow> SPChatMsgMessage list \<Rightarrow> bytes" where
  "encodeMessages e buf [] = buf"
| "encodeMessages e buf (m # ms) = encodeMessages e (encodeMessage e buf m) ms"

definition encodeMsgList :: "endian \<Rightarrow> bytes \<Rightarrow> SPChatMsgMessage list \<Rightarrow> bytes" where
  "encodeMsgList e buf ms = encodeMessages e (encodeInt e buf (word_of_nat (length ms))) ms"

definition pr_encodeMiddle :: "endian \<Rightarrow> bytes \<Rightarrow> SPChatPollResponse \<Rightarrow> bytes" where
  "pr_encodeMiddle e buf m =
     (let buf = encodeString e buf (pr_username m);
          buf = encodeInt e buf (pr_listNum m);
          buf = encodeInt e buf (pr_totalList m)
      in encodeMsgList e buf (pr_msgList m))"

text \<open>The sum runs in \<open>long\<close>, one \<open>length += ...\<close> per element.\<close>

definition pr_getPayloadLength :: "SPChatPollResponse \<Rightarrow> clong" where
  "pr_getPayloadLength m =
     fold (\<lambda>x length. length + mm_getPayloadLength x) (pr_msgList m)
       (word_of_nat (INT_SIZE + length (pr_username m) + INT_SIZE + INT_SIZE + INT_SIZE))"

definition pr_valid :: "SPChatPollResponse \<Rightarrow> bool" where
  "pr_valid m \<longleftrightarrow> validUsername (pr_username m) \<and> ok_string (pr_username m)
     \<and> validPositiveNum (pr_listNum m) \<and> validPositiveNum (pr_totalList m)
     \<and> length (pr_msgList m) < 2 ^ 31 \<and> list_all mm_valid (pr_msgList m)"

definition pr_good :: "endian \<times> (nat \<Rightarrow> clong) \<Rightarrow> bool" where
  "pr_good c \<longleftrightarrow> (\<forall>i. validPositiveNum (snd c i))"

section \<open>The message list\<close>

lemma encodeMessages_concat:
  "encodeMessages e buf ms = buf @ concat (map (encodeMessage e []) ms)"
proof (induction ms arbitrary: buf)
  case (Cons m ms)
  show ?case using encodeMessage_append [of e buf m] by (simp add: Cons)
qed simp

lemma encodeMsgList_append:
  "encodeMsgList e buf ms
     = buf @ encodeInt e [] (word_of_nat (length ms)) @ concat (map (encodeMessage e []) ms)"
  unfolding encodeMsgList_def encodeMessages_concat by (subst encodeInt_append) simp

lemma pr_middle:
  "pr_encodeMiddle e buf m = buf @ encodeString e [] (pr_username m) @ encodeInt e [] (pr_listNum m)
     @ encodeInt e [] (pr_totalList m) @ encodeMsgList e [] (pr_msgList m)"
  unfolding pr_encodeMiddle_def Let_def
  by (subst encodeMsgList_append, subst encodeInt_append, subst encodeInt_append,
      subst encodeString_append) (simp add: encodeMsgList_append [of e "[]"])

lemma fold_payload_length:
  "fold (\<lambda>x length. length + mm_getPayloadLength x) ms n
     = n + word_of_nat (length (concat (map (encodeMessage e []) ms)))"
  by (induction ms arbitrary: n) (simp_all add: mm_payload_length [where e = e] add.assoc)

lemma pr_payload_length:
  "pr_getPayloadLength m = word_of_nat (length (pr_encodeMiddle e [] m))"
  unfolding pr_getPayloadLength_def fold_payload_length [where e = e] size_defs
  by (simp add: pr_middle encodeMsgList_append add.assoc flip: of_nat_add)

lemma msgList_reads:
  assumes r: "rest_at buf k (acc @ r0)" and throws: "\<And>m. P (spchat_throw m)"
    and returns: "\<And>ms pos. length ms < 2 ^ 31 \<Longrightarrow> list_all mm_valid ms \<Longrightarrow> P (f ms pos)"
  shows "P (rbind (decodeMsgList c buf (int (length buf)) (int (k + length acc))) (\<lambda>(ms, pos). f ms pos))"
proof -
  have "P (rbind (decodeInt (fst c) buf (int (length buf)) (int (k + length acc))) (\<lambda>(n, pos).
      rbind (decode_loop (\<lambda>i. SPChatMsgMessage_decode (fst c, snd c i)) buf (int (length buf)) pos 0
        (nat (sint n))) (\<lambda>(ms, pos). f ms pos)))"
  proof (rule int.reads_plain [where P = P, OF r throws])
    fix n r assume r: "rest_at buf k ((acc @ encodeInt LittleEndian [] n) @ r)"
    let ?k = "k + length (acc @ encodeInt LittleEndian [] n)"
    have le: "?k \<le> length buf" using rest_at_length [OF r] by simp
    let ?l = "decode_loop (\<lambda>i. SPChatMsgMessage_decode (fst c, snd c i)) buf (int (length buf)) (int ?k) 0
        (nat (sint n))"
    from msg.loop_stops [OF le, of "\<lambda>i. (fst c, snd c i)" 0 "nat (sint n)"] show "P (rbind ?l (\<lambda>(ms, pos). f ms pos))"
    proof (cases rule: only_spchat_cases)
      case (1 a)
      obtain ms q where a: "a = (ms, q)" by (cases a)
      from msg.loop_faithful [OF le 1 [unfolded a]]
      have "length ms = nat (sint n)" "list_all mm_valid ms" by auto
      moreover have "nat (sint n) < 2 ^ 31" using sint_lt [of n] by (simp add: nat_less_iff)
      ultimately show ?thesis unfolding 1 a by (simp add: returns)
    next
      case (2 m)
      then show ?thesis unfolding 2 by (simp add: throws)
    qed
  qed
  then show ?thesis
    unfolding decodeMsgList_def by (simp add: rbind_assoc case_prod_beta' del: of_nat_add)
qed

lemma msgList_accepts:
  assumes c: "pr_good c" and n: "length ms < 2 ^ 31" and ms: "list_all mm_valid ms"
    and r: "rest_at buf k (acc @ encodeMsgList LittleEndian [] ms @ r)"
  shows "decodeMsgList c buf (int (length buf)) (int (k + length acc))
       = Inr (ms, int (k + length acc + length (encodeMsgList LittleEndian [] ms)))"
proof -
  let ?n = "word_of_nat (length ms) :: cint" and ?M = "concat (map (encodeMessage LittleEndian []) ms)"
  have r1: "rest_at buf k (acc @ encodeInt LittleEndian [] ?n @ ?M @ r)"
    and r2: "rest_at buf k ((acc @ encodeInt LittleEndian [] ?n) @ ?M @ r)"
    using r by (simp_all add: encodeMsgList_append)
  have sn: "nat (sint ?n) = length ms" using n by (simp add: sint_word_of_nat32)
  from msg.loop_accepts [OF _ ms rest_at_append [OF r2], of "\<lambda>i. (fst c, snd c i)" 0] c
  show ?thesis
    unfolding decodeMsgList_def int.accepts_seq [OF TrueI TrueI r1] prod.case sn
    by (simp add: pr_good_def mm_good_def encodeMsgList_append add.assoc)
qed

lemma pr_decode_reads:
  assumes throws: "\<And>m. P (spchat_throw m)" and returns: "\<And>m. pr_valid m \<Longrightarrow> P (Inr m)"
  shows "P (SPChatPollResponse_decode c buf (int (length buf)))"
proof -
  have r0: "rest_at buf 0 ([] @ buf)" by simp
  have "P (rbind (decodeString (fst c) buf (int (length buf)) (int (0 + length ([] :: bytes)))) (\<lambda>(username, pos).
      rbind (pr_setUsername username pr_uninit) (\<lambda>m.
      rbind (decodeInt (fst c) buf (int (length buf)) pos) (\<lambda>(listNum, pos).
      rbind (pr_setListNum listNum m) (\<lambda>m.
      rbind (decodeInt (fst c) buf (int (length buf)) pos) (\<lambda>(totalList, pos).
      rbind (pr_setTotalList totalList m) (\<lambda>m.
      rbind (decodeMsgList c buf (int (length buf)) pos) (\<lambda>(msgList, pos).
      Inr (m\<lparr>pr_msgList := msgList\<rparr>)))))))))"
    unfolding pr_setUsername_def pr_setListNum_def pr_setTotalList_def
    apply (rule str.reads_guard [where P = P, OF r0 throws])
    apply (rule int.reads_guard [where P = P, OF _ throws], assumption)
    apply (rule int.reads_guard [where P = P, OF _ throws], assumption)
    apply (rule msgList_reads [where P = P, OF _ throws], assumption)
    apply (rule returns, simp add: pr_valid_def)
    done
  then show ?thesis by (simp add: SPChatPollResponse_decode_def)
qed

lemma pr_decode_middle:
  assumes c: "pr_good c" and m: "pr_valid m"
  shows "SPChatPollResponse_decode c (pr_encodeMiddle LittleEndian [] m)
           (int (length (pr_encodeMiddle LittleEndian [] m))) = Inr m"
proof -
  let ?U = "encodeString LittleEndian [] (pr_username m)" and ?N = "encodeInt LittleEndian [] (pr_listNum m)"
  let ?T = "encodeInt LittleEndian [] (pr_totalList m)" and ?M = "encodeMsgList LittleEndian [] (pr_msgList m)"
  let ?b = "pr_encodeMiddle LittleEndian [] m"
  note v = m [unfolded pr_valid_def]
  have r1: "rest_at ?b 0 ([] @ ?U @ ?N @ ?T @ ?M)" and r2: "rest_at ?b 0 (([] @ ?U) @ ?N @ ?T @ ?M)"
    and r3: "rest_at ?b 0 ((([] @ ?U) @ ?N) @ ?T @ ?M)" and r4: "rest_at ?b 0 (((([] @ ?U) @ ?N) @ ?T) @ ?M @ [])"
    by (simp_all add: pr_middle)
  have "rbind (decodeString (fst c) ?b (int (length ?b)) (int (0 + length ([] :: bytes)))) (\<lambda>(username, pos).
      rbind (pr_setUsername username pr_uninit) (\<lambda>m.
      rbind (decodeInt (fst c) ?b (int (length ?b)) pos) (\<lambda>(listNum, pos).
      rbind (pr_setListNum listNum m) (\<lambda>m.
      rbind (decodeInt (fst c) ?b (int (length ?b)) pos) (\<lambda>(totalList, pos).
      rbind (pr_setTotalList totalList m) (\<lambda>m.
      rbind (decodeMsgList c ?b (int (length ?b)) pos) (\<lambda>(msgList, pos).
      Inr (m\<lparr>pr_msgList := msgList\<rparr>)))))))) = Inr m"
    by (simp only: str.accepts_seq [OF TrueI _ r1] int.accepts_seq [OF TrueI TrueI r2]
        int.accepts_seq [OF TrueI TrueI r3] msgList_accepts [OF c _ _ r4] v
        prod.case rbind_Inr pr_setUsername_def pr_setListNum_def pr_setTotalList_def)
      (simp add: pr_uninit_def)
  then show ?thesis by (simp add: SPChatPollResponse_decode_def)
qed

interpretation pollResponse: payload_class pr_encodeMiddle pr_getPayloadLength SPChatPollResponse_decode
  pr_valid pr_valid pr_good
proof
  fix c :: "endian \<times> (nat \<Rightarrow> clong)" and e :: endian and buf :: bytes and m
  show "pr_encodeMiddle e buf m = buf @ pr_encodeMiddle e [] m" by (simp add: pr_middle)
  show "pr_getPayloadLength m = word_of_nat (length (pr_encodeMiddle e [] m))" by (rule pr_payload_length)
  show "only_spchat (SPChatPollResponse_decode c buf (int (length buf)))"
    by (rule pr_decode_reads) simp_all
  show "SPChatPollResponse_decode c buf (int (length buf)) = Inr m \<Longrightarrow> pr_valid m"
    using pr_decode_reads [where P = "\<lambda>r. r = Inr m \<longrightarrow> pr_valid m", of c buf] by auto
  show "SPChatPollResponse_decode c [] 0 \<noteq> Inr m"
    by (simp add: SPChatPollResponse_decode_def decodeString_def decodePositiveInt_def decodeInt_def INT_SIZE_def)
qed (rule pr_decode_middle)

lemma pr_setters_valid:
  assumes "pr_valid m"
  shows "ok_string s \<Longrightarrow> pr_setUsername s m = Inr m' \<Longrightarrow> pr_valid m'"
    and "pr_setListNum i m = Inr m' \<Longrightarrow> pr_valid m'"
    and "pr_setTotalList i m = Inr m' \<Longrightarrow> pr_valid m'"
    and "length ms < 2 ^ 31 \<Longrightarrow> list_all mm_valid ms \<Longrightarrow> pr_setMsgList ms m = Inr m' \<Longrightarrow> pr_valid m'"
  using assms by (auto simp: pr_setUsername_def pr_setListNum_def pr_setTotalList_def pr_setMsgList_def
      pr_valid_def split: if_splits)

end
