(* ===== verification/Message.thy ===== *)
theory Message
  imports Sockets Login Challenge Response Ack Poll PollResponse
begin

text \<open>
  The class hierarchy of \<open>SPChatMessage\<close> and its framing: \<open>encode\<close>, \<open>encodeHeader\<close>,
  \<open>decodeHeader\<close> and the factory \<open>SPChatMessage::decode\<close>
  (\<open>mockServer/protocol/SPChatMessage.cpp\<close>). Virtual calls are dispatched on the
  constructor of \<open>SPChatMessage\<close>. The lemmas hold for all subclasses at once, through the
  contract \<open>payload_class\<close> that each of them provides.
\<close>

section \<open>The host\<close>

text \<open>
  What a run depends on besides its inputs. \<open>max_vla\<close>: the largest variable-length array
  the stack can hold. \<open>stale_header t i\<close>: what byte \<open>i\<close> of the header buffer contains in
  the \<open>t\<close>-th call of \<open>decode\<close> before anything is received into it. \<open>stale_time t i\<close>: the
  uninitialised member tested by the constructor of the \<open>i\<close>-th list element in that call.
\<close>

record host =
  host_endian :: endian
  max_vla :: int
  stale_header :: "nat \<Rightarrow> nat \<Rightarrow> byte"
  stale_time :: "nat \<Rightarrow> nat \<Rightarrow> clong"

section \<open>The class hierarchy\<close>

datatype SPChatMessage =
    MLogin SPChatLogin | MChallenge SPChatChallenge | MResponse SPChatResponse
  | MACK SPChatACK | MPoll SPChatPoll | MPollResponse SPChatPollResponse
  | MMsg SPChatMsgMessage

definition SPCHATLOGIN_TYPE :: byte where "SPCHATLOGIN_TYPE = 0"
definition SPCHATCHALLENGE_TYPE :: byte where "SPCHATCHALLENGE_TYPE = 1"
definition SPCHATRESPONSE_TYPE :: byte where "SPCHATRESPONSE_TYPE = 2"
definition SPCHATACK_TYPE :: byte where "SPCHATACK_TYPE = 3"
definition SPCHATPOLL_TYPE :: byte where "SPCHATPOLL_TYPE = 5"
definition SPCHATPOLLRESPONSE_TYPE :: byte where "SPCHATPOLLRESPONSE_TYPE = 6"

lemmas type_consts = SPCHATLOGIN_TYPE_def SPCHATCHALLENGE_TYPE_def SPCHATRESPONSE_TYPE_def
  SPCHATACK_TYPE_def SPCHATPOLL_TYPE_def SPCHATPOLLRESPONSE_TYPE_def

fun getType :: "SPChatMessage \<Rightarrow> byte" where
  "getType (MLogin m) = SPCHATLOGIN_TYPE"
| "getType (MChallenge m) = SPCHATCHALLENGE_TYPE"
| "getType (MResponse m) = SPCHATRESPONSE_TYPE"
| "getType (MACK m) = SPCHATACK_TYPE"
| "getType (MPoll m) = SPCHATPOLL_TYPE"
| "getType (MPollResponse m) = SPCHATPOLLRESPONSE_TYPE"
| "getType (MMsg m) = 12"

text \<open>\<open>SPChatMsgMessage\<close> does not override \<open>encodeMiddle\<close>: the base class writes nothing.\<close>

fun encodeMiddle :: "endian \<Rightarrow> bytes \<Rightarrow> SPChatMessage \<Rightarrow> bytes" where
  "encodeMiddle e buf (MLogin m) = lg_encodeMiddle e buf m"
| "encodeMiddle e buf (MChallenge m) = ch_encodeMiddle e buf m"
| "encodeMiddle e buf (MResponse m) = rs_encodeMiddle e buf m"
| "encodeMiddle e buf (MACK m) = ack_encodeMiddle e buf m"
| "encodeMiddle e buf (MPoll m) = pl_encodeMiddle e buf m"
| "encodeMiddle e buf (MPollResponse m) = pr_encodeMiddle e buf m"
| "encodeMiddle e buf (MMsg m) = buf"

fun getPayloadLength :: "SPChatMessage \<Rightarrow> clong" where
  "getPayloadLength (MLogin m) = lg_getPayloadLength m"
| "getPayloadLength (MChallenge m) = ch_getPayloadLength m"
| "getPayloadLength (MResponse m) = rs_getPayloadLength m"
| "getPayloadLength (MACK m) = ack_getPayloadLength m"
| "getPayloadLength (MPoll m) = pl_getPayloadLength m"
| "getPayloadLength (MPollResponse m) = pr_getPayloadLength m"
| "getPayloadLength (MMsg m) = mm_getPayloadLength m"

section \<open>Encoding\<close>

definition HEADER :: bytes where "HEADER = ascii ''SPChat/1.0''"
definition HEADER_LENGTH :: nat where "HEADER_LENGTH = 10"
definition TOTAL_HEADER_LENGTH :: nat where "TOTAL_HEADER_LENGTH = 19"
definition TYPE_POSITION :: nat where "TYPE_POSITION = 10"
definition LENGTH_POSITION :: nat where "LENGTH_POSITION = 11"

lemmas header_consts = HEADER_LENGTH_def TOTAL_HEADER_LENGTH_def TYPE_POSITION_def LENGTH_POSITION_def

definition encodeHeader :: "endian \<Rightarrow> bytes \<Rightarrow> SPChatMessage \<Rightarrow> bytes" where
  "encodeHeader e buf m = encodeLong e (buf @ HEADER @ [getType m]) (getPayloadLength m)"

definition encode :: "endian \<Rightarrow> bytes \<Rightarrow> SPChatMessage \<Rightarrow> bytes" where
  "encode e buf m = encodeMiddle e (encodeHeader e buf m) m"

definition getMessageLength :: "SPChatMessage \<Rightarrow> clong" where
  "getMessageLength m = getPayloadLength m"

definition getTotalMsgLength :: "SPChatMessage \<Rightarrow> clong" where
  "getTotalMsgLength m = getPayloadLength m + word_of_nat TOTAL_HEADER_LENGTH"

section \<open>Decoding\<close>

text \<open>The comparison loop of \<open>decodeHeader\<close>, from index \<open>i\<close> on.\<close>

primrec match_header :: "bytes \<Rightarrow> int \<Rightarrow> bytes \<Rightarrow> unit res" where
  "match_header buf i [] = Inr ()"
| "match_header buf i (c # cs) =
     rbind (rd buf i) (\<lambda>b.
       if c \<noteq> b then spchat_throw BAD_HEADER_EXCEPTION else match_header buf (i + 1) cs)"

definition decodeHeader :: "endian \<Rightarrow> bytes \<Rightarrow> int \<Rightarrow> (byte \<times> clong) res" where
  "decodeHeader e buf len =
     rbind (match_header buf 0 (take HEADER_LENGTH HEADER)) (\<lambda>_.
     rbind (rd buf (int TYPE_POSITION)) (\<lambda>t.
     rbind (decodeLong e buf (int TOTAL_HEADER_LENGTH) (int LENGTH_POSITION)) (\<lambda>(n, pos).
     Inr (t, n))))"

text \<open>The \<open>switch\<close> of \<open>decode\<close> on the type byte; \<open>len\<close> is narrowed to an \<open>int\<close>.\<close>

definition decode_payload :: "host \<Rightarrow> nat \<Rightarrow> byte \<Rightarrow> bytes \<Rightarrow> int \<Rightarrow> SPChatMessage res" where
  "decode_payload h t ty buf len =
     (let e = host_endian h in
      if ty = SPCHATLOGIN_TYPE then rbind (SPChatLogin_decode e buf len) (\<lambda>m. Inr (MLogin m))
      else if ty = SPCHATCHALLENGE_TYPE then rbind (SPChatChallenge_decode e buf len) (\<lambda>m. Inr (MChallenge m))
      else if ty = SPCHATACK_TYPE then rbind (SPChatACK_decode e buf len) (\<lambda>m. Inr (MACK m))
      else if ty = SPCHATRESPONSE_TYPE then rbind (SPChatResponse_decode e buf len) (\<lambda>m. Inr (MResponse m))
      else if ty = SPCHATPOLL_TYPE then rbind (SPChatPoll_decode e buf len) (\<lambda>m. Inr (MPoll m))
      else if ty = SPCHATPOLLRESPONSE_TYPE then
        rbind (SPChatPollResponse_decode (e, stale_time h t) buf len) (\<lambda>m. Inr (MPollResponse m))
      else spchat_throw NO_SUCH_TYPE_EXCEPTION)"

text \<open>
  \<open>decode\<close> ignores how many header bytes \<open>recvFully\<close> delivered: the rest of the buffer
  keeps its stale content. \<open>unsigned char buf[len]\<close> needs \<open>len\<close> to be a possible array
  size; \<open>len\<close> is then passed to \<open>recvFully\<close> as an \<open>int\<close>.
\<close>

definition SPChatMessage_decode :: "host \<Rightarrow> nat \<Rightarrow> sock \<Rightarrow> SPChatMessage res \<times> sock" where
  "SPChatMessage_decode h t s =
     (case recvFully (int TOTAL_HEADER_LENGTH) s of
        (Inl x, s) \<Rightarrow> (Inl x, s)
      | (Inr got, s) \<Rightarrow>
          let headerArray = map (\<lambda>i. if i < length got then got ! i else stale_header h t i)
                              [0..<TOTAL_HEADER_LENGTH] in
          (case decodeHeader (host_endian h) headerArray (int TOTAL_HEADER_LENGTH) of
             Inl x \<Rightarrow> (Inl x, s)
           | Inr (ty, len) \<Rightarrow>
               if sint len < 0 \<or> max_vla h < sint len then (Inl (Undefined BadArraySize), s)
               else (case recvFully (sint (ucast len :: cint)) s of
                   (Inl x, s) \<Rightarrow> (Inl x, s)
                 | (Inr buf, s) \<Rightarrow>
                     if int (length buf) \<noteq> sint len then (spchat_throw TOO_SHORT_EXCEPTION, s)
                     else (decode_payload h t ty buf (int (length buf)), s))))"

section \<open>Encodings as frames\<close>

text \<open>A frame: the nineteen header bytes of a message of type \<open>ty\<close> with \<open>n\<close> payload bytes.\<close>

definition frame_header :: "endian \<Rightarrow> byte \<Rightarrow> clong \<Rightarrow> bytes" where
  "frame_header e ty n = HEADER @ [ty] @ encodeLong e [] n"

lemma length_HEADER [simp]: "length HEADER = 10"
  by (simp add: HEADER_def)

lemma length_frame_header [simp]: "length (frame_header e ty n) = 19"
  by (simp add: frame_header_def)

lemma encodeMiddle_append: "encodeMiddle e buf m = buf @ encodeMiddle e [] m"
  by (cases m) (simp_all only: encodeMiddle.simps append_Nil2 login.middle_append [of e buf]
      challenge.middle_append [of e buf] response.middle_append [of e buf] ack.middle_append [of e buf]
      poll.middle_append [of e buf] pollResponse.middle_append [of e buf])

lemma encode_frame:
  "encode e buf m = buf @ frame_header e (getType m) (getPayloadLength m) @ encodeMiddle e [] m"
  unfolding encode_def encodeHeader_def frame_header_def
  by (subst encodeMiddle_append, subst encodeLong_append) simp

text \<open>The class invariant, and the objects whose encoding is what their header announces.\<close>

fun msg_valid :: "SPChatMessage \<Rightarrow> bool" where
  "msg_valid (MLogin m) = lg_valid m"
| "msg_valid (MChallenge m) = ch_valid m"
| "msg_valid (MResponse m) = rs_valid m"
| "msg_valid (MACK m) = True"
| "msg_valid (MPoll m) = pl_valid m"
| "msg_valid (MPollResponse m) = pr_valid m"
| "msg_valid (MMsg m) = False"

fun msg_sendable :: "SPChatMessage \<Rightarrow> bool" where
  "msg_sendable (MLogin m) = lg_sendable m"
| "msg_sendable (MChallenge m) = ch_valid m"
| "msg_sendable (MResponse m) = rs_sendable m"
| "msg_sendable (MACK m) = True"
| "msg_sendable (MPoll m) = pl_valid m"
| "msg_sendable (MPollResponse m) = pr_valid m"
| "msg_sendable (MMsg m) = False"

definition host_good :: "host \<Rightarrow> bool" where
  "host_good h \<longleftrightarrow> (\<forall>t i. validPositiveNum (stale_time h t i))"

lemma payload_length_sendable:
  "msg_sendable m \<Longrightarrow> getPayloadLength m = word_of_nat (length (encodeMiddle e [] m))"
  by (cases m) (simp_all only: msg_sendable.simps encodeMiddle.simps getPayloadLength.simps
      login.payload_length challenge.payload_length response.payload_length ack.payload_length
      poll.payload_length pollResponse.payload_length)

lemma decode_payload_middle:
  assumes "msg_sendable m" and "host_good h"
  shows "decode_payload h t (getType m) (encodeMiddle LittleEndian [] m)
           (int (length (encodeMiddle LittleEndian [] m))) = Inr m"
  using assms pollResponse.from_middle [of "(host_endian h, stale_time h t)"]
  by (cases m) (simp_all add: decode_payload_def type_consts login.from_middle challenge.from_middle
      response.from_middle ack.from_middle poll.from_middle host_good_def pr_good_def)

lemma decode_payload_valid:
  "decode_payload h t ty buf (int (length buf)) = Inr m \<Longrightarrow> msg_valid m \<and> getType m = ty"
  by (auto simp: decode_payload_def rbind_eq_Inr Let_def split: if_splits
      dest: login.from_valid challenge.from_valid response.from_valid poll.from_valid
        pollResponse.from_valid)

lemma decode_payload_stops:
  "buf \<noteq> [] \<Longrightarrow> only_spchat (decode_payload h t ty buf (int (length buf)))"
  by (auto simp: decode_payload_def Let_def intro!: only_spchat_rbind login.from_stops
      challenge.from_stops response.from_stops ack.from_stops poll.from_stops pollResponse.from_stops)

lemma decode_payload_empty: "decode_payload h t ty [] 0 \<noteq> Inr m"
  by (auto simp: decode_payload_def rbind_eq_Inr Let_def login.from_empty challenge.from_empty
      response.from_empty ack.from_empty poll.from_empty pollResponse.from_empty split: if_splits)

lemma message_middle_nonempty:
  assumes "msg_sendable m"
  shows "encodeMiddle LittleEndian [] m \<noteq> []"
proof
  let ?h = "\<lparr>host_endian = LittleEndian, max_vla = 0, stale_header = \<lambda>_ _. 0, stale_time = \<lambda>_ _. 0\<rparr>"
  assume "encodeMiddle LittleEndian [] m = []"
  moreover have "host_good ?h" by (simp add: host_good_def validPositiveNum_def)
  ultimately show False
    using decode_payload_middle [OF assms, of ?h 0] by (simp add: decode_payload_empty)
qed

section \<open>The header\<close>

lemma match_header_at:
  "off + length cs \<le> length buf \<Longrightarrow>
   match_header buf (int off) cs
     = (if take (length cs) (drop off buf) = cs then Inr () else spchat_throw BAD_HEADER_EXCEPTION)"
proof (induction cs arbitrary: off)
  case (Cons c cs)
  then have "match_header buf (int (Suc off)) cs
      = (if take (length cs) (drop (Suc off) buf) = cs then Inr () else spchat_throw BAD_HEADER_EXCEPTION)"
    by (intro Cons.IH) simp
  moreover have "drop off buf = buf ! off # drop (Suc off) buf"
    using Cons.prems by (intro Cons_nth_drop_Suc [symmetric]) simp
  ultimately show ?case using Cons.prems by (auto simp: rd_in add.commute)
qed simp

text \<open>On nineteen bytes: a frame header is taken apart, anything else is refused.\<close>

lemma decodeHeader_frame:
  "decodeHeader e (frame_header LittleEndian ty n) 19 = Inr (ty, n)"
proof -
  let ?b = "frame_header LittleEndian ty n"
  have "match_header ?b 0 HEADER = Inr ()"
    using match_header_at [of 0 HEADER ?b] by (simp add: frame_header_def)
  moreover have "rd ?b 10 = Inr ty"
    using rd_append [of HEADER ty "encodeLong LittleEndian [] n"] by (simp add: frame_header_def)
  moreover have "decodeLong e ?b 19 11 = Inr (n, 19)"
    using decodeLong_at [of ?b 11 n "[]" e] by (simp add: frame_header_def rest_at_def)
  ultimately show ?thesis by (simp add: decodeHeader_def header_consts)
qed

lemma frame_header_exists:
  assumes "length buf = 19" and "take 10 buf = HEADER"
  obtains ty n where "buf = frame_header LittleEndian ty n"
proof -
  obtain n r where n: "rest_at buf 11 (encodeLong LittleEndian [] n @ r)"
    by (rule decodeLong_cases [of 11 buf LittleEndian]) (use assms(1) in auto)
  then have "r = []" using rest_at_length [OF n] assms(1) by simp
  moreover have "buf = take 10 buf @ [buf ! 10] @ drop 11 buf"
    using assms(1) id_take_nth_drop [of 10 buf] by simp
  ultimately show ?thesis
    using that [of "buf ! 10" n] n assms(2) by (simp add: frame_header_def rest_at_def)
qed

lemma decodeHeader_cases:
  assumes "length buf = 19"
  obtains "decodeHeader e buf 19 = spchat_throw BAD_HEADER_EXCEPTION" "take 10 buf \<noteq> HEADER"
  | ty n where "buf = frame_header LittleEndian ty n" "decodeHeader e buf 19 = Inr (ty, n)"
proof (cases "take 10 buf = HEADER")
  case True
  with assms obtain ty n where "buf = frame_header LittleEndian ty n" by (rule frame_header_exists)
  with that(2) decodeHeader_frame [of e ty n] show ?thesis by blast
next
  case False
  with assms match_header_at [of 0 HEADER buf] that(1) show ?thesis
    by (simp add: decodeHeader_def header_consts)
qed

section \<open>The factory\<close>

definition header_buffer :: "host \<Rightarrow> nat \<Rightarrow> bytes \<Rightarrow> bytes" where
  "header_buffer h t got = map (\<lambda>i. if i < length got then got ! i else stale_header h t i) [0..<19]"

lemma header_buffer_full: "length got = 19 \<Longrightarrow> header_buffer h t got = got"
  by (rule nth_equalityI) (simp_all add: header_buffer_def)

text \<open>What \<open>decode\<close> does once the header has announced \<open>n\<close> bytes of type \<open>ty\<close>.\<close>

definition decode_body :: "host \<Rightarrow> nat \<Rightarrow> byte \<Rightarrow> clong \<Rightarrow> sock \<Rightarrow> SPChatMessage res \<times> sock" where
  "decode_body h t ty len s =
     (if sint len < 0 \<or> max_vla h < sint len then (Inl (Undefined BadArraySize), s)
      else (case recvFully (sint (ucast len :: cint)) s of
          (Inl x, s) \<Rightarrow> (Inl x, s)
        | (Inr buf, s) \<Rightarrow>
            if int (length buf) \<noteq> sint len then (spchat_throw TOO_SHORT_EXCEPTION, s)
            else (decode_payload h t ty buf (int (length buf)), s)))"

lemma decode_split:
  "SPChatMessage_decode h t s =
     (case recvFully 19 s of
        (Inl x, s) \<Rightarrow> (Inl x, s)
      | (Inr got, s) \<Rightarrow>
          (case decodeHeader (host_endian h) (header_buffer h t got) 19 of
             Inl x \<Rightarrow> (Inl x, s)
           | Inr (ty, n) \<Rightarrow> decode_body h t ty n s))"
  by (simp add: SPChatMessage_decode_def decode_body_def header_buffer_def TOTAL_HEADER_LENGTH_def
      Let_def cong: sum.case_cong prod.case_cong)

lemma decode_frame:
  assumes "pending s = frame_header LittleEndian ty n @ rest"
  shows "\<exists>q. SPChatMessage_decode h t s = decode_body h t ty n (s\<lparr>inq := q\<rparr>) \<and> concat q = rest"
proof -
  have "19 \<le> length (pending s)" by (simp add: assms)
  from recvFully_enough [of 19 s, OF _ this] obtain q where
    "recvFully 19 s = (Inr (frame_header LittleEndian ty n), s\<lparr>inq := q\<rparr>)" "concat q = rest"
    by (auto simp: assms)
  then show ?thesis
    by (auto simp: decode_split header_buffer_full decodeHeader_frame)
qed

lemma sint_ucast_small:
  assumes "0 \<le> sint (n :: clong)" and "sint n < 2 ^ 31"
  shows "sint (ucast n :: cint) = sint n"
proof -
  have "sint (ucast n :: cint) = signed_take_bit 31 (uint n)" by (simp add: signed_ucast_eq)
  also have "\<dots> = signed_take_bit 31 (signed_take_bit 63 (uint n))"
    by (simp add: signed_take_bit_signed_take_bit)
  also have "\<dots> = signed_take_bit 31 (sint n)" by (simp add: sint_uint)
  finally show ?thesis using assms by (simp add: signed_take_bit_int_eq_self)
qed

text \<open>The array size the receiver's host and its \<open>int\<close> arithmetic can handle.\<close>

definition payload_fits :: "host \<Rightarrow> int \<Rightarrow> bool" where
  "payload_fits h n \<longleftrightarrow> 0 \<le> n \<and> n \<le> max_vla h \<and> n < 2 ^ 31"

lemma decode_body_enough:
  assumes fits: "payload_fits h (sint n)" and "0 < sint n" and "sint n \<le> int (length (pending s))"
  shows "\<exists>q. decode_body h t ty n s
      = (decode_payload h t ty (take (nat (sint n)) (pending s)) (sint n), s\<lparr>inq := q\<rparr>)
      \<and> concat q = drop (nat (sint n)) (pending s)"
proof -
  let ?n = "nat (sint n)"
  have n: "sint (ucast n :: cint) = int ?n" "sint n = int ?n" "0 < ?n" "?n \<le> length (pending s)"
    using fits assms(2,3) sint_ucast_small [of n] by (auto simp: payload_fits_def nat_le_iff)
  from recvFully_enough [OF n(3,4)] obtain q where
    "recvFully (int ?n) s = (Inr (take ?n (pending s)), s\<lparr>inq := q\<rparr>)" "concat q = drop ?n (pending s)"
    by blast
  then show ?thesis
    using fits n by (auto simp: decode_body_def payload_fits_def min_def)
qed

lemma decode_encode_frame:
  assumes m: "msg_sendable m" and h: "host_good h"
    and fits: "payload_fits h (int (length (encodeMiddle LittleEndian [] m)))"
    and s: "pending s = encode LittleEndian [] m @ rest"
  shows "\<exists>q. SPChatMessage_decode h t s = (Inr m, s\<lparr>inq := q\<rparr>) \<and> concat q = rest"
proof -
  let ?p = "encodeMiddle LittleEndian [] m" and ?n = "getPayloadLength m"
  have n: "sint ?n = int (length ?p)"
    using fits payload_length_sendable [OF m, of LittleEndian]
    by (simp add: payload_fits_def sint_word_of_nat64)
  have "pending s = frame_header LittleEndian (getType m) ?n @ ?p @ rest"
    using s by (simp add: encode_frame)
  from decode_frame [OF this] obtain q where
    q: "SPChatMessage_decode h t s = decode_body h t (getType m) ?n (s\<lparr>inq := q\<rparr>)" "concat q = ?p @ rest"
    by blast
  have p: "pending (s\<lparr>inq := q\<rparr>) = ?p @ rest" using q(2) by (simp add: pending_def)
  have "0 < length ?p" using message_middle_nonempty [OF m] by simp
  from decode_body_enough [of h ?n "s\<lparr>inq := q\<rparr>" t "getType m"] this fits
  show ?thesis
    using decode_payload_middle [OF m h] by (auto simp: q(1) p n)
qed

section \<open>What a successful decode has read\<close>

lemma decode_body_success:
  assumes "decode_body h t ty n s = (Inr m, s')"
  obtains p where "pending s = p @ pending s'" "p \<noteq> []" "sint n = int (length p)"
    "decode_payload h t ty p (int (length p)) = Inr m" "s' = s\<lparr>inq := inq s'\<rparr>"
    "int (length p) \<le> max_vla h"
proof -
  obtain buf where rf: "recvFully (sint (ucast n :: cint)) s = (Inr buf, s')"
    and len: "int (length buf) = sint n" "\<not> (sint n < 0 \<or> max_vla h < sint n)"
    and d: "decode_payload h t ty buf (int (length buf)) = Inr m"
    using assms by (auto simp: decode_body_def split: if_splits prod.splits sum.splits)
  have "buf \<noteq> []" using d by (auto simp: decode_payload_empty)
  with that [of buf] recvFully_takes [OF rf] len d show ?thesis by auto
qed

lemma decode_body_takes:
  assumes "decode_body h t ty n s = (r, s')"
  shows "s' = s\<lparr>inq := inq s'\<rparr>"
  using assms recvFully_takes(1) [of "sint (ucast n :: cint)" s]
  by (auto simp: decode_body_def split: if_splits prod.splits sum.splits)

lemma decode_takes:
  assumes "SPChatMessage_decode h t s = (r, s')"
  shows "s' = s\<lparr>inq := inq s'\<rparr>"
proof -
  obtain r1 s1 where r1: "recvFully 19 s = (r1, s1)" by (cases "recvFully 19 s")
  obtain q where "s1 = s\<lparr>inq := q\<rparr>" using recvFully_takes(1) [OF r1] by blast
  with assms r1 show ?thesis
    by (auto simp: decode_split split: sum.splits prod.splits dest!: decode_body_takes)
qed

text \<open>
  A message is only ever built from a complete frame: although \<open>decode\<close> ignores how much
  of the header arrived, a message constructed on stale header bytes would need payload
  bytes after the end of the stream.
\<close>

lemma decode_success:
  assumes "SPChatMessage_decode h t s = (Inr m, s')"
  obtains n p where "pending s = frame_header LittleEndian (getType m) n @ p @ pending s'"
    "p \<noteq> []" "sint n = int (length p)" "int (length p) \<le> max_vla h"
    "decode_payload h t (getType m) p (int (length p)) = Inr m"
    "msg_valid m" "s' = s\<lparr>inq := inq s'\<rparr>"
proof -
  obtain got s1 where got: "recvFully 19 s = (Inr got, s1)"
    using assms by (auto simp: decode_split split: sum.splits prod.splits)
  have len: "length (header_buffer h t got) = 19" by (simp add: header_buffer_def)
  obtain ty n where hb: "header_buffer h t got = frame_header LittleEndian ty n"
    and b: "decode_body h t ty n s1 = (Inr m, s')"
    using assms got by (cases rule: decodeHeader_cases [OF len, of "host_endian h"])
      (auto simp: decode_split)
  from b show ?thesis
  proof (rule decode_body_success)
    fix p
    assume p: "pending s1 = p @ pending s'" "p \<noteq> []" "sint n = int (length p)"
      "decode_payload h t ty p (int (length p)) = Inr m" "int (length p) \<le> max_vla h"
    have ty: "ty = getType m" "msg_valid m" using decode_payload_valid [OF p(4)] by auto
    have "length got = 19"
    proof (rule ccontr)
      assume "length got \<noteq> 19"
      moreover have "length got \<ge> 19" if "19 \<le> length (pending s)"
        using recvFully_enough [of 19 s] that got by auto
      moreover have "length got \<le> 19" if "19 \<le> length (pending s)"
        using recvFully_enough [of 19 s] that got by auto
      ultimately have "length (pending s) < 19" by force
      from recvFully_short [OF this] got have "pending s1 = []" by (auto simp: pending_def)
      with p(1,2) show False by simp
    qed
    then have g: "got = frame_header LittleEndian ty n" using hb by (simp add: header_buffer_full)
    have "pending s = got @ pending s1" using recvFully_takes(2) [OF got] by simp
    with p that [of n p] ty g decode_takes [OF assms] show ?thesis by simp
  qed
qed

lemma decode_success_shorter:
  "SPChatMessage_decode h t s = (Inr m, s') \<Longrightarrow> length (pending s') < length (pending s)"
  by (erule decode_success) auto

section \<open>Segmentation\<close>

lemma decode_same_input:
  assumes "same_input s t" and "SPChatMessage_decode h n s = (r, s')"
    and "SPChatMessage_decode h n t = (r', t')"
  shows "r = r' \<and> same_input s' t'"
proof -
  have body: "r1 = r2 \<and> same_input s2 t2"
    if "same_input s1 t1" "decode_body h n ty m s1 = (r1, s2)" "decode_body h n ty m t1 = (r2, t2)"
    for s1 t1 ty m r1 r2 s2 t2
  proof -
    let ?n = "sint (ucast m :: cint)"
    obtain a s3 b t3 where rf: "recvFully ?n s1 = (a, s3)" "recvFully ?n t1 = (b, t3)"
      by (cases "recvFully ?n s1"; cases "recvFully ?n t1")
    from recvFully_same_input [OF that(1) rf] that rf show ?thesis
      by (cases a) (auto simp: decode_body_def split: if_splits)
  qed
  obtain a s3 b t3 where rf: "recvFully 19 s = (a, s3)" "recvFully 19 t = (b, t3)"
    by (cases "recvFully 19 s"; cases "recvFully 19 t")
  from recvFully_same_input [OF assms(1) rf] assms(2,3) rf show ?thesis
    by (cases a) (auto simp: decode_split split: sum.splits prod.splits dest: body)
qed

end
