(* ===== verification/Sha256.thy ===== *)
theory Sha256
  imports BabbleBase
begin

text \<open>
  \<open>mockServer/Sha256Lib.h\<close>: the three wrappers that hash a buffer with OpenSSL and print
  the digest in hexadecimal. The digest function is not part of the repository; it is the
  parameter \<open>sha\<close> (documented to return 32 bytes, which is the size of the array \<open>hash\<close>).
\<close>

definition SHA256_DIGEST_LENGTH :: nat where "SHA256_DIGEST_LENGTH = 32"

section \<open>Printing\<close>

definition hex_digit :: "byte \<Rightarrow> byte" where
  "hex_digit n = (if n < 10 then n + 48 else n + 87)"

text \<open>\<open>sprintf(p, "%02x", b)\<close> writes two lower-case digits and a NUL.\<close>

definition sprintf_02x :: "byte \<Rightarrow> bytes" where
  "sprintf_02x b = [hex_digit (drop_bit 4 b), hex_digit (b AND 15), 0]"

text \<open>Writing a run of bytes into an array; a write outside it is undefined.\<close>

definition write_at :: "bytes \<Rightarrow> nat \<Rightarrow> bytes \<Rightarrow> bytes res" where
  "write_at buf i bs =
     (if i + length bs \<le> length buf then Inr (take i buf @ bs @ drop (i + length bs) buf)
      else Inl (Undefined OutOfBounds))"

primrec hex_loop :: "bytes \<Rightarrow> nat list \<Rightarrow> bytes \<Rightarrow> bytes res" where
  "hex_loop hash [] outputBuffer = Inr outputBuffer"
| "hex_loop hash (i # is) outputBuffer =
     rbind (rd hash (int i)) (\<lambda>b.
     rbind (write_at outputBuffer (i * 2) (sprintf_02x b)) (\<lambda>outputBuffer.
     hex_loop hash is outputBuffer))"

definition print_digest :: "bytes \<Rightarrow> bytes \<Rightarrow> bytes res" where
  "print_digest hash outputBuffer =
     rbind (hex_loop hash [0..<SHA256_DIGEST_LENGTH] outputBuffer) (\<lambda>outputBuffer.
     write_at outputBuffer 64 [0])"

section \<open>The wrappers\<close>

text \<open>The bytes of a C string: those before the first NUL.\<close>

definition c_string :: "bytes \<Rightarrow> bytes" where
  "c_string s = takeWhile (\<lambda>b. b \<noteq> 0) s"

text \<open>\<open>outputBuffer\<close> is the array of 65 bytes that the caller provides.\<close>

definition sha256 :: "(bytes \<Rightarrow> bytes) \<Rightarrow> bytes \<Rightarrow> bytes \<Rightarrow> bytes res" where
  "sha256 sha string outputBuffer = print_digest (sha (c_string string)) outputBuffer"

definition sha256_8bytes :: "(bytes \<Rightarrow> bytes) \<Rightarrow> bytes \<Rightarrow> bytes \<Rightarrow> bytes res" where
  "sha256_8bytes sha string outputBuffer =
     rbind (rdn string 0 8) (\<lambda>s. print_digest (sha s) outputBuffer)"

definition sha256_varbytes :: "(bytes \<Rightarrow> bytes) \<Rightarrow> bytes \<Rightarrow> bytes \<Rightarrow> int \<Rightarrow> bytes res" where
  "sha256_varbytes sha string outputBuffer n =
     (if n < 0 then Inl (Undefined OutOfBounds)
      else rbind (rdn string 0 (nat n)) (\<lambda>s. print_digest (sha s) outputBuffer))"

section \<open>What is printed\<close>

definition hex2 :: "byte \<Rightarrow> bytes" where
  "hex2 b = [hex_digit (drop_bit 4 b), hex_digit (b AND 15)]"

definition hex :: "bytes \<Rightarrow> bytes" where
  "hex bs = concat (map hex2 bs)"

lemma length_hex2 [simp]: "length (hex2 b) = 2"
  by (simp add: hex2_def)

lemma length_hex [simp]: "length (hex bs) = 2 * length bs"
  by (induction bs) (simp_all add: hex_def)

lemma hex_snoc: "hex (bs @ [b]) = hex bs @ hex2 b"
  by (simp add: hex_def)

text \<open>
  The loop writes the digits left to right; the NUL of each \<open>sprintf\<close> is overwritten by
  the next one.
\<close>

lemma hex_loop_prefix:
  assumes hash: "length hash = 32" and buf: "length buf = 65"
  shows "j \<le> 32 \<Longrightarrow> take (2 * j) buf = hex (take j hash) \<Longrightarrow> (0 < j \<Longrightarrow> buf ! (2 * j) = 0) \<Longrightarrow>
    \<exists>out. hex_loop hash [j..<32] buf = Inr out \<and> length out = 65 \<and> take 64 out = hex hash \<and> out ! 64 = 0"
  using buf
proof (induction "32 - j" arbitrary: j buf)
  case 0
  then show ?case using hash by simp
next
  case (Suc m)
  then have j: "j < 32" by simp
  let ?b = "take (j * 2) buf @ sprintf_02x (hash ! j) @ drop (j * 2 + 3) buf"
  have w: "write_at buf (j * 2) (sprintf_02x (hash ! j)) = Inr ?b"
    using j Suc.prems(4) by (simp add: write_at_def sprintf_02x_def numeral_3_eq_3)
  have len: "length ?b = 65" using j Suc.prems(4) by (simp add: sprintf_02x_def)
  have "take (2 * Suc j) ?b = take (2 * j) buf @ hex2 (hash ! j)"
    using j Suc.prems(4) by (simp add: sprintf_02x_def hex2_def mult.commute take_Cons')
  then have t: "take (2 * Suc j) ?b = hex (take (Suc j) hash)"
    using j hash Suc.prems(2) by (simp add: take_Suc_conv_app_nth hex_snoc)
  have z: "?b ! (2 * Suc j) = 0"
    using j Suc.prems(4) by (simp add: nth_append sprintf_02x_def mult.commute)
  have "\<exists>out. hex_loop hash [Suc j..<32] ?b = Inr out \<and> length out = 65 \<and> take 64 out = hex hash \<and> out ! 64 = 0"
    by (rule Suc.hyps(1)) (use Suc.hyps(2) j t z len in auto)
  then show ?case
    using j w by (simp add: upt_conv_Cons rd_in hash)
qed

lemma print_digest_hex:
  assumes "length hash = 32" and "length buf = 65"
  shows "print_digest hash buf = Inr (hex hash @ [0])"
proof -
  obtain out where o: "hex_loop hash [0..<32] buf = Inr out" "length out = 65" "take 64 out = hex hash"
    using hex_loop_prefix [OF assms, of 0] by (auto simp: hex_def)
  then show ?thesis
    by (simp add: print_digest_def SHA256_DIGEST_LENGTH_def write_at_def)
qed

lemma hex_digit_nonzero: "b < 16 \<Longrightarrow> hex_digit b \<noteq> 0"
  by (simp add: hex_digit_def) (auto simp: word_less_nat_alt unat_arith_simps split: if_splits)

lemma hex_digit_inj: "a < 16 \<Longrightarrow> b < 16 \<Longrightarrow> hex_digit a = hex_digit b \<Longrightarrow> a = b"
  by (auto simp: hex_digit_def word_less_nat_alt unat_arith_simps split: if_splits)

lemma nibble_bounds: "drop_bit 4 (b :: byte) < 16" "b AND 15 < 16"
proof -
  have "drop_bit 4 b = b div 16" by (simp add: drop_bit_eq_div)
  moreover have "unat b < 256" by (rule order_less_le_trans [OF unsigned_less]) simp
  then have "unat (b div 16) < 16" by (simp add: unat_div_distrib less_mult_imp_div_less)
  ultimately show "drop_bit 4 b < 16" by (simp add: word_less_nat_alt)
  have "b AND 15 \<le> 15" by (rule word_and_le1)
  then show "b AND 15 < 16" by (simp add: word_le_nat_alt word_less_nat_alt)
qed

lemma nibbles_inj:
  assumes "drop_bit 4 a = drop_bit 4 (b :: byte)" and "a AND 15 = b AND 15"
  shows "a = b"
proof -
  have m: "take_bit 4 x = x AND 15" for x :: byte by (simp add: take_bit_eq_mask mask_eq_decr_exp)
  have "a = push_bit 4 (drop_bit 4 a) + take_bit 4 a" by (simp only: bits_ident)
  also have "\<dots> = push_bit 4 (drop_bit 4 b) + take_bit 4 b"
    unfolding m using assms by simp
  also have "\<dots> = b" by (simp only: bits_ident)
  finally show ?thesis .
qed

lemma hex2_inj:
  assumes "hex2 a = hex2 b"
  shows "a = b"
proof (rule nibbles_inj)
  have *: "hex_digit (drop_bit 4 a) = hex_digit (drop_bit 4 b)" "hex_digit (a AND 15) = hex_digit (b AND 15)"
    using assms unfolding hex2_def by (simp_all only: list.inject)
  show "drop_bit 4 a = drop_bit 4 b" by (rule hex_digit_inj [OF nibble_bounds(1) nibble_bounds(1) *(1)])
  show "a AND 15 = b AND 15" by (rule hex_digit_inj [OF nibble_bounds(2) nibble_bounds(2) *(2)])
qed

lemma hex_inj: "hex xs = hex ys \<Longrightarrow> xs = ys"
proof (induction xs arbitrary: ys)
  case Nil
  then show ?case by (cases ys) (auto simp: hex_def hex2_def)
next
  case (Cons x xs)
  then obtain y zs where ys: "ys = y # zs" by (cases ys) (auto simp: hex_def hex2_def)
  with Cons.prems have "hex2 x @ hex xs = hex2 y @ hex zs" by (simp add: hex_def)
  then have "hex2 x = hex2 y" "hex xs = hex zs" by (simp_all add: append_eq_append_conv)
  with Cons.IH [of zs] hex2_inj [of x y] ys show ?case by simp
qed

lemma c_string_hex: "c_string (hex bs @ [0]) = hex bs"
proof -
  have "\<forall>b \<in> set (hex bs). b \<noteq> 0"
    using nibble_bounds by (auto simp: hex_def hex2_def dest: hex_digit_nonzero)
  then show ?thesis unfolding c_string_def by (subst takeWhile_append2) auto
qed

lemma sha256_varbytes_hex:
  assumes "\<And>x. length (sha x) = 32" and "length buf = 65" and "0 \<le> n" and "n \<le> int (length s)"
  shows "sha256_varbytes sha s buf n = Inr (hex (sha (take (nat n) s)) @ [0])"
  using assms rdn_eq [of 0 "nat n" s] by (simp add: sha256_varbytes_def print_digest_hex)

end
