(* ===== verification/Crypto.thy ===== *)
theory Crypto
  imports Sha256
begin

text \<open>
  \<open>aesEncrypt\<close> and \<open>aesDecrypt\<close> of \<open>mockServer/MockServer.cpp\<close>: AES in CBC mode with padding.
  The cipher itself is Crypto++; it is the parameter \<open>cbc\<close>, a function of the key, the
  initialisation vector and the data that says what the filter wrote into its string sink
  and whether it then raised a \<open>CryptoPP::Exception\<close>.
\<close>

type_synonym cbc = "bytes \<Rightarrow> bytes \<Rightarrow> bytes \<Rightarrow> bytes \<times> bool"

definition ivString :: bytes where "ivString = ascii ''QtIkUCmeW0XTCybi''"
definition keysize :: nat where "keysize = 16"

text \<open>
  Both functions read \<open>keysize\<close> bytes behind the \<open>c_str()\<close> of the key, and a block (also 16
  bytes) behind that of the vector, whatever the lengths of the strings are. The exception
  is reported on \<open>cerr\<close> and swallowed: what the sink already holds stays in the result.
\<close>

definition aesEncrypt :: "cbc \<Rightarrow> bytes \<Rightarrow> bytes \<Rightarrow> bytes \<Rightarrow> bytes \<Rightarrow> bytes res" where
  "aesEncrypt cbc plain inputKey inputIv cipher =
     rbind (rdn (inputKey @ [0]) 0 keysize) (\<lambda>key.
     rbind (rdn (inputIv @ [0]) 0 16) (\<lambda>iv.
     case cbc key iv plain of (written, threw) \<Rightarrow> Inr (cipher @ written)))"

definition aesDecrypt :: "cbc \<Rightarrow> bytes \<Rightarrow> bytes \<Rightarrow> bytes \<Rightarrow> bytes \<Rightarrow> bytes res" where
  "aesDecrypt cbc cipher inputKey inputIv plain =
     rbind (rdn (inputKey @ [0]) 0 keysize) (\<lambda>key.
     rbind (rdn (inputIv @ [0]) 0 16) (\<lambda>iv.
     case cbc key iv cipher of (written, threw) \<Rightarrow> Inr (plain @ written)))"

lemma length_ivString [simp]: "length ivString = 16"
  by (simp add: ivString_def)

lemma aes_defined:
  assumes "length key = 16"
  shows "aesEncrypt cbc p key ivString c = Inr (c @ fst (cbc key ivString p))"
    and "aesDecrypt cbc p key ivString c = Inr (c @ fst (cbc key ivString p))"
  using assms rdn_eq [of 0 16 "key @ [0]"] rdn_eq [of 0 16 "ivString @ [0]"]
  by (simp_all add: aesEncrypt_def aesDecrypt_def keysize_def split: prod.splits)

text \<open>What Crypto++ documents of the two directions of the mode, for a 16 byte key and vector.\<close>

definition cbc_inverse :: "cbc \<Rightarrow> cbc \<Rightarrow> bool" where
  "cbc_inverse enc dec \<longleftrightarrow>
     (\<forall>key iv p. length key = 16 \<longrightarrow> length iv = 16 \<longrightarrow> dec key iv (fst (enc key iv p)) = (p, False))"

lemma aes_inverse:
  assumes "cbc_inverse enc dec" and "length key = 16"
    and "aesEncrypt enc p key ivString [] = Inr c"
  shows "aesDecrypt dec c key ivString [] = Inr p"
  using assms by (auto simp: aes_defined cbc_inverse_def)

lemma aes_short_key:
  assumes "length key < 15"
  shows "aesEncrypt cbc p key iv c = Inl (Undefined OutOfBounds)"
    and "aesDecrypt cbc p key iv c = Inl (Undefined OutOfBounds)"
  using rdn_short [of 0 "key @ [0]" 16] assms
  by (simp_all add: aesEncrypt_def aesDecrypt_def keysize_def)

end
