(* ===== verification/World.thy ===== *)
theory World
  imports Message Crypto
begin

text \<open>
  The state one client thread of \<open>mockServer/MockServer.cpp\<close> works on, the actions that
  touch it, and the calls below the program. Actions are state passing functions sequenced by
  \<open>abind\<close>; every exception and undefined step is a value (\<open>Stopped\<close>), and so is an early
  \<open>return NULL\<close> of the thread function (\<open>Returned\<close>). \<open>OutOfFuel\<close> is the model's own: the
  loop was given fewer rounds than it has.
\<close>

section \<open>Trace and state\<close>

text \<open>
  The trace is a history variable: the messages received and sent, the SQL statements
  executed with their parameters (and the rows fetched), and the closing of the socket.
\<close>

datatype event =
    Recv SPChatMessage
  | Sent SPChatMessage
  | Query bytes "bytes list" "bytes list list"
  | Update bytes "bytes list"
  | Closed

record 'd world =
  w_sock :: sock
  w_db :: 'd
  w_trace :: "event list"
  w_decodes :: nat   \<comment> \<open>calls of \<open>decode\<close> so far\<close>
  w_clock :: nat     \<comment> \<open>calls of \<open>time\<close> so far\<close>

text \<open>
  The connector: \<open>db_connect\<close> says whether driver, connection, schema and statement could be
  obtained; \<open>db_query\<close> prepares a statement, sets its string parameters and yields the rows
  fetched and whether fetching ended without an \<open>SQLException\<close>; \<open>db_update\<close> executes a
  statement (False: \<open>SQLException\<close>, without effect).
\<close>

record 'd dbms =
  db_connect :: "'d \<Rightarrow> bool \<times> 'd"
  db_query :: "bytes \<Rightarrow> bytes list \<Rightarrow> 'd \<Rightarrow> (bytes list list \<times> bool) \<times> 'd"
  db_update :: "bytes \<Rightarrow> bytes list \<Rightarrow> 'd \<Rightarrow> bool \<times> 'd"

text \<open>
  The environment of a session. \<open>env_rand\<close>: the bytes of \<open>RAND_bytes\<close>; \<open>env_sha\<close>: the digest
  function; \<open>env_pem\<close>: the PEM text of the session's RSA key; \<open>env_rsa\<close>: decryption with it
  (\<open>None\<close>: it raises); \<open>env_now i\<close>: what the \<open>i\<close>-th call of \<open>time\<close> returns.
  \<open>env_buffer\<close>: the initial content of the array the digest is printed into;
  \<open>env_stale\<close>: the uninitialised member of the objects the poll handler constructs.
  \<open>env_spare n\<close>: the byte behind a stack array of \<open>n\<close> bytes is padding, so that writing it
  changes nothing; \<open>env_stmt_null\<close>: the uninitialised pointer \<open>stmt\<close> of the password lookup
  happens to be null, so that deleting it does nothing. Where these two are false the
  execution is undefined.
\<close>

record 'd env =
  env_host :: host
  env_dbms :: "'d dbms"
  env_rand :: "nat \<Rightarrow> byte"
  env_sha :: "bytes \<Rightarrow> bytes"
  env_pem :: bytes
  env_rsa :: "bytes \<Rightarrow> bytes option"
  env_encrypt :: cbc
  env_decrypt :: cbc
  env_now :: "nat \<Rightarrow> int"
  env_buffer :: "nat \<Rightarrow> byte"
  env_stale :: "nat \<Rightarrow> nat \<Rightarrow> clong"
  env_spare :: "nat \<Rightarrow> bool"
  env_stmt_null :: bool

section \<open>Actions\<close>

datatype 'a flow = Next 'a | Returned | Stopped stop | OutOfFuel

type_synonym ('d, 'a) act = "'d world \<Rightarrow> 'a flow \<times> 'd world"

fun of_res :: "'a res \<Rightarrow> 'a flow" where
  "of_res (Inl x) = Stopped x"
| "of_res (Inr a) = Next a"

definition ret :: "'a \<Rightarrow> ('d, 'a) act" where
  "ret a w = (Next a, w)"

definition lift_res :: "'a res \<Rightarrow> ('d, 'a) act" where
  "lift_res r w = (of_res r, w)"

definition abind :: "('d, 'a) act \<Rightarrow> ('a \<Rightarrow> ('d, 'b) act) \<Rightarrow> ('d, 'b) act" where
  "abind m f w = (case m w of
       (Next a, w) \<Rightarrow> f a w
     | (Returned, w) \<Rightarrow> (Returned, w)
     | (Stopped x, w) \<Rightarrow> (Stopped x, w)
     | (OutOfFuel, w) \<Rightarrow> (OutOfFuel, w))"

definition log_event :: "event \<Rightarrow> 'd world \<Rightarrow> 'd world" where
  "log_event ev w = w\<lparr>w_trace := w_trace w @ [ev]\<rparr>"

text \<open>\<open>time(0)\<close>\<close>

definition time0 :: "'d env \<Rightarrow> ('d, int) act" where
  "time0 env w = (Next (env_now env (w_clock w)), w\<lparr>w_clock := Suc (w_clock w)\<rparr>)"

text \<open>\<open>SPChatMessage::decode(sock)\<close>\<close>

definition receive :: "'d env \<Rightarrow> ('d, SPChatMessage) act" where
  "receive env w =
     (case SPChatMessage_decode (env_host env) (w_decodes w) (w_sock w) of (r, s) \<Rightarrow>
        let w = w\<lparr>w_sock := s, w_decodes := Suc (w_decodes w)\<rparr>
        in case r of Inl x \<Rightarrow> (Stopped x, w) | Inr m \<Rightarrow> (Next m, log_event (Recv m) w))"

text \<open>
  \<open>m.encode(&encoding); sock->send(encoding.data(), m.getTotalMsgLength())\<close>: the length is
  narrowed to the \<open>int\<close> parameter of \<open>send\<close>.
\<close>

definition send_message :: "'d env \<Rightarrow> SPChatMessage \<Rightarrow> ('d, unit) act" where
  "send_message env m w =
     (case CommunicatingSocket_send (encode (host_endian (env_host env)) [] m)
             (sint (ucast (getTotalMsgLength m) :: cint)) (w_sock w) of
        (Inl x, s) \<Rightarrow> (Stopped x, w\<lparr>w_sock := s\<rparr>)
      | (Inr _, s) \<Rightarrow> (Next (), log_event (Sent m) (w\<lparr>w_sock := s\<rparr>)))"

text \<open>\<open>delete sock\<close>, and \<open>delete sock; return NULL\<close>.\<close>

definition delete_sock :: "'d world \<Rightarrow> 'd world" where
  "delete_sock w = log_event Closed (w\<lparr>w_sock := Socket_delete (w_sock w)\<rparr>)"

definition drop_client :: "('d, 'a) act" where
  "drop_client w = (Returned, delete_sock w)"

lemma abind_cases:
  assumes "abind m f w = (r, w')"
  obtains x where "m w = (Stopped x, w')" "r = Stopped x"
    | "m w = (Returned, w')" "r = Returned"
    | "m w = (OutOfFuel, w')" "r = OutOfFuel"
    | a w1 where "m w = (Next a, w1)" "f a w1 = (r, w')"
  using assms by (auto simp: abind_def split: prod.splits flow.splits)

lemma ret_abind [simp]: "abind (ret a) f w = f a w"
  by (simp add: abind_def ret_def)

lemma drop_abind [simp]: "abind drop_client f w = drop_client w"
  by (simp add: abind_def drop_client_def)

lemma lift_abind [simp]: "abind (lift_res (Inr a)) f w = f a w" "abind (lift_res (Inl x)) f w = (Stopped x, w)"
  by (simp_all add: abind_def lift_res_def)

lemma abind_assoc: "abind (abind m f) g w = abind m (\<lambda>a. abind (f a) g) w"
  by (simp add: abind_def split: prod.splits flow.splits)

end
