(* ===== verification/Decimal.thy ===== *)
theory Decimal
  imports BabbleBase
begin

text \<open>
  Decimal numerals as the program prints them: a \<open>long\<close> written to a string stream
  (\<open>mockServer/MockServer.cpp\<close>), a port number printed into a fixed buffer
  (\<open>mockServer/PracticalSocket.cpp\<close>).
\<close>

section \<open>Printing\<close>

fun decimal_nat :: "nat \<Rightarrow> bytes" where
  "decimal_nat n = (if n < 10 then [word_of_nat (48 + n)]
                    else decimal_nat (n div 10) @ [word_of_nat (48 + n mod 10)])"

declare decimal_nat.simps [simp del]

definition decimal :: "int \<Rightarrow> bytes" where
  "decimal i = (if i < 0 then 45 # decimal_nat (nat (- i)) else decimal_nat (nat i))"

text \<open>The number a string of digits denotes.\<close>

definition number :: "bytes \<Rightarrow> nat" where
  "number s = foldl (\<lambda>n b. 10 * n + (unat b - 48)) 0 s"

text \<open>Reading the digits back gives the number, and there is no leading zero.\<close>

lemma digit_value: "d < 10 \<Longrightarrow> unat (word_of_nat (48 + d) :: byte) = 48 + d"
  by (simp add: unat_of_nat del: of_nat_add)

lemma decimal_nat_value: "foldl (\<lambda>n b. 10 * n + (unat b - 48)) 0 (decimal_nat n) = n"
proof (induction n rule: decimal_nat.induct)
  case (1 n)
  show ?case
  proof (cases "n < 10")
    case True
    then show ?thesis by (simp add: decimal_nat.simps [of n] digit_value del: of_nat_add)
  next
    case False
    with 1 show ?thesis by (simp add: decimal_nat.simps [of n] digit_value del: of_nat_add)
  qed
qed

lemma number_decimal [simp]: "number (decimal_nat n) = n"
  by (simp add: number_def decimal_nat_value)

lemma decimal_nat_digits: "b \<in> set (decimal_nat n) \<Longrightarrow> 48 \<le> b \<and> b \<le> 57"
proof (induction n rule: decimal_nat.induct)
  case (1 n)
  have d: "48 \<le> (word_of_nat (48 + d) :: byte) \<and> (word_of_nat (48 + d) :: byte) \<le> 57" if "d < 10" for d
    using digit_value [OF that] that by (simp add: word_le_nat_alt del: of_nat_add)
  show ?case
  proof (cases "n < 10")
    case True
    then show ?thesis using 1(2) d [of n] by (simp add: decimal_nat.simps [of n] del: of_nat_add)
  next
    case False
    then have "b = word_of_nat (48 + n mod 10) \<or> b \<in> set (decimal_nat (n div 10))"
      using 1(2) by (simp add: decimal_nat.simps [of n] del: of_nat_add)
    then show ?thesis using 1(1) [OF False] d [of "n mod 10"] by auto
  qed
qed

lemma decimal_nat_nonempty: "decimal_nat n \<noteq> []"
  by (simp add: decimal_nat.simps [of n])

lemma decimal_nat_hd: "hd (decimal_nat n) = 48 \<longleftrightarrow> n = 0"
proof (induction n rule: decimal_nat.induct)
  case (1 n)
  show ?case
  proof (cases "n < 10")
    case True
    then have "(word_of_nat (48 + n) :: byte) = 48 \<longleftrightarrow> n = 0"
      using digit_value [of n] digit_value [of 0] by (auto simp: word_unat_eq_iff simp del: of_nat_add)
    with True show ?thesis by (simp add: decimal_nat.simps [of n] del: of_nat_add)
  next
    case False
    then have "n div 10 \<noteq> 0" by simp
    with 1 False show ?thesis by (simp add: decimal_nat.simps [of n] decimal_nat_nonempty)
  qed
qed


text \<open>How long a numeral is: with \<open>n < 10 ^ k\<close> it has at most \<open>k\<close> digits.\<close>

lemma decimal_nat_length: "n < 10 ^ k \<Longrightarrow> 0 < k \<Longrightarrow> length (decimal_nat n) \<le> k"
proof (induction n arbitrary: k rule: decimal_nat.induct)
  case (1 n)
  show ?case
  proof (cases "n < 10")
    case True
    with "1.prems" show ?thesis by (simp add: decimal_nat.simps [of n])
  next
    case False
    then obtain j where j: "k = Suc j" "0 < j"
      using "1.prems" by (cases k; cases "k - 1") auto
    have "n div 10 < 10 ^ j" using "1.prems"(1) j(1) by (simp add: less_mult_imp_div_less mult.commute)
    from "1.IH" [OF False this j(2)] False j(1) show ?thesis by (simp add: decimal_nat.simps [of n])
  qed
qed

section \<open>A numeral in a fixed buffer\<close>

text \<open>\<open>snprintf(buf, cap, "%d", n)\<close>: at most \<open>cap - 1\<close> characters and a NUL are written.\<close>

definition snprintf_d :: "nat \<Rightarrow> nat \<Rightarrow> bytes" where
  "snprintf_d cap n = take (cap - 1) (decimal_nat n)"

lemma snprintf_d_fits: "n < 10 ^ k \<Longrightarrow> 0 < k \<Longrightarrow> k < cap \<Longrightarrow> snprintf_d cap n = decimal_nat n"
  using decimal_nat_length [of n k] by (simp add: snprintf_d_def)

end
