(* ===== verification/Database.thy ===== *)
theory Database
  imports World Decimal "HOL-Library.Signed_Division"
begin

text \<open>
  The three \<open>try\<close> blocks of \<open>clientConnectStart\<close> (\<open>mockServer/MockServer.cpp\<close>) that talk to
  MySQL: the password lookup, the poll query and the storing of a posted message. An
  \<open>SQLException\<close> ends a block and is swallowed; the variables and vectors the block had
  filled keep what they hold.
\<close>

section \<open>Statements\<close>

definition SELECT_PASSWORD :: bytes where
  "SELECT_PASSWORD = ascii ''SELECT password FROM login WHERE email = ?''"

definition SELECT_MESSAGES :: bytes where
  "SELECT_MESSAGES = ascii (''SELECT text, y.email, z.email, timestamp FROM messages ''
     @ ''INNER JOIN (SELECT message_id, reciever_id, sender_id, timestamp FROM transactions) ''
     @ ''as x ON messages.message_id = x.message_id ''
     @ ''INNER JOIN (SELECT user_id, email FROM login) ''
     @ ''as y ON x.reciever_id = y.user_id ''
     @ ''INNER JOIN (SELECT user_id, email FROM login)''
     @ ''as z ON x.sender_id = z.user_id ''
     @ ''WHERE UNIX_TIMESTAMP(timestamp) > '') @ ascii ''? AND y.email = ?''"

definition INSERT_MESSAGE :: bytes where
  "INSERT_MESSAGE = ascii ''INSERT INTO messages(text) VALUES (?)''"

definition SELECT_USER_ID :: bytes where
  "SELECT_USER_ID = ascii ''SELECT user_id FROM login WHERE email=?''"

definition SELECT_MESSAGE_ID :: bytes where
  "SELECT_MESSAGE_ID = ascii ''SELECT message_id FROM messages WHERE text = ?''"

definition INSERT_TRANSACTION :: bytes where
  "INSERT_TRANSACTION = ascii ''INSERT INTO transactions VALUES (?,?,?,from_unixtime(?), DEFAULT)''"

lemmas sql_defs = SELECT_PASSWORD_def SELECT_MESSAGES_def INSERT_MESSAGE_def SELECT_USER_ID_def
  SELECT_MESSAGE_ID_def INSERT_TRANSACTION_def

text \<open>The seconds of a time in milliseconds, written to a string stream.\<close>

definition seconds_string :: "clong \<Rightarrow> bytes" where
  "seconds_string time = decimal (sint time sdiv 1000)"

lemma seconds_string_value:
  assumes "0 \<le> sint t"
  shows "seconds_string t = decimal_nat (nat (sint t div 1000)) \<and>
    foldl (\<lambda>n b. 10 * n + (unat b - 48)) 0 (seconds_string t) = nat (sint t div 1000) \<and>
    (hd (seconds_string t) = 48 \<longleftrightarrow> sint t < 1000)"
proof -
  have "sint t sdiv 1000 = sint t div 1000" using assms by (cases "sint t = 0") (simp_all add: signed_divide_int_def)
  then have s: "seconds_string t = decimal_nat (nat (sint t div 1000))"
    using assms by (simp add: seconds_string_def decimal_def pos_imp_zdiv_nonneg_iff)
  have "nat (sint t div 1000) = 0 \<longleftrightarrow> sint t < 1000" using assms by linarith
  then show ?thesis unfolding s decimal_nat_value decimal_nat_hd by simp
qed

section \<open>Calls of the connector\<close>

definition sql_connect :: "'d env \<Rightarrow> 'd world \<Rightarrow> bool \<times> 'd world" where
  "sql_connect env w = (case db_connect (env_dbms env) (w_db w) of (ok, d) \<Rightarrow> (ok, w\<lparr>w_db := d\<rparr>))"

definition sql_query ::
  "'d env \<Rightarrow> bytes \<Rightarrow> bytes list \<Rightarrow> 'd world \<Rightarrow> (bytes list list \<times> bool) \<times> 'd world" where
  "sql_query env sql params w =
     (case db_query (env_dbms env) sql params (w_db w) of ((rows, ok), d) \<Rightarrow>
        ((rows, ok), log_event (Query sql params rows) (w\<lparr>w_db := d\<rparr>)))"

definition sql_update :: "'d env \<Rightarrow> bytes \<Rightarrow> bytes list \<Rightarrow> 'd world \<Rightarrow> bool \<times> 'd world" where
  "sql_update env sql params w =
     (case db_update (env_dbms env) sql params (w_db w) of (ok, d) \<Rightarrow>
        (ok, (if ok then log_event (Update sql params) else id) (w\<lparr>w_db := d\<rparr>)))"

text \<open>\<open>res->getString(i)\<close>; a column that does not exist is an \<open>SQLException\<close>.\<close>

definition getString :: "bytes list \<Rightarrow> nat \<Rightarrow> bytes option" where
  "getString row i = (if 1 \<le> i \<and> i \<le> length row then Some (row ! (i - 1)) else None)"

text \<open>\<open>while (res->next()) x = res->getString(1);\<close>\<close>

primrec last_string :: "bytes \<Rightarrow> bytes list list \<Rightarrow> bytes \<times> bool" where
  "last_string x [] = (x, True)"
| "last_string x (row # rows) =
     (case getString row 1 of None \<Rightarrow> (x, False) | Some y \<Rightarrow> last_string y rows)"

section \<open>The password lookup\<close>

text \<open>The result: \<open>password\<close>, and whether the block ran to its end (and so to \<open>delete stmt\<close>).\<close>

definition lookup_password :: "'d env \<Rightarrow> bytes \<Rightarrow> 'd world \<Rightarrow> (bytes \<times> bool) \<times> 'd world" where
  "lookup_password env username w =
     (case sql_connect env w of (False, w) \<Rightarrow> (([], False), w)
      | (True, w) \<Rightarrow>
     (case sql_query env SELECT_PASSWORD [username] w of ((rows, ok), w) \<Rightarrow>
     (case last_string [] rows of (password, got) \<Rightarrow> ((password, got \<and> ok), w))))"

section \<open>The poll query\<close>

record fetched =
  messageDb :: "bytes list"
  senderDb :: "bytes list"
  timeDb :: "bytes list"

definition nothing_fetched :: fetched where
  "nothing_fetched = \<lparr>messageDb = [], senderDb = [], timeDb = []\<rparr>"

primrec fetch_rows :: "fetched \<Rightarrow> bytes list list \<Rightarrow> fetched \<times> bool" where
  "fetch_rows f [] = (f, True)"
| "fetch_rows f (row # rows) =
     (case getString row 1 of None \<Rightarrow> (f, False) | Some text \<Rightarrow>
       let f = f\<lparr>messageDb := messageDb f @ [text]\<rparr> in
      case getString row 3 of None \<Rightarrow> (f, False) | Some sender \<Rightarrow>
       let f = f\<lparr>senderDb := senderDb f @ [sender]\<rparr> in
      case getString row 4 of None \<Rightarrow> (f, False) | Some time \<Rightarrow>
       fetch_rows (f\<lparr>timeDb := timeDb f @ [time]\<rparr>) rows)"

definition fetch_messages :: "'d env \<Rightarrow> clong \<Rightarrow> bytes \<Rightarrow> 'd world \<Rightarrow> fetched \<times> 'd world" where
  "fetch_messages env time username w =
     (case sql_connect env w of (False, w) \<Rightarrow> (nothing_fetched, w)
      | (True, w) \<Rightarrow>
     (case sql_query env SELECT_MESSAGES [seconds_string time, username] w of ((rows, ok), w) \<Rightarrow>
        (fst (fetch_rows nothing_fetched rows), w)))"

section \<open>Storing a message\<close>

text \<open>\<open>select_id\<close>: a query for an identifier of which the last row is kept.\<close>

definition select_id :: "'d env \<Rightarrow> bytes \<Rightarrow> bytes \<Rightarrow> 'd world \<Rightarrow> bytes option \<times> 'd world" where
  "select_id env sql param w =
     (case sql_query env sql [param] w of ((rows, ok), w) \<Rightarrow>
      case last_string [] rows of (x, got) \<Rightarrow> (if got \<and> ok then Some x else None, w))"

definition store_message ::
  "'d env \<Rightarrow> bytes \<Rightarrow> bytes \<Rightarrow> bytes \<Rightarrow> clong \<Rightarrow> 'd world \<Rightarrow> 'd world" where
  "store_message env text sender receiver time w =
     (case sql_connect env w of (False, w) \<Rightarrow> w
      | (True, w) \<Rightarrow>
     (case sql_update env INSERT_MESSAGE [text] w of (False, w) \<Rightarrow> w
      | (True, w) \<Rightarrow>
     (case select_id env SELECT_USER_ID sender w of (None, w) \<Rightarrow> w
      | (Some sender_id, w) \<Rightarrow>
     (case select_id env SELECT_USER_ID receiver w of (None, w) \<Rightarrow> w
      | (Some received_id, w) \<Rightarrow>
     (case select_id env SELECT_MESSAGE_ID text w of (None, w) \<Rightarrow> w
      | (Some message_id, w) \<Rightarrow>
        snd (sql_update env INSERT_TRANSACTION
               [sender_id, received_id, message_id, seconds_string time] w))))))"

section \<open>What the blocks may execute\<close>

text \<open>The statements of the three blocks, with the number of their parameters.\<close>

datatype statement =
    Connecting
  | Querying bytes "bytes list"
  | Updating bytes "bytes list"

fun thread_statement :: "statement \<Rightarrow> bool" where
  "thread_statement Connecting \<longleftrightarrow> True"
| "thread_statement (Querying sql ps) \<longleftrightarrow>
     sql \<in> {SELECT_PASSWORD, SELECT_USER_ID, SELECT_MESSAGE_ID} \<and> length ps = 1 \<or> sql = SELECT_MESSAGES \<and> length ps = 2"
| "thread_statement (Updating sql ps) \<longleftrightarrow>
     sql = INSERT_MESSAGE \<and> length ps = 1 \<or> sql = INSERT_TRANSACTION \<and> length ps = 4"

fun execute :: "'d dbms \<Rightarrow> statement \<Rightarrow> 'd \<Rightarrow> 'd" where
  "execute db Connecting d = snd (db_connect db d)"
| "execute db (Querying sql ps) d = snd (db_query db sql ps d)"
| "execute db (Updating sql ps) d = snd (db_update db sql ps d)"

lemma thread_queries: "thread_statement (Querying SELECT_PASSWORD [u])" "thread_statement (Querying SELECT_MESSAGES [n, u])"
  "thread_statement (Querying SELECT_USER_ID [u])" "thread_statement (Querying SELECT_MESSAGE_ID [u])"
  by simp_all

lemma thread_updates: "thread_statement (Updating INSERT_MESSAGE [t])" "thread_statement (Updating INSERT_TRANSACTION [s, r, m, x])"
  by simp_all

declare thread_statement.simps [simp del]

lemma select_id_query: "select_id env sql p w = (v, w') \<Longrightarrow> \<exists>x. sql_query env sql [p] w = (x, w')"
  by (auto simp: select_id_def split: prod.splits)

end
