(* ===== verification/Session.thy ===== *)
theory Session
  imports Database
begin

text \<open>
  \<open>clientConnectStart\<close> of \<open>mockServer/MockServer.cpp\<close>, the thread that serves one client: the
  challenge after the first login message, the check of the response, the exchange of the
  symmetric key, and the loop that answers polls and stores posted messages. The stages are
  the function's consecutive blocks; each early \<open>delete sock; return NULL\<close> is
  \<open>drop_client\<close>.
\<close>

section \<open>Lines 137-160: the challenge\<close>

definition await_login :: "'d env \<Rightarrow> ('d, bytes \<times> bytes) act" where
  "await_login env =
     abind (receive env) (\<lambda>msg. case msg of
       MLogin login \<Rightarrow>
         (let theChallenge = map (env_rand env) [0..<8];
              username = lg_getUsername login
          in abind (lift_res (SPChatChallenge_new theChallenge)) (\<lambda>spChatChallenge.
             abind (send_message env (MChallenge spChatChallenge)) (\<lambda>_.
             ret (username, theChallenge))))
     | _ \<Rightarrow> drop_client)"

section \<open>Lines 162-271: the response\<close>

text \<open>
  \<open>char pass[password.size()]; strcpy(pass, password.c_str());\<close> needs a byte more than the
  array has, unless the password contains a NUL.
\<close>

definition copy_password :: "'d env \<Rightarrow> bytes \<Rightarrow> unit res" where
  "copy_password env password =
     (if max_vla (env_host env) < int (length password) then Inl (Undefined BadArraySize)
      else if length (c_string password) + 1 \<le> length password \<or> env_spare env (length password)
        then Inr ()
      else Inl (Undefined OutOfBounds))"

text \<open>The hash expected from the client: of challenge, nonce and password, in this order.\<close>

definition expected_hash :: "'d env \<Rightarrow> bytes \<Rightarrow> bytes \<Rightarrow> bytes \<Rightarrow> bytes res" where
  "expected_hash env challenge nonce password =
     (let passwordSize = sint (word_of_nat (length password) :: cint);
          sizeConc = 8 + passwordSize + int (length nonce)
      in if passwordSize < 0 \<or> 2 ^ 31 \<le> sizeConc \<or> max_vla (env_host env) < sizeConc
         then Inl (Undefined BadArraySize)
         else rbind (rdn challenge 0 8) (\<lambda>c.
              rbind (rdn password 0 (nat passwordSize)) (\<lambda>p.
              rbind (sha256_varbytes (env_sha env) (c @ nonce @ p) (map (env_buffer env) [0..<65]) sizeConc)
                (\<lambda>buffer. Inr (c_string buffer)))))"

definition send_ack :: "'d env \<Rightarrow> errorType \<Rightarrow> ('d, unit) act" where
  "send_ack env err =
     abind (lift_res (SPChatACK_new err SERVER)) (\<lambda>ack. send_message env (MACK ack))"

text \<open>Completing the lookup runs \<open>delete stmt\<close> on a pointer that was never set.\<close>

definition check_password :: "'d env \<Rightarrow> bytes \<Rightarrow> ('d, bytes) act" where
  "check_password env username w =
     (case lookup_password env username w of ((password, completed), w) \<Rightarrow>
        if completed \<and> \<not> env_stmt_null env then (Stopped (Undefined OutOfBounds), w)
        else if password = [] then abind (send_ack env DEFAULT_ERROR) (\<lambda>_. drop_client) w
        else (Next password, w))"

definition check_response :: "'d env \<Rightarrow> bytes \<Rightarrow> bytes \<Rightarrow> ('d, unit) act" where
  "check_response env username challenge =
     abind (receive env) (\<lambda>msg2. case msg2 of
       MResponse response \<Rightarrow>
         abind (check_password env username) (\<lambda>password.
         abind (lift_res (copy_password env password)) (\<lambda>_.
         abind (lift_res (expected_hash env challenge (getNonce response) password)) (\<lambda>buffer.
         if getHash response = buffer then send_ack env PASSWORD_AUTH else drop_client)))
     | _ \<Rightarrow> drop_client)"

section \<open>Lines 272-366: the symmetric key\<close>

text \<open>
  The PEM text is copied with \<open>strcpy\<close> into an array of its size plus one, of which the
  login message reads \<open>ASYMMETRIC_LENGTH\<close> bytes.
\<close>

definition server_key_login :: "'d env \<Rightarrow> SPChatLogin res" where
  "server_key_login env =
     SPChatLogin_new [] ASYMMETRIC_KEY (c_string (env_pem env) @ [0]) (int ASYMMETRIC_LENGTH)"

definition exchange_keys :: "'d env \<Rightarrow> ('d, bytes) act" where
  "exchange_keys env =
     abind (receive env) (\<lambda>msg. case msg of
       MLogin _ \<Rightarrow>
         abind (lift_res (server_key_login env)) (\<lambda>server2Client.
         abind (send_message env (MLogin server2Client)) (\<lambda>_.
         abind (receive env) (\<lambda>msgNewLogin. case msgNewLogin of
           MLogin loginNew \<Rightarrow>
             (case env_rsa env (getEncSymKey loginNew) of
                None \<Rightarrow> lift_res (Inl (Throw CryptoException))
              | Some keyString \<Rightarrow>
                  if length keyString = keysize
                  then abind (send_ack env SUCCESS) (\<lambda>_. ret keyString)
                  else drop_client)
         | _ \<Rightarrow> drop_client)))
     | _ \<Rightarrow> drop_client)"

section \<open>Lines 402-535: a poll\<close>

text \<open>The answer for the \<open>i\<close>-th message fetched; \<open>stale\<close> is the uninitialised member it tests.\<close>

definition poll_answer ::
  "'d env \<Rightarrow> bytes \<Rightarrow> SPChatPoll \<Rightarrow> fetched \<Rightarrow> clong \<Rightarrow> nat \<Rightarrow> SPChatMessage res" where
  "poll_answer env key newPoll f stale i =
     rbind (rd (messageDb f) (int i)) (\<lambda>plain.
     rbind (aesEncrypt (env_encrypt env) plain key ivString []) (\<lambda>encodedWithSym.
     rbind (rd (senderDb f) (int i)) (\<lambda>sender.
     rbind (pl_getTime newPoll) (\<lambda>time.
     rbind (SPChatMsgMessage_new stale sender (pl_getUsername newPoll) encodedWithSym
              (word_of_nat (length plain)) 1 1 time) (\<lambda>m.
     rbind (SPChatPollResponse_new sender [m] 1 1) (\<lambda>pollRspns.
     Inr (MPollResponse pollRspns)))))))"

primrec answer_loop ::
  "'d env \<Rightarrow> bytes \<Rightarrow> SPChatPoll \<Rightarrow> fetched \<Rightarrow> nat list \<Rightarrow> ('d, unit) act" where
  "answer_loop env key newPoll f [] = ret ()"
| "answer_loop env key newPoll f (i # is) =
     (\<lambda>w. abind (lift_res (poll_answer env key newPoll f (env_stale env (w_decodes w) i) i)) (\<lambda>m.
          abind (send_message env m) (\<lambda>_. answer_loop env key newPoll f is)) w)"

definition handle_poll :: "'d env \<Rightarrow> bytes \<Rightarrow> bytes \<Rightarrow> SPChatPoll \<Rightarrow> ('d, unit) act" where
  "handle_poll env originalUser key newPoll =
     (if pl_getUsername newPoll \<noteq> originalUser then drop_client
      else abind (lift_res (pl_getTime newPoll)) (\<lambda>time w.
        case fetch_messages env time (pl_getUsername newPoll) w of (f, w) \<Rightarrow>
          answer_loop env key newPoll f [0..<length (messageDb f)] w))"

section \<open>Lines 536-724: posted messages\<close>

primrec decrypt_loop :: "'d env \<Rightarrow> bytes \<Rightarrow> bytes \<Rightarrow> SPChatMsgMessage list \<Rightarrow> bytes res" where
  "decrypt_loop env key received [] = Inr received"
| "decrypt_loop env key received (m # ms) =
     rbind (aesDecrypt (env_decrypt env) (getMessage m) key ivString []) (\<lambda>decrypted.
     decrypt_loop env key (received @ decrypted) ms)"

text \<open>The elements' texts are joined; sender, receiver and time are those of element 0.\<close>

definition handle_post :: "'d env \<Rightarrow> bytes \<Rightarrow> bytes \<Rightarrow> SPChatPollResponse \<Rightarrow> ('d, unit) act" where
  "handle_post env originalUser key pollRspns =
     abind (lift_res (decrypt_loop env key [] (getMsgList pollRspns))) (\<lambda>text.
     abind (lift_res (rd (getMsgList pollRspns) 0)) (\<lambda>first.
     if getSender first \<noteq> originalUser then drop_client
     else (\<lambda>w. (Next (), store_message env text (getSender first) (getReceiver first) (mm_getTime first) w))))"

section \<open>Lines 389-727: the chat loop\<close>

text \<open>Messages of another type than the two the loop looks for are ignored.\<close>

definition handle_message :: "'d env \<Rightarrow> bytes \<Rightarrow> bytes \<Rightarrow> SPChatMessage \<Rightarrow> ('d, unit) act" where
  "handle_message env originalUser key msgs =
     (case msgs of
        MPoll newPoll \<Rightarrow> handle_poll env originalUser key newPoll
      | MPollResponse pollRspns \<Rightarrow> handle_post env originalUser key pollRspns
      | _ \<Rightarrow> ret ())"

primrec chat_loop :: "'d env \<Rightarrow> bytes \<Rightarrow> bytes \<Rightarrow> int \<Rightarrow> nat \<Rightarrow> ('d, unit) act" where
  "chat_loop env originalUser key endTime 0 = (\<lambda>w. (OutOfFuel, w))"
| "chat_loop env originalUser key endTime (Suc fuel) =
     abind (time0 env) (\<lambda>now.
     if endTime < now then drop_client
     else abind (receive env) (\<lambda>msgs.
          abind (handle_message env originalUser key msgs) (\<lambda>_.
          chat_loop env originalUser key endTime fuel)))"

section \<open>The thread\<close>

definition session :: "'d env \<Rightarrow> nat \<Rightarrow> ('d, unit) act" where
  "session env fuel =
     abind (time0 env) (\<lambda>now.
     abind (await_login env) (\<lambda>(originalUser, challenge).
     abind (check_response env originalUser challenge) (\<lambda>_.
     abind (exchange_keys env) (\<lambda>keyString.
     chat_loop env originalUser keyString (now + 1000) fuel))))"

text \<open>
  The handlers: \<open>SPChatException\<close> and \<open>SocketException\<close> (both are \<open>runtime_error\<close>s) and the
  exceptions of Crypto++ are caught, after which the socket is deleted. Anything else thrown
  leaves the thread function and terminates the process. The result \<open>Next ()\<close> is
  \<open>return NULL\<close>.
\<close>

fun caught :: "exn \<Rightarrow> bool" where
  "caught (SPChatException m) = True"
| "caught (SocketException m) = True"
| "caught (RuntimeError m) = True"
| "caught CryptoException = True"
| "caught (StringThrown m) = False"
| "caught LengthError = False"

definition clientConnectStart :: "'d env \<Rightarrow> nat \<Rightarrow> ('d, unit) act" where
  "clientConnectStart env fuel w =
     (case session env fuel w of
        (Next _, w) \<Rightarrow> (Next (), delete_sock w)
      | (Returned, w) \<Rightarrow> (Next (), w)
      | (Stopped (Throw e), w) \<Rightarrow>
          (if caught e then (Next (), delete_sock w) else (Stopped (Throw e), w))
      | (x, w) \<Rightarrow> (x, w))"

end
