(* ===== verification/Protocol.thy ===== *)
theory Protocol
  imports Session
begin

text \<open>
  The protocol the server is meant to follow with one client, as a state machine over the
  events of a session, and the safety properties of its runs. It says nothing of sockets,
  bytes or control flow; that \<open>clientConnectStart\<close> refines it is the subject of the theory
  Refinement.
\<close>

section \<open>The machine\<close>

text \<open>What the chat loop is busy with.\<close>

datatype job =
    Idle
  | Polled SPChatPoll
  | Answering SPChatPoll fetched nat
  | Posted SPChatPollResponse
  | Filing SPChatPollResponse "bytes list"

datatype phase =
    Start
  | GotLogin bytes
  | Challenged bytes bytes
  | Answered bytes bytes SPChatResponse
  | LookedUp bytes bytes SPChatResponse bytes
  | Verified bytes
  | KeyAsked bytes
  | KeyOffered bytes
  | KeyGiven bytes SPChatLogin
  | Chat bytes bytes job
  | Doomed
  | Ended

definition server_ack :: "errorType \<Rightarrow> SPChatMessage" where
  "server_ack err = MACK \<lparr>ack_sender = SERVER, ack_error = err\<rparr>"

text \<open>The plain text of a posted list of messages: the decryptions of its elements, joined.\<close>

definition posted_text :: "'d env \<Rightarrow> bytes \<Rightarrow> SPChatMsgMessage list \<Rightarrow> bytes" where
  "posted_text env key ms = concat (map (\<lambda>m. fst (env_decrypt env key ivString (mm_message m))) ms)"

text \<open>A message fetched for \<open>user\<close> as it must be sent.\<close>

definition proper_answer :: "'d env \<Rightarrow> bytes \<Rightarrow> bytes \<Rightarrow> SPChatPoll \<Rightarrow> fetched \<Rightarrow> nat \<Rightarrow> SPChatPollResponse \<Rightarrow> bool" where
  "proper_answer env user key p f i pr \<longleftrightarrow>
     i < length (messageDb f) \<and> i < length (senderDb f) \<and>
     pr_username pr = senderDb f ! i \<and> pr_listNum pr = 1 \<and> pr_totalList pr = 1 \<and>
     pr_msgList pr = [\<lparr>mm_sender = senderDb f ! i, mm_receiver = user,
       mm_message = fst (env_encrypt env key ivString (messageDb f ! i)),
       mm_decryptMsgLen = word_of_nat (length (messageDb f ! i)),
       mm_msgNum = 1, mm_totalMsg = 1, mm_time = pl_time p\<rparr>]"

inductive step :: "'d env \<Rightarrow> phase \<Rightarrow> event \<Rightarrow> phase \<Rightarrow> bool" for env where
  login: "step env Start (Recv (MLogin l)) (GotLogin (lg_username l))"
| challenge: "c = map (env_rand env) [0..<8] \<Longrightarrow>
    step env (GotLogin u) (Sent (MChallenge \<lparr>ch_challenge = c\<rparr>)) (Challenged u c)"
| answer: "step env (Challenged u c) (Recv (MResponse r)) (Answered u c r)"
| lookup: "step env (Answered u c r) (Query SELECT_PASSWORD [u] rows)
    (LookedUp u c r (fst (last_string [] rows)))"
| refuse_unreachable: "step env (Answered u c r) (Sent (server_ack DEFAULT_ERROR)) Doomed"
| refuse_unknown: "step env (LookedUp u c r []) (Sent (server_ack DEFAULT_ERROR)) Doomed"
| verify: "pw \<noteq> [] \<Longrightarrow> rs_hash r = hex (env_sha env (c @ rs_nonce r @ pw)) \<Longrightarrow>
    step env (LookedUp u c r pw) (Sent (server_ack PASSWORD_AUTH)) (Verified u)"
| ask_key: "step env (Verified u) (Recv (MLogin l)) (KeyAsked u)"
| offer_key: "lg_keyType l = ASYMMETRIC_KEY \<Longrightarrow> lg_username l = [] \<Longrightarrow>
    lg_key l = take ASYMMETRIC_LENGTH (c_string (env_pem env) @ [0]) \<Longrightarrow>
    step env (KeyAsked u) (Sent (MLogin l)) (KeyOffered u)"
| give_key: "step env (KeyOffered u) (Recv (MLogin l)) (KeyGiven u l)"
| accept_key: "env_rsa env (lg_encSymKey l) = Some k \<Longrightarrow> length k = 16 \<Longrightarrow>
    step env (KeyGiven u l) (Sent (server_ack SUCCESS)) (Chat u k Idle)"
| poll: "pl_username p = u \<Longrightarrow> step env (Chat u k j) (Recv (MPoll p)) (Chat u k (Polled p))"
| post: "pr_msgList pr = m # ms \<Longrightarrow> mm_sender m = u \<Longrightarrow>
    step env (Chat u k j) (Recv (MPollResponse pr)) (Chat u k (Posted pr))"
| skip_msg: "(\<forall>p. m \<noteq> MPoll p) \<Longrightarrow> (\<forall>pr. m \<noteq> MPollResponse pr) \<Longrightarrow>
    step env (Chat u k j) (Recv m) (Chat u k Idle)"
| fetch: "step env (Chat u k (Polled p)) (Query SELECT_MESSAGES [seconds_string (pl_time p), u] rows)
    (Chat u k (Answering p (fst (fetch_rows nothing_fetched rows)) 0))"
| deliver: "proper_answer env u k p f i pr \<Longrightarrow>
    step env (Chat u k (Answering p f i)) (Sent (MPollResponse pr)) (Chat u k (Answering p f (Suc i)))"
| insert: "step env (Chat u k (Posted pr)) (Update INSERT_MESSAGE [posted_text env k (pr_msgList pr)])
    (Chat u k (Filing pr []))"
| sender_id: "step env (Chat u k (Filing pr [])) (Query SELECT_USER_ID [u] rows)
    (Chat u k (Filing pr [fst (last_string [] rows)]))"
| receiver_id: "step env (Chat u k (Filing pr [s]))
    (Query SELECT_USER_ID [mm_receiver (hd (pr_msgList pr))] rows)
    (Chat u k (Filing pr [s, fst (last_string [] rows)]))"
| message_id: "step env (Chat u k (Filing pr [s, r]))
    (Query SELECT_MESSAGE_ID [posted_text env k (pr_msgList pr)] rows)
    (Chat u k (Filing pr [s, r, fst (last_string [] rows)]))"
| file_msg: "step env (Chat u k (Filing pr [s, r, i]))
    (Update INSERT_TRANSACTION [s, r, i, seconds_string (mm_time (hd (pr_msgList pr)))])
    (Chat u k Idle)"
| stray: "p \<in> {Start, Challenged u c, Verified u, KeyOffered u, Chat u k j} \<Longrightarrow>
    step env p (Recv m) Doomed"
| close: "p \<noteq> Ended \<Longrightarrow> step env p Closed Ended"

inductive run :: "'d env \<Rightarrow> event list \<Rightarrow> phase \<Rightarrow> bool" for env where
  run_init: "run env [] Start"
| run_step: "run env es p \<Longrightarrow> step env p e q \<Longrightarrow> run env (es @ [e]) q"

inductive_cases run_snocE: "run env (es @ [e]) q"
inductive_cases step_updateE: "step env p (Update sql ps) q"
inductive_cases step_deliverE: "step env p (Sent (MPollResponse pr)) q"
inductive_simps step_ended: "step env Ended e q"
inductive_simps step_doomed: "step env Doomed e q"
inductive_cases step_closedE: "step env p Closed q"

lemma run_prefix: "run env (es @ es') q \<Longrightarrow> \<exists>p. run env es p"
proof (induction es' arbitrary: q rule: rev_induct)
  case (snoc e es')
  then have "run env ((es @ es') @ [e]) q" by simp
  then obtain p where "run env (es @ es') p" by (cases rule: run_snocE)
  with snoc.IH show ?case by blast
qed auto

lemma run_splitE:
  assumes "run env (es @ e # es') q"
  obtains p p' where "run env es p" "step env p e p'"
proof -
  from assms run_prefix [of env "es @ [e]" es' q] obtain p' where "run env (es @ [e]) p'" by auto
  then show ?thesis using that by (cases rule: run_snocE) auto
qed

section \<open>Authentication\<close>

text \<open>
  The trace begins with a login under the name \<open>u\<close>, a challenge, a response and a password
  lookup, and the hash of the response is that of challenge, nonce and the password found.
\<close>

definition authenticated :: "'d env \<Rightarrow> bytes \<Rightarrow> event list \<Rightarrow> bool" where
  "authenticated env u es \<longleftrightarrow>
     (\<exists>l r rows rest. es = [Recv (MLogin l), Sent (MChallenge \<lparr>ch_challenge = map (env_rand env) [0..<8]\<rparr>),
        Recv (MResponse r), Query SELECT_PASSWORD [u] rows, Sent (server_ack PASSWORD_AUTH)] @ rest
      \<and> lg_username l = u \<and> fst (last_string [] rows) \<noteq> []
      \<and> rs_hash r = hex (env_sha env (map (env_rand env) [0..<8] @ rs_nonce r @ fst (last_string [] rows))))"

lemma authenticated_snoc [intro]: "authenticated env u es \<Longrightarrow> authenticated env u (es @ [e])"
  unfolding authenticated_def by force

lemma authenticated_append: "authenticated env u es \<Longrightarrow> authenticated env u (es @ es')"
  unfolding authenticated_def by force

lemma authenticated_user:
  "authenticated env u es \<Longrightarrow> authenticated env u' (es @ es') \<Longrightarrow> u = u'"
  by (auto simp: authenticated_def)

text \<open>
  The trace of a session with key \<open>k\<close>: behind the authentication of \<open>u\<close> come a login message,
  the server's public key, a login message whose encrypted key decrypts to the 16 bytes \<open>k\<close>
  and the final acknowledgement. The trace determines both \<open>u\<close> and \<open>k\<close>.
\<close>

definition keyed :: "'d env \<Rightarrow> bytes \<Rightarrow> bytes \<Rightarrow> event list \<Rightarrow> bool" where
  "keyed env u k es \<longleftrightarrow> authenticated env u es \<and>
     (\<exists>l rest. drop 7 es = [Recv (MLogin l), Sent (server_ack SUCCESS)] @ rest
        \<and> env_rsa env (lg_encSymKey l) = Some k \<and> length k = 16)"

lemma keyed_append: "keyed env u k es \<Longrightarrow> keyed env u k (es @ es')"
proof -
  assume k: "keyed env u k es"
  then obtain l rest where es: "drop 7 es = [Recv (MLogin l), Sent (server_ack SUCCESS)] @ rest"
    "env_rsa env (lg_encSymKey l) = Some k" "length k = 16" and a: "authenticated env u es"
    by (auto simp: keyed_def)
  have "7 < length es" by (rule ccontr) (use es(1) in simp)
  then have "drop 7 (es @ es') = [Recv (MLogin l), Sent (server_ack SUCCESS)] @ (rest @ es')" using es(1) by simp
  with es(2,3) authenticated_append [OF a] show ?thesis unfolding keyed_def by blast
qed

lemma keyed_authenticated [dest]: "keyed env u k es \<Longrightarrow> authenticated env u es"
  by (simp add: keyed_def)

lemma keyed_unique: "keyed env u k es \<Longrightarrow> keyed env u' k' (es @ es') \<Longrightarrow> u = u' \<and> k = k'"
  using keyed_append [of env u k es es'] authenticated_user [of env u es u' es'] by (auto simp: keyed_def)

text \<open>What the trace must contain in the middle of a job, and what it looks like in each phase.\<close>

definition posted_by :: "bytes \<Rightarrow> event list \<Rightarrow> SPChatPollResponse \<Rightarrow> bool" where
  "posted_by u es pr \<longleftrightarrow> Recv (MPollResponse pr) \<in> set es \<and>
     (\<exists>m ms. pr_msgList pr = m # ms \<and> mm_sender m = u)"

definition answer_of :: "bytes \<Rightarrow> event list \<Rightarrow> bytes \<Rightarrow> bytes \<Rightarrow> bool" where
  "answer_of x es sql param \<longleftrightarrow>
     (\<exists>rows. Query sql [param] rows \<in> set es \<and> x = fst (last_string [] rows))"

lemma answer_of_snoc [intro]:
  "answer_of x es sql param \<Longrightarrow> answer_of x (es @ [e]) sql param"
  "answer_of (fst (last_string [] rows)) (es @ [Query sql [param] rows]) sql param"
  by (auto simp: answer_of_def)

fun job_history :: "'d env \<Rightarrow> bytes \<Rightarrow> bytes \<Rightarrow> event list \<Rightarrow> job \<Rightarrow> bool" where
  "job_history env u k es Idle \<longleftrightarrow> True"
| "job_history env u k es (Polled p) \<longleftrightarrow> Recv (MPoll p) \<in> set es \<and> pl_username p = u"
| "job_history env u k es (Answering p f i) \<longleftrightarrow> Recv (MPoll p) \<in> set es \<and> pl_username p = u \<and>
     (\<exists>rows. Query SELECT_MESSAGES [seconds_string (pl_time p), u] rows \<in> set es
        \<and> f = fst (fetch_rows nothing_fetched rows))"
| "job_history env u k es (Posted pr) \<longleftrightarrow> posted_by u es pr"
| "job_history env u k es (Filing pr ids) \<longleftrightarrow> posted_by u es pr \<and>
     Update INSERT_MESSAGE [posted_text env k (pr_msgList pr)] \<in> set es \<and>
     (0 < length ids \<longrightarrow> answer_of (ids ! 0) es SELECT_USER_ID u) \<and>
     (1 < length ids \<longrightarrow> answer_of (ids ! 1) es SELECT_USER_ID (mm_receiver (hd (pr_msgList pr)))) \<and>
     (2 < length ids \<longrightarrow> answer_of (ids ! 2) es SELECT_MESSAGE_ID (posted_text env k (pr_msgList pr)))"

fun history :: "'d env \<Rightarrow> event list \<Rightarrow> phase \<Rightarrow> bool" where
  "history env es Start \<longleftrightarrow> es = []"
| "history env es (GotLogin u) \<longleftrightarrow> (\<exists>l. es = [Recv (MLogin l)] \<and> lg_username l = u)"
| "history env es (Challenged u c) \<longleftrightarrow> c = map (env_rand env) [0..<8] \<and>
     (\<exists>l. es = [Recv (MLogin l), Sent (MChallenge \<lparr>ch_challenge = c\<rparr>)] \<and> lg_username l = u)"
| "history env es (Answered u c r) \<longleftrightarrow> c = map (env_rand env) [0..<8] \<and>
     (\<exists>l. es = [Recv (MLogin l), Sent (MChallenge \<lparr>ch_challenge = c\<rparr>), Recv (MResponse r)]
        \<and> lg_username l = u)"
| "history env es (LookedUp u c r pw) \<longleftrightarrow> c = map (env_rand env) [0..<8] \<and>
     (\<exists>l rows. es = [Recv (MLogin l), Sent (MChallenge \<lparr>ch_challenge = c\<rparr>), Recv (MResponse r),
        Query SELECT_PASSWORD [u] rows] \<and> lg_username l = u \<and> pw = fst (last_string [] rows))"
| "history env es (Verified u) \<longleftrightarrow> authenticated env u es \<and> length es = 5"
| "history env es (KeyAsked u) \<longleftrightarrow> authenticated env u es \<and> length es = 6"
| "history env es (KeyOffered u) \<longleftrightarrow> authenticated env u es \<and> length es = 7"
| "history env es (KeyGiven u l) \<longleftrightarrow> authenticated env u es \<and> drop 7 es = [Recv (MLogin l)]"
| "history env es (Chat u k j) \<longleftrightarrow> keyed env u k es \<and> job_history env u k es j"
| "history env es Doomed \<longleftrightarrow> True"
| "history env es Ended \<longleftrightarrow> (\<exists>es'. es = es' @ [Closed])"

lemma verified_now:
  assumes "fst (last_string [] rows) \<noteq> []"
    and "rs_hash r = hex (env_sha env (map (env_rand env) [0..<8] @ rs_nonce r @ fst (last_string [] rows)))"
  shows "authenticated env (lg_username l) [Recv (MLogin l), Sent (MChallenge \<lparr>ch_challenge = map (env_rand env) [0..<8]\<rparr>),
    Recv (MResponse r), Query SELECT_PASSWORD [lg_username l] rows, Sent (server_ack PASSWORD_AUTH)]"
  unfolding authenticated_def using assms by blast

lemma key_given:
  assumes "authenticated env u es" and "drop 7 es = [Recv (MLogin l)]"
    and "env_rsa env (lg_encSymKey l) = Some k" and "length k = 16"
  shows "keyed env u k (es @ [Sent (server_ack SUCCESS)])"
proof -
  have "length es = 8" using arg_cong [OF assms(2), of length] by simp
  then show ?thesis using assms by (auto simp: keyed_def)
qed

lemma history_step:
  assumes "step env p e q" and "history env es p"
  shows "history env (es @ [e]) q"
  using assms
  by (cases rule: step.cases)
    (auto simp: verified_now posted_by_def numeral_2_eq_2 keyed_append intro: key_given)

lemma run_history: "run env es p \<Longrightarrow> history env es p"
  by (induction rule: run.induct) (auto intro: history_step)

lemma run_closed: "run env es p \<Longrightarrow> Closed \<in> set (butlast es) \<or> Closed \<in> set es \<and> p \<noteq> Ended \<Longrightarrow> False"
proof (induction rule: run.induct)
  case (run_step es p e q)
  have "Closed \<notin> set es"
  proof
    assume "Closed \<in> set es"
    with run_step.IH have "p = Ended" by auto
    with run_step.hyps(2) show False by (simp add: step_ended)
  qed
  with run_step.prems run_step.hyps(2) show False
    by (auto elim: step_closedE)
qed simp

section \<open>Safety\<close>

text \<open>
  The events only an authenticated client can cause: every change of the database, every
  look at stored messages, every message delivered, and the final acknowledgement.
\<close>

fun privileged :: "event \<Rightarrow> bool" where
  "privileged (Update sql ps) = True"
| "privileged (Query sql ps rows) = (sql \<noteq> SELECT_PASSWORD)"
| "privileged (Sent (MPollResponse pr)) = True"
| "privileged (Sent (MACK a)) = (ack_error a = SUCCESS)"
| "privileged _ = False"

lemma privileged_step:
  assumes "step env p e q" and "privileged e" and "history env es p"
  shows "\<exists>u. authenticated env u es"
  using assms by (cases rule: step.cases) (auto simp: server_ack_def)

lemma privileged_authenticated:
  assumes "run env (pre @ e # post) q" and "privileged e"
  shows "\<exists>u. authenticated env u pre"
  using assms(1) by (rule run_splitE) (use assms(2) privileged_step run_history in blast)

text \<open>A message is delivered only to the authenticated user it was fetched for.\<close>

lemma delivered_to_owner:
  assumes "run env (pre @ Sent (MPollResponse pr) # post) q"
  obtains u k p i rows where "keyed env u k pre" "Recv (MPoll p) \<in> set pre" "pl_username p = u"
    "Query SELECT_MESSAGES [seconds_string (pl_time p), u] rows \<in> set pre"
    "proper_answer env u k p (fst (fetch_rows nothing_fetched rows)) i pr"
  using assms
proof (rule run_splitE)
  fix p p' assume "run env pre p" and s: "step env p (Sent (MPollResponse pr)) p'"
  from this(1) have "history env pre p" by (rule run_history)
  with s that show ?thesis by (auto elim!: step_deliverE simp: server_ack_def)
qed

text \<open>
  Only two statements ever change the database. A message is stored when its first element
  carries the authenticated user's name, and it is filed under the identifiers looked up for
  that user, the first element's receiver and the text.
\<close>

lemma update_cases:
  assumes "run env (pre @ Update sql ps # post) q"
  obtains u k pr where "keyed env u k pre" "posted_by u pre pr"
    "sql = INSERT_MESSAGE" "ps = [posted_text env k (pr_msgList pr)]"
  | u k pr s r i where "keyed env u k pre" "posted_by u pre pr"
    "sql = INSERT_TRANSACTION" "ps = [s, r, i, seconds_string (mm_time (hd (pr_msgList pr)))]"
    "answer_of s pre SELECT_USER_ID u" "answer_of r pre SELECT_USER_ID (mm_receiver (hd (pr_msgList pr)))"
    "answer_of i pre SELECT_MESSAGE_ID (posted_text env k (pr_msgList pr))"
    "Update INSERT_MESSAGE [posted_text env k (pr_msgList pr)] \<in> set pre"
  using assms
proof (rule run_splitE)
  fix p p' assume "run env pre p" and s: "step env p (Update sql ps) p'"
  from this(1) have "history env pre p" by (rule run_history)
  with s that show ?thesis by (auto elim!: step_updateE)
qed

end
