(* ===== verification/Refinement.thy ===== *)
theory Refinement
  imports Protocol
begin

text \<open>
  \<open>clientConnectStart\<close> refines the protocol machine: whatever the client sends and however
  the session ends, the trace of the thread is a run of the machine, and the socket is closed
  exactly when the machine has ended.
\<close>

section \<open>The simulation\<close>

text \<open>
  \<open>d\<close> is the descriptor the thread was given; the relation says that the thread's world is in
  phase \<open>p\<close>.
\<close>

definition in_phase :: "'d env \<Rightarrow> int \<Rightarrow> phase \<Rightarrow> 'd world \<Rightarrow> bool" where
  "in_phase env d p w \<longleftrightarrow> 0 \<le> d \<and> run env (w_trace w) p \<and>
     (if p = Ended then sockDesc (w_sock w) = -1 \<and> closes (w_sock w) = [d]
      else sockDesc (w_sock w) = d \<and> closes (w_sock w) = [])"

definition in_open_phase :: "'d env \<Rightarrow> int \<Rightarrow> 'd world \<Rightarrow> bool" where
  "in_open_phase env d w \<longleftrightarrow> (\<exists>p. p \<noteq> Ended \<and> in_phase env d p w)"

fun post_ok :: "'d env \<Rightarrow> int \<Rightarrow> ('a \<Rightarrow> phase \<Rightarrow> bool) \<Rightarrow> 'a flow \<times> 'd world \<Rightarrow> bool" where
  "post_ok env d Q (Next a, w) \<longleftrightarrow> (\<exists>p. p \<noteq> Ended \<and> Q a p \<and> in_phase env d p w)"
| "post_ok env d Q (Returned, w) \<longleftrightarrow> in_phase env d Ended w"
| "post_ok env d Q (Stopped x, w) \<longleftrightarrow> in_open_phase env d w"
| "post_ok env d Q (OutOfFuel, w) \<longleftrightarrow> in_open_phase env d w"

definition act_ok :: "'d env \<Rightarrow> int \<Rightarrow> phase \<Rightarrow> ('d, 'a) act \<Rightarrow> ('a \<Rightarrow> phase \<Rightarrow> bool) \<Rightarrow> bool" where
  "act_ok env d p m Q \<longleftrightarrow> p \<noteq> Ended \<and> (\<forall>w. in_phase env d p w \<longrightarrow> post_ok env d Q (m w))"

lemma act_okI:
  "p \<noteq> Ended \<Longrightarrow> (\<And>w. in_phase env d p w \<Longrightarrow> post_ok env d Q (m w)) \<Longrightarrow> act_ok env d p m Q"
  by (simp add: act_ok_def)

lemma act_okD: "act_ok env d p m Q \<Longrightarrow> in_phase env d p w \<Longrightarrow> post_ok env d Q (m w)"
  by (simp add: act_ok_def)

lemma in_phase_step:
  assumes "in_phase env d p w" and "step env p e q" and "p \<noteq> Ended" and "q \<noteq> Ended"
    and "w_trace w' = w_trace w @ [e]"
    and "sockDesc (w_sock w') = sockDesc (w_sock w)" and "closes (w_sock w') = closes (w_sock w)"
  shows "in_phase env d q w'"
  using assms by (auto simp: in_phase_def intro: run_step)

lemma in_phase_same:
  assumes "in_phase env d p w" and "w_trace w' = w_trace w"
    and "sockDesc (w_sock w') = sockDesc (w_sock w)" and "closes (w_sock w') = closes (w_sock w)"
  shows "in_phase env d p w'"
  using assms by (simp add: in_phase_def)

lemma in_phase_delete:
  "in_phase env d p w \<Longrightarrow> p \<noteq> Ended \<Longrightarrow> in_phase env d Ended (delete_sock w)"
  by (auto simp: in_phase_def delete_sock_def log_event_def Socket_delete_def Socket_close_def
      intro: run_step close)

section \<open>Rules\<close>

lemma ok_bind:
  assumes "act_ok env d p m Q" and "\<And>a q. Q a q \<Longrightarrow> q \<noteq> Ended \<Longrightarrow> act_ok env d q (f a) R"
  shows "act_ok env d p (abind m f) R"
proof (rule act_okI)
  show "p \<noteq> Ended" using assms(1) by (simp add: act_ok_def)
next
  fix w assume "in_phase env d p w"
  with assms(1) have "post_ok env d Q (m w)" by (rule act_okD)
  then show "post_ok env d R (abind m f w)"
    by (cases "m w"; cases "fst (m w)") (auto simp: abind_def dest: assms(2) [THEN act_okD])
qed

lemma ok_weaken:
  assumes "act_ok env d p m Q" and "\<And>a q. Q a q \<Longrightarrow> Q' a q"
  shows "act_ok env d p m Q'"
proof (rule act_okI)
  show "p \<noteq> Ended" using assms(1) by (simp add: act_ok_def)
next
  fix w assume "in_phase env d p w"
  with assms(1) have "post_ok env d Q (m w)" by (rule act_okD)
  then show "post_ok env d Q' (m w)"
    by (cases "m w"; cases "fst (m w)") (auto dest: assms(2))
qed

lemma ok_ret: "p \<noteq> Ended \<Longrightarrow> Q a p \<Longrightarrow> act_ok env d p (ret a) Q"
  by (auto simp: act_ok_def ret_def)

lemma ok_lift: "p \<noteq> Ended \<Longrightarrow> (\<And>a. r = Inr a \<Longrightarrow> Q a p) \<Longrightarrow> act_ok env d p (lift_res r) Q"
  by (cases r) (auto simp: act_ok_def lift_res_def in_open_phase_def)

lemma ok_drop: "p \<noteq> Ended \<Longrightarrow> act_ok env d p drop_client Q"
  by (simp add: act_ok_def drop_client_def in_phase_delete)

lemma ok_time0: "p \<noteq> Ended \<Longrightarrow> act_ok env d p (time0 env) (\<lambda>_ q. q = p)"
  by (auto simp: act_ok_def time0_def intro: in_phase_same)

lemma decode_keeps:
  "SPChatMessage_decode h t s = (r, s') \<Longrightarrow> sockDesc s' = sockDesc s \<and> closes s' = closes s"
  by (drule decode_takes) (metis sock.select_convs sock.surjective sock.update_convs(2))

lemma send_keeps:
  "CommunicatingSocket_send buf n s = (r, s') \<Longrightarrow> sockDesc s' = sockDesc s \<and> closes s' = closes s"
  by (auto elim!: send_shape)

lemma ok_receive:
  assumes p: "p \<noteq> Ended" and s: "\<And>m. \<exists>q. q \<noteq> Ended \<and> step env p (Recv m) q \<and> Q m q"
  shows "act_ok env d p (receive env) Q"
proof (rule act_okI)
  fix w assume w: "in_phase env d p w"
  obtain r s' where d: "SPChatMessage_decode (env_host env) (w_decodes w) (w_sock w) = (r, s')"
    by (cases "SPChatMessage_decode (env_host env) (w_decodes w) (w_sock w)")
  show "post_ok env d Q (receive env w)"
  proof (cases r)
    case (Inl x)
    then show ?thesis using d decode_keeps [OF d] p
      by (auto simp: receive_def in_open_phase_def intro!: exI [of _ p] in_phase_same [OF w])
  next
    case (Inr m)
    obtain q where q: "q \<noteq> Ended" "step env p (Recv m) q" "Q m q" using s [of m] by auto
    have "in_phase env d q (log_event (Recv m) (w\<lparr>w_sock := s', w_decodes := Suc (w_decodes w)\<rparr>))"
      by (rule in_phase_step [OF w q(2) p q(1)]) (simp_all add: log_event_def decode_keeps [OF d])
    with d Inr q show ?thesis by (auto simp: receive_def)
  qed
qed (rule p)

lemma ok_send:
  assumes p: "p \<noteq> Ended" and q: "step env p (Sent m) q" "q \<noteq> Ended"
  shows "act_ok env d p (send_message env m) (\<lambda>_ q'. q' = q)"
proof (rule act_okI)
  fix w assume w: "in_phase env d p w"
  obtain r s' where d: "CommunicatingSocket_send (encode (host_endian (env_host env)) [] m)
      (sint (ucast (getTotalMsgLength m) :: cint)) (w_sock w) = (r, s')" (is "?s = _")
    by (cases ?s)
  show "post_ok env d (\<lambda>_ q'. q' = q) (send_message env m w)"
  proof (cases r)
    case (Inl x)
    then show ?thesis using d send_keeps [OF d] p
      by (auto simp: send_message_def in_open_phase_def intro!: exI [of _ p] in_phase_same [OF w])
  next
    case (Inr u)
    have "in_phase env d q (log_event (Sent m) (w\<lparr>w_sock := s'\<rparr>))"
      by (rule in_phase_step [OF w q(1) p q(2)]) (simp_all add: log_event_def send_keeps [OF d])
    with d Inr q(2) show ?thesis by (simp add: send_message_def)
  qed
qed (rule p)

lemma send_ack_eq: "send_ack env err = send_message env (server_ack err)"
  by (rule ext) (simp add: send_ack_def server_ack_def)

lemma ok_ack:
  "p \<noteq> Ended \<Longrightarrow> step env p (Sent (server_ack err)) q \<Longrightarrow> q \<noteq> Ended \<Longrightarrow>
   act_ok env d p (send_ack env err) (\<lambda>_ q'. q' = q)"
  unfolding send_ack_eq by (rule ok_send)

text \<open>A stage that waits for one kind of message and drops the client on any other.\<close>

lemma stray_steps [intro]:
  "step env Start (Recv m) Doomed" "step env (Challenged u c) (Recv m) Doomed"
  "step env (Verified u) (Recv m) Doomed" "step env (KeyOffered u) (Recv m) Doomed"
  "step env (Chat u k j) (Recv m) Doomed"
  by (rule stray; simp)+

lemma ok_expect_login:
  assumes p: "p \<noteq> Ended" "\<And>m. step env p (Recv m) Doomed"
    and q: "\<And>l. step env p (Recv (MLogin l)) (q l)" "\<And>l. q l \<noteq> Ended"
    and A: "\<And>l. act_ok env d (q l) (A l) R"
  shows "act_ok env d p (abind (receive env) (\<lambda>m. case m of MLogin l \<Rightarrow> A l | _ \<Rightarrow> drop_client)) R"
proof (rule ok_bind)
  let ?Q = "\<lambda>m p'. p' = (case m of MLogin l \<Rightarrow> q l | _ \<Rightarrow> Doomed)"
  show "act_ok env d p (receive env) ?Q"
    by (rule ok_receive [OF p(1)]) (use p(2) q in \<open>auto split: SPChatMessage.splits\<close>)
  show "act_ok env d p' (case m of MLogin l \<Rightarrow> A l | _ \<Rightarrow> drop_client) R" if "?Q m p'" for m p'
    using that A by (cases m) (simp_all add: ok_drop)
qed

lemma ok_expect_response:
  assumes p: "p \<noteq> Ended" "\<And>m. step env p (Recv m) Doomed"
    and q: "\<And>r. step env p (Recv (MResponse r)) (q r)" "\<And>r. q r \<noteq> Ended"
    and A: "\<And>r. act_ok env d (q r) (A r) R"
  shows "act_ok env d p (abind (receive env) (\<lambda>m. case m of MResponse r \<Rightarrow> A r | _ \<Rightarrow> drop_client)) R"
proof (rule ok_bind)
  let ?Q = "\<lambda>m p'. p' = (case m of MResponse r \<Rightarrow> q r | _ \<Rightarrow> Doomed)"
  show "act_ok env d p (receive env) ?Q"
    by (rule ok_receive [OF p(1)]) (use p(2) q in \<open>auto split: SPChatMessage.splits\<close>)
  show "act_ok env d p' (case m of MResponse r \<Rightarrow> A r | _ \<Rightarrow> drop_client) R" if "?Q m p'" for m p'
    using that A by (cases m) (simp_all add: ok_drop)
qed

section \<open>The database blocks\<close>

lemma in_phase_query:
  assumes "in_phase env d p w" and "sql_query env sql ps w = ((rows, ok), w')"
    and "step env p (Query sql ps rows) q" and "p \<noteq> Ended" and "q \<noteq> Ended"
  shows "in_phase env d q w'"
  using assms(2) by (intro in_phase_step [OF assms(1,3,4,5)])
    (auto simp: sql_query_def log_event_def split: prod.splits)

lemma in_phase_update:
  assumes "in_phase env d p w" and "sql_update env sql ps w = (ok, w')"
    and "step env p (Update sql ps) q" and "p \<noteq> Ended" and "q \<noteq> Ended"
  shows "in_phase env d (if ok then q else p) w'"
proof (cases ok)
  case True
  have "in_phase env d q w'"
    using assms(2) True by (intro in_phase_step [OF assms(1,3,4,5)])
      (auto simp: sql_update_def log_event_def split: prod.splits)
  with True show ?thesis by simp
next
  case False
  with assms(2) show ?thesis by (auto simp: sql_update_def split: prod.splits intro: in_phase_same [OF assms(1)])
qed

lemma in_phase_connect:
  "in_phase env d p w \<Longrightarrow> sql_connect env w = (ok, w') \<Longrightarrow> in_phase env d p w'"
  by (auto simp: sql_connect_def split: prod.splits intro: in_phase_same)

lemma in_phase_lookup:
  assumes w: "in_phase env d (Answered u c r) w" and l: "lookup_password env u w = ((pw, completed), w')"
  shows "pw = [] \<and> in_phase env d (Answered u c r) w' \<or> in_phase env d (LookedUp u c r pw) w'"
proof -
  obtain ok w1 where c: "sql_connect env w = (ok, w1)" by (cases "sql_connect env w")
  obtain rows ok2 w2 where q: "sql_query env SELECT_PASSWORD [u] w1 = ((rows, ok2), w2)"
    by (cases "sql_query env SELECT_PASSWORD [u] w1") auto
  note w1 = in_phase_connect [OF w c]
  have "in_phase env d (LookedUp u c r (fst (last_string [] rows))) w2"
    by (rule in_phase_query [OF w1 q lookup]) simp_all
  with l c q w1 show ?thesis
    by (cases ok) (auto simp: lookup_password_def split: prod.splits)
qed

lemma in_phase_fetch:
  assumes w: "in_phase env d (Chat u k (Polled p)) w" and f: "fetch_messages env (pl_time p) u w = (f, w')"
  shows "(\<exists>j. f = nothing_fetched \<and> in_phase env d (Chat u k j) w') \<or> in_phase env d (Chat u k (Answering p f 0)) w'"
proof -
  obtain ok w1 where c: "sql_connect env w = (ok, w1)" by (cases "sql_connect env w")
  let ?ps = "[seconds_string (pl_time p), u]"
  obtain rows ok2 w2 where q: "sql_query env SELECT_MESSAGES ?ps w1 = ((rows, ok2), w2)"
    by (cases "sql_query env SELECT_MESSAGES ?ps w1") auto
  note w1 = in_phase_connect [OF w c]
  have "in_phase env d (Chat u k (Answering p (fst (fetch_rows nothing_fetched rows)) 0)) w2"
    by (rule in_phase_query [OF w1 q fetch]) simp_all
  with f c q w1 show ?thesis
    by (cases ok) (auto simp: fetch_messages_def)
qed

lemma in_phase_select:
  assumes w: "in_phase env d p w" and s: "select_id env sql x w = (r, w')" and p: "p \<noteq> Ended"
    and q: "\<And>rows. step env p (Query sql [x] rows) (q (fst (last_string [] rows)))" "\<And>i. q i \<noteq> Ended"
  shows "\<exists>i. in_phase env d (q i) w' \<and> (\<forall>y. r = Some y \<longrightarrow> i = y)"
proof -
  obtain rows ok w1 where c: "sql_query env sql [x] w = ((rows, ok), w1)"
    by (cases "sql_query env sql [x] w") auto
  have "in_phase env d (q (fst (last_string [] rows))) w1"
    by (rule in_phase_query [OF w c q(1) p q(2)])
  with s c show ?thesis by (auto simp: select_id_def split: prod.splits if_splits)
qed

text \<open>An identifier is looked up, and the storing goes on with it or stops.\<close>

lemma in_phase_identify:
  assumes w: "in_phase env d p w" "p \<noteq> Ended"
    and q: "\<And>rows. step env p (Query sql [x] rows) (Chat u k (q (fst (last_string [] rows))))"
    and f: "\<And>i w'. in_phase env d (Chat u k (q i)) w' \<Longrightarrow> \<exists>j. in_phase env d (Chat u k j) (f i w')"
  shows "\<exists>j. in_phase env d (Chat u k j) (case select_id env sql x w of (None, w) \<Rightarrow> w | (Some i, w) \<Rightarrow> f i w)"
proof -
  obtain r w1 where s: "select_id env sql x w = (r, w1)" by (cases "select_id env sql x w")
  obtain i where i: "in_phase env d (Chat u k (q i)) w1" "\<forall>y. r = Some y \<longrightarrow> i = y"
    using in_phase_select [OF w(1) s w(2), of "\<lambda>i. Chat u k (q i)"] q by auto
  show ?thesis
  proof (cases r)
    case None
    then show ?thesis using i(1) s by auto
  next
    case (Some y)
    then show ?thesis using f [OF i(1)] i(2) s by simp
  qed
qed

lemma in_phase_file:
  assumes "in_phase env d (Chat u k (Filing pr [s, r, i])) w"
  shows "\<exists>j. in_phase env d (Chat u k j) (snd (sql_update env INSERT_TRANSACTION
    [s, r, i, seconds_string (mm_time (hd (pr_msgList pr)))] w))"
proof -
  let ?ps = "[s, r, i, seconds_string (mm_time (hd (pr_msgList pr)))]"
  obtain ok w' where c: "sql_update env INSERT_TRANSACTION ?ps w = (ok, w')"
    by (cases "sql_update env INSERT_TRANSACTION ?ps w")
  have "in_phase env d (if ok then Chat u k Idle else Chat u k (Filing pr [s, r, i])) w'"
    by (rule in_phase_update [OF assms c]) (simp_all add: file_msg)
  then show ?thesis using c by (cases ok) auto
qed

lemma in_phase_store:
  assumes w: "in_phase env d (Chat u k (Posted pr)) w" and ms: "pr_msgList pr = m # ms" "mm_sender m = u"
    and tx: "text = posted_text env k (pr_msgList pr)"
  shows "\<exists>j. in_phase env d (Chat u k j) (store_message env text u (mm_receiver m) (mm_time m) w)"
proof -
  have m: "hd (pr_msgList pr) = m" by (simp add: ms)
  obtain ok0 w0 where c0: "sql_connect env w = (ok0, w0)" by (cases "sql_connect env w")
  note w0 = in_phase_connect [OF w c0]
  obtain ok1 w1 where c1: "sql_update env INSERT_MESSAGE [text] w0 = (ok1, w1)"
    by (cases "sql_update env INSERT_MESSAGE [text] w0")
  have w1: "in_phase env d (if ok1 then Chat u k (Filing pr []) else Chat u k (Posted pr)) w1"
    by (rule in_phase_update [OF w0 c1]) (auto simp: tx intro: insert)
  show ?thesis
  proof (cases "ok0 \<and> ok1")
    case False
    have "store_message env text u (mm_receiver m) (mm_time m) w = (if ok0 then w1 else w0)"
      using False c0 c1 by (cases ok0) (simp_all add: store_message_def)
    with False w0 w1 show ?thesis by (cases ok0) auto
  next
    case True
    then have w1: "in_phase env d (Chat u k (Filing pr [])) w1" using w1 by simp
    have i: "\<exists>j. in_phase env d (Chat u k j) (case select_id env SELECT_MESSAGE_ID text w of (None, w) \<Rightarrow> w
        | (Some i, w) \<Rightarrow> snd (sql_update env INSERT_TRANSACTION [s, r, i, seconds_string (mm_time m)] w))"
      if "in_phase env d (Chat u k (Filing pr [s, r])) w" for s r w
      by (rule in_phase_identify [OF that, where q = "\<lambda>i. Filing pr [s, r, i]"])
        (simp_all add: message_id tx in_phase_file [where pr = pr, unfolded m])
    have r: "\<exists>j. in_phase env d (Chat u k j) (case select_id env SELECT_USER_ID (mm_receiver m) w of (None, w) \<Rightarrow> w
        | (Some r, w) \<Rightarrow> (case select_id env SELECT_MESSAGE_ID text w of (None, w) \<Rightarrow> w
        | (Some i, w) \<Rightarrow> snd (sql_update env INSERT_TRANSACTION [s, r, i, seconds_string (mm_time m)] w)))"
      if "in_phase env d (Chat u k (Filing pr [s])) w" for s w
      by (rule in_phase_identify [OF that, where q = "\<lambda>r. Filing pr [s, r]"])
        (simp, simp add: receiver_id m [symmetric], rule i)
    from in_phase_identify [OF w1, where q = "\<lambda>s. Filing pr [s]", OF _ sender_id r]
    have "\<exists>j. in_phase env d (Chat u k j) (case select_id env SELECT_USER_ID u w1 of (None, w) \<Rightarrow> w
        | (Some s, w) \<Rightarrow> (case select_id env SELECT_USER_ID (mm_receiver m) w of (None, w) \<Rightarrow> w
        | (Some r, w) \<Rightarrow> (case select_id env SELECT_MESSAGE_ID text w of (None, w) \<Rightarrow> w
        | (Some i, w) \<Rightarrow> snd (sql_update env INSERT_TRANSACTION [s, r, i, seconds_string (mm_time m)] w))))"
      by simp
    then show ?thesis using c0 c1 \<open>ok0 \<and> ok1\<close> by (simp add: store_message_def)
  qed
qed

section \<open>The stages\<close>

text \<open>
  What the theorems ask of the environment: the digest has 32 bytes, and the stack cannot
  hold an array of \<open>2\<^sup>3\<^sup>1\<close> bytes.
\<close>

definition env_good :: "'d env \<Rightarrow> bool" where
  "env_good env \<longleftrightarrow> (\<forall>x. length (env_sha env x) = 32) \<and> max_vla (env_host env) < 2 ^ 31"

lemma ok_lift_bind:
  "p \<noteq> Ended \<Longrightarrow> (\<And>a. r = Inr a \<Longrightarrow> act_ok env d p (f a) R) \<Longrightarrow> act_ok env d p (abind (lift_res r) f) R"
  by (rule ok_bind [OF ok_lift [where Q = "\<lambda>a q. q = p \<and> r = Inr a"]]) auto

lemma ok_send_bind:
  "p \<noteq> Ended \<Longrightarrow> step env p (Sent m) q \<Longrightarrow> q \<noteq> Ended \<Longrightarrow> act_ok env d q (f ()) R \<Longrightarrow>
   act_ok env d p (abind (send_message env m) f) R"
  by (rule ok_bind [where Q = "\<lambda>_ q'. q' = q"], rule ok_send) auto

lemma ok_await:
  "act_ok env d Start (await_login env) (\<lambda>(u, c) q. q = Challenged u c \<and> length c = 8)"
  unfolding await_login_def
  by (rule ok_expect_login [where q = "\<lambda>l. GotLogin (lg_username l)"])
    (auto simp: Let_def ch_new_iff intro!: login ok_lift_bind ok_send_bind [OF _ challenge] ok_ret)

lemma expected_hash_eq:
  assumes good: "env_good env" and c: "length c = 8" and pw: "int (length pw) \<le> max_vla (env_host env)"
    and h: "expected_hash env c nonce pw = Inr buf"
  shows "buf = hex (env_sha env (c @ nonce @ pw))"
proof -
  have small: "length pw < 2 ^ 31" using good pw by (simp add: env_good_def)
  then have sz: "sint (word_of_nat (length pw) :: cint) = int (length pw)"
    by (rule sint_word_of_nat32)
  have c8: "rdn c 0 8 = Inr c" using rdn_eq [of 0 8 c] c by simp
  have p: "rdn pw 0 (length pw) = Inr pw" using rdn_eq [of 0 "length pw" pw] by simp
  let ?s = "c @ nonce @ pw"
  have n: "8 + int (length pw) + int (length nonce) = int (length ?s)" using c by simp
  have "sha256_varbytes (env_sha env) ?s (map (env_buffer env) [0..<65]) (int (length ?s))
      = Inr (hex (env_sha env ?s) @ [0])"
    using sha256_varbytes_hex [of "env_sha env" "map (env_buffer env) [0..<65]" "int (length ?s)" ?s] good
    by (simp add: env_good_def)
  then show ?thesis
    using h c8 p unfolding expected_hash_def sz Let_def n
    by (simp add: c_string_hex split: if_splits)
qed

lemma ok_check_password:
  "act_ok env d (Answered u c r) (check_password env u) (\<lambda>pw q. q = LookedUp u c r pw \<and> pw \<noteq> [])"
proof (rule act_okI)
  fix w assume w: "in_phase env d (Answered u c r) w"
  obtain pw completed w1 where l: "lookup_password env u w = ((pw, completed), w1)"
    by (cases "lookup_password env u w") auto
  have refuse: "act_ok env d p (abind (send_ack env DEFAULT_ERROR) (\<lambda>_. drop_client)) Q"
    if "p = Answered u c r \<or> p = LookedUp u c r []" for p and Q :: "bytes \<Rightarrow> phase \<Rightarrow> bool"
    unfolding send_ack_eq using that
    by (auto intro!: ok_send_bind [where q = Doomed] ok_drop refuse_unreachable refuse_unknown)
  from in_phase_lookup [OF w l]
  show "post_ok env d (\<lambda>pw q. q = LookedUp u c r pw \<and> pw \<noteq> []) (check_password env u w)"
    using l refuse [THEN act_okD]
    by (cases "pw = []") (auto simp: check_password_def in_open_phase_def)
qed simp

lemma ok_response:
  assumes good: "env_good env" and c: "length c = 8"
  shows "act_ok env d (Challenged u c) (check_response env u c) (\<lambda>_ q. q = Verified u)"
proof -
  have accept: "act_ok env d (LookedUp u c r pw)
      (abind (lift_res (copy_password env pw)) (\<lambda>_.
       abind (lift_res (expected_hash env c (rs_nonce r) pw)) (\<lambda>buffer.
       if rs_hash r = buffer then send_ack env PASSWORD_AUTH else drop_client))) (\<lambda>_ q. q = Verified u)"
    if "pw \<noteq> []" for r pw
  proof (intro ok_lift_bind)
    fix x buf assume cp: "copy_password env pw = Inr x" and h: "expected_hash env c (rs_nonce r) pw = Inr buf"
    have "int (length pw) \<le> max_vla (env_host env)"
      using cp by (auto simp: copy_password_def split: if_splits)
    from expected_hash_eq [OF good c this h]
    show "act_ok env d (LookedUp u c r pw) (if rs_hash r = buf then send_ack env PASSWORD_AUTH else drop_client)
        (\<lambda>_ q. q = Verified u)"
      using that by (auto intro!: ok_ack verify ok_drop)
  qed simp_all
  show ?thesis
    unfolding check_response_def
    by (rule ok_expect_response [where q = "Answered u c"])
      (auto intro!: answer ok_bind [OF ok_check_password] accept)
qed

lemma server_key_login_cases:
  assumes "server_key_login env = Inr l"
  shows "lg_keyType l = ASYMMETRIC_KEY" and "lg_username l = []"
    and "lg_key l = take ASYMMETRIC_LENGTH (c_string (env_pem env) @ [0])"
    and "pem_key (lg_key l)" and "lg_encSymKey l = []"
proof -
  let ?k = "c_string (env_pem env) @ [0]"
  obtain s where s: "rdn ?k 0 271 = Inr s"
    and l: "setKey ASYMMETRIC_KEY ?k 271 lg_uninit = Inr l"
    using assms by (auto simp: server_key_login_def SPChatLogin_new_def lg_setUsername_def lg_uninit_def
        rbind_eq_Inr key_consts split: if_splits)
  have len: "271 \<le> length ?k"
  proof (rule ccontr)
    assume "\<not> 271 \<le> length ?k"
    then have "rdn ?k (int 0) 271 = Inl (Undefined OutOfBounds)" by (intro rdn_short) simp_all
    with s show False by simp
  qed
  then have "s = take 271 ?k" using s rdn_eq [of 0 271 ?k] by simp
  then show "lg_keyType l = ASYMMETRIC_KEY" and "lg_username l = []"
    and "lg_key l = take ASYMMETRIC_LENGTH (c_string (env_pem env) @ [0])"
    and "pem_key (lg_key l)" and "lg_encSymKey l = []"
    using l s len by (auto simp: setKey_def key_consts setAsymmetricKey_iff lg_uninit_def split: if_splits)
qed

lemma ok_exchange:
  "act_ok env d (Verified u) (exchange_keys env) (\<lambda>k q. q = Chat u k Idle)"
  unfolding exchange_keys_def
proof (rule ok_expect_login [where q = "\<lambda>_. KeyAsked u"])
  fix l
  have last: "act_ok env d (KeyGiven u l2)
     (case env_rsa env (getEncSymKey l2) of
        None \<Rightarrow> lift_res (Inl (Throw CryptoException))
      | Some keyString \<Rightarrow>
          if length keyString = keysize then abind (send_ack env SUCCESS) (\<lambda>_. ret keyString)
          else drop_client) (\<lambda>k q. q = Chat u k Idle)" for l2
    by (auto simp: send_ack_eq keysize_def split: option.splits
        intro!: ok_lift ok_drop ok_send_bind [OF _ accept_key] ok_ret)
  show "act_ok env d (KeyAsked u)
     (abind (lift_res (server_key_login env)) (\<lambda>server2Client.
      abind (send_message env (MLogin server2Client)) (\<lambda>_.
      abind (receive env) (\<lambda>msgNewLogin. case msgNewLogin of
           MLogin loginNew \<Rightarrow>
             (case env_rsa env (getEncSymKey loginNew) of
                None \<Rightarrow> lift_res (Inl (Throw CryptoException))
              | Some keyString \<Rightarrow>
                  if length keyString = keysize
                  then abind (send_ack env SUCCESS) (\<lambda>_. ret keyString)
                  else drop_client)
         | _ \<Rightarrow> drop_client)))) (\<lambda>k q. q = Chat u k Idle)"
    by (intro ok_lift_bind ok_send_bind [where q = "KeyOffered u"] offer_key
        ok_expect_login [where q = "KeyGiven u"] last give_key) (auto simp: server_key_login_cases)
qed (auto intro: ask_key)

section \<open>The chat loop\<close>

lemma ok_chat_key:
  assumes "length k = 16 \<Longrightarrow> act_ok env d (Chat u k j) m Q"
  shows "act_ok env d (Chat u k j) m Q"
proof (rule act_okI)
  fix w assume w: "in_phase env d (Chat u k j) w"
  then have "length k = 16" by (auto simp: in_phase_def keyed_def dest: run_history)
  from act_okD [OF assms [OF this] w] show "post_ok env d Q (m w)" .
qed simp

lemma ok_world: "p \<noteq> Ended \<Longrightarrow> (\<And>w. act_ok env d p (m w) Q) \<Longrightarrow> act_ok env d p (\<lambda>w. m w w) Q"
  by (simp add: act_ok_def)

lemma poll_answer_proper:
  assumes k: "length k = 16" and a: "poll_answer env k p f stale i = Inr m"
  shows "\<exists>pr. m = MPollResponse pr \<and> proper_answer env (pl_username p) k p f i pr"
  using a unfolding poll_answer_def
  by (auto simp: rbind_eq_Inr aes_defined [OF k] rd_eq_Inr pl_getTime_def mm_new_iff
      SPChatPollResponse_new_def pr_setUsername_def pr_setListNum_def pr_setTotalList_def
      pr_setMsgList_def pr_uninit_def proper_answer_def split: if_splits)

lemma ok_answers:
  assumes k: "length k = 16" and u: "pl_username p = u"
  shows "act_ok env d (Chat u k (Answering p f i)) (answer_loop env k p f [i..<n])
           (\<lambda>_ q. \<exists>j. q = Chat u k j)"
proof (induction "n - i" arbitrary: i)
  case 0
  then show ?case by (auto intro: ok_ret)
next
  case (Suc m)
  then have IH: "act_ok env d (Chat u k (Answering p f (Suc i))) (answer_loop env k p f [Suc i..<n])
      (\<lambda>_ q. \<exists>j. q = Chat u k j)" by simp
  have "act_ok env d (Chat u k (Answering p f i))
      (\<lambda>w. abind (lift_res (poll_answer env k p f (env_stale env (w_decodes w) i) i)) (\<lambda>m.
        abind (send_message env m) (\<lambda>_. answer_loop env k p f [Suc i..<n])) w)
      (\<lambda>_ q. \<exists>j. q = Chat u k j)"
  proof (rule ok_world, simp, rule ok_lift_bind, simp)
    fix w m assume "poll_answer env k p f (env_stale env (w_decodes w) i) i = Inr m"
    then obtain pr where "m = MPollResponse pr" "proper_answer env u k p f i pr"
      using poll_answer_proper [OF k] u by blast
    then show "act_ok env d (Chat u k (Answering p f i))
        (abind (send_message env m) (\<lambda>_. answer_loop env k p f [Suc i..<n])) (\<lambda>_ q. \<exists>j. q = Chat u k j)"
      using IH by (auto intro: ok_send_bind [OF _ deliver])
  qed
  then show ?case using Suc.hyps(2) by (simp add: upt_conv_Cons)
qed

lemma chat_next: "in_phase env d (Chat u k j) w \<Longrightarrow> post_ok env d (\<lambda>_ q. \<exists>j. q = Chat u k j) (Next (), w)"
  by (simp only: post_ok.simps, rule exI [of _ "Chat u k j"]) simp

lemma ok_poll:
  assumes u: "pl_username p = u"
  shows "act_ok env d (Chat u k (Polled p)) (handle_poll env u k p) (\<lambda>_ q. \<exists>j. q = Chat u k j)"
proof -
  have *: "act_ok env d (Chat u k (Polled p))
      (\<lambda>w. case fetch_messages env (pl_time p) u w of (f, w) \<Rightarrow>
        answer_loop env k p f [0..<length (messageDb f)] w) (\<lambda>_ q. \<exists>j. q = Chat u k j)"
    if k: "length k = 16"
  proof (rule act_okI)
    fix w assume w: "in_phase env d (Chat u k (Polled p)) w"
    obtain f w1 where f: "fetch_messages env (pl_time p) u w = (f, w1)"
      by (cases "fetch_messages env (pl_time p) u w")
    have none: "answer_loop env k p nothing_fetched [0..<length (messageDb nothing_fetched)] w1 = (Next (), w1)"
      by (simp add: nothing_fetched_def ret_def)
    from in_phase_fetch [OF w f]
    have "post_ok env d (\<lambda>_ q. \<exists>j. q = Chat u k j) (answer_loop env k p f [0..<length (messageDb f)] w1)"
    proof (elim disjE exE conjE)
      fix j assume eq: "f = nothing_fetched" and w1: "in_phase env d (Chat u k j) w1"
      show ?thesis unfolding eq none by (rule chat_next [OF w1])
    next
      assume "in_phase env d (Chat u k (Answering p f 0)) w1"
      then show ?thesis by (rule ok_answers [OF k u, THEN act_okD])
    qed
    then show "post_ok env d (\<lambda>_ q. \<exists>j. q = Chat u k j) (case fetch_messages env (pl_time p) u w of (f, w) \<Rightarrow>
        answer_loop env k p f [0..<length (messageDb f)] w)"
      by (simp add: f)
  qed simp
  show ?thesis
    by (rule ok_chat_key) (auto simp: handle_poll_def u pl_getTime_def intro!: ok_lift_bind * split: if_splits)
qed

lemma decrypt_loop_eq:
  "length k = 16 \<Longrightarrow> decrypt_loop env k acc ms = Inr (acc @ posted_text env k ms)"
  by (induction ms arbitrary: acc) (simp_all add: aes_defined posted_text_def)

lemma ok_post:
  assumes ms: "pr_msgList pr = m # ms" "mm_sender m = u"
  shows "act_ok env d (Chat u k (Posted pr)) (handle_post env u k pr) (\<lambda>_ q. \<exists>j. q = Chat u k j)"
proof (rule ok_chat_key, rule act_okI)
  fix w assume k: "length k = 16" and w: "in_phase env d (Chat u k (Posted pr)) w"
  have "handle_post env u k pr w = (Next (),
      store_message env (posted_text env k (pr_msgList pr)) u (mm_receiver m) (mm_time m) w)"
  proof -
    have "decrypt_loop env k [] (pr_msgList pr) = Inr (posted_text env k (pr_msgList pr))"
      by (simp add: decrypt_loop_eq [OF k])
    moreover have "rd (pr_msgList pr) 0 = Inr m" by (simp add: rd_def ms(1))
    ultimately show ?thesis by (simp add: handle_post_def ms(2))
  qed
  with in_phase_store [OF w ms refl]
  show "post_ok env d (\<lambda>_ q. \<exists>j. q = Chat u k j) (handle_post env u k pr w)"
    using chat_next by metis
qed simp

lemma ok_post_doomed:
  "\<not> (\<exists>m ms. pr_msgList pr = m # ms \<and> mm_sender m = u) \<Longrightarrow>
   act_ok env d Doomed (handle_post env u k pr) Q"
  unfolding handle_post_def
  by (intro ok_lift_bind) (auto simp: rd_eq_Inr neq_Nil_conv intro: ok_drop)

lemma ok_poll_doomed: "pl_username p \<noteq> u \<Longrightarrow> act_ok env d Doomed (handle_poll env u k p) Q"
  by (simp add: handle_poll_def ok_drop)

lemma ok_round:
  "act_ok env d (Chat u k j) (abind (receive env) (handle_message env u k)) (\<lambda>_ q. \<exists>j. q = Chat u k j)"
proof (rule ok_bind)
  let ?q = "\<lambda>m. case m of
      MPoll p \<Rightarrow> if pl_username p = u then Chat u k (Polled p) else Doomed
    | MPollResponse pr \<Rightarrow> if \<exists>m ms. pr_msgList pr = m # ms \<and> mm_sender m = u then Chat u k (Posted pr) else Doomed
    | _ \<Rightarrow> Chat u k Idle"
  have "step env (Chat u k j) (Recv m) (?q m)" and "?q m \<noteq> Ended" for m
    by (cases m; auto intro: poll post skip_msg stray_steps)+
  then show "act_ok env d (Chat u k j) (receive env) (\<lambda>m q. q = ?q m)"
    by (intro ok_receive) auto
  show "act_ok env d q (handle_message env u k m) (\<lambda>_ q. \<exists>j. q = Chat u k j)" if "q = ?q m" for m q
    using that by (cases m)
      (auto simp: handle_message_def intro: ok_ret ok_poll ok_post ok_poll_doomed ok_post_doomed)
qed

lemma ok_chat:
  "act_ok env d (Chat u k j) (chat_loop env u k endTime fuel) (\<lambda>_ _. False)"
proof (induction fuel arbitrary: j)
  case 0
  then show ?case by (auto simp: act_ok_def in_open_phase_def)
next
  case (Suc fuel)
  have *: "act_ok env d (Chat u k j) (abind (receive env) (\<lambda>msgs.
      abind (handle_message env u k msgs) (\<lambda>_. chat_loop env u k endTime fuel))) (\<lambda>_ _. False)" for j
  proof -
    have "abind (receive env) (\<lambda>msgs. abind (handle_message env u k msgs) (\<lambda>_. chat_loop env u k endTime fuel))
        = abind (abind (receive env) (handle_message env u k)) (\<lambda>_. chat_loop env u k endTime fuel)"
      by (rule ext) (simp add: abind_assoc)
    then show ?thesis by (simp only:) (rule ok_bind [OF ok_round], auto intro: Suc.IH)
  qed
  show ?case
    by (simp, rule ok_bind [OF ok_time0]) (auto intro: ok_drop *)
qed

lemma ok_session:
  assumes "env_good env"
  shows "act_ok env d Start (session env fuel) (\<lambda>_ _. False)"
  unfolding session_def
proof (rule ok_bind [OF ok_time0])
  show "act_ok env d q (abind (await_login env) (\<lambda>(originalUser, challenge).
      abind (check_response env originalUser challenge) (\<lambda>_.
      abind (exchange_keys env) (\<lambda>keyString.
      chat_loop env originalUser keyString (now + 1000) fuel)))) (\<lambda>_ _. False)"
    if "q = Start" for q now
    using that assms
    by (auto intro!: ok_bind [OF ok_await] ok_bind [OF ok_response] ok_bind [OF ok_exchange] ok_chat)
qed simp

section \<open>The thread\<close>

definition fresh_session :: "int \<Rightarrow> 'd world \<Rightarrow> bool" where
  "fresh_session d w \<longleftrightarrow> 0 \<le> d \<and> w_trace w = [] \<and> sockDesc (w_sock w) = d \<and> closes (w_sock w) = []"

lemma client_refines:
  assumes "env_good env" and "fresh_session d w" and "clientConnectStart env fuel w = (r, w')"
  shows "if r = Next () then in_phase env d Ended w' else in_open_phase env d w'"
proof -
  have "in_phase env d Start w"
    using assms(2) by (auto simp: fresh_session_def in_phase_def intro: run_init)
  from act_okD [OF ok_session [OF assms(1)] this]
  have "post_ok env d (\<lambda>_ _. False) (session env fuel w)" .
  then show ?thesis using assms(3)
    by (cases "session env fuel w"; cases "fst (session env fuel w)")
      (auto simp: clientConnectStart_def in_open_phase_def intro: in_phase_delete split: stop.splits if_splits)
qed

lemma client_run:
  assumes "env_good env" and "fresh_session d w" and "clientConnectStart env fuel w = (r, w')"
  shows "\<exists>p. run env (w_trace w') p"
  using client_refines [OF assms] by (auto simp: in_phase_def in_open_phase_def split: if_splits)

end
