(* ===== verification/Progress.thy ===== *)
theory Progress
  imports Session
begin

text \<open>
  The chat loop ends: every round takes at least a frame's worth of bytes off the stream, so
  more fuel than there are bytes to read is never used up, and beyond that the result does
  not depend on the fuel.
\<close>

section \<open>Actions that drain the stream\<close>

definition left :: "'d world \<Rightarrow> nat" where
  "left w = length (pending (w_sock w))"

definition drains :: "('d, 'a) act \<Rightarrow> bool" where
  "drains m \<longleftrightarrow> (\<forall>w. fst (m w) \<noteq> OutOfFuel \<and> left (snd (m w)) \<le> left w)"

lemma drainsD: "drains m \<Longrightarrow> m w = (r, w') \<Longrightarrow> r \<noteq> OutOfFuel \<and> left w' \<le> left w"
  unfolding drains_def by (metis fst_conv snd_conv)

lemma drainsI: "(\<And>w r w'. m w = (r, w') \<Longrightarrow> r \<noteq> OutOfFuel \<and> left w' \<le> left w) \<Longrightarrow> drains m"
  unfolding drains_def by (metis prod.collapse)

lemma drains_bind:
  assumes "drains m" and "\<And>a. drains (f a)"
  shows "drains (abind m f)"
proof (rule drainsI)
  fix w r w' assume "abind m f w = (r, w')"
  then show "r \<noteq> OutOfFuel \<and> left w' \<le> left w"
  proof (cases rule: abind_cases)
    case (4 a w1)
    with drainsD [OF assms(1) 4(1)] drainsD [OF assms(2) 4(2)] show ?thesis by simp
  qed (use drainsD [OF assms(1)] in auto)
qed

lemma drains_ret [intro]: "drains (ret a)"
  by (simp add: drains_def ret_def)

lemma drains_lift [intro]: "drains (lift_res r)"
  by (cases r) (simp_all add: drains_def lift_res_def)

lemma left_delete [simp]: "left (delete_sock w) = left w"
  by (simp add: left_def delete_sock_def log_event_def Socket_delete_def Socket_close_def pending_def)

lemma drains_drop [intro]: "drains drop_client"
  by (simp add: drains_def drop_client_def)

lemma drains_time0 [intro]: "drains (time0 env)"
  by (simp add: drains_def time0_def left_def)

lemma decode_pending:
  assumes "SPChatMessage_decode h t s = (r, s')"
  shows "length (pending s') \<le> length (pending s)"
proof -
  have rf: "length (pending s1) \<le> length (pending s0)" if "recvFully n s0 = (r0, s1)" for n s0 r0 s1
    using recvFully_shrinks [OF that] .
  have body: "length (pending s1) \<le> length (pending s0)" if "decode_body h t ty n s0 = (r0, s1)" for ty n s0 r0 s1
    using that rf by (auto simp: decode_body_def split: if_splits prod.splits sum.splits)
  show ?thesis
    using assms by (auto simp: decode_split split: prod.splits sum.splits dest!: rf body)
qed

lemma receive_drains:
  assumes "receive env w = (r, w')"
  shows "r \<noteq> OutOfFuel" and "left w' \<le> left w" and "r = Next m \<Longrightarrow> left w' < left w"
  using assms decode_pending [of "env_host env" "w_decodes w" "w_sock w"]
    decode_success_shorter [of "env_host env" "w_decodes w" "w_sock w"]
  by (auto simp: receive_def left_def log_event_def Let_def split: prod.splits sum.splits)

lemma drains_receive [intro]: "drains (receive env)"
  by (rule drainsI) (use receive_drains in blast)

lemma send_pending:
  "CommunicatingSocket_send buf n s = (r, s') \<Longrightarrow> pending s' = pending s"
  by (auto elim!: send_shape simp: pending_def)

lemma drains_send [intro]: "drains (send_message env m)"
  by (rule drainsI) (auto simp: send_message_def left_def log_event_def dest!: send_pending
      split: prod.splits sum.splits)

lemma drains_ack [intro]: "drains (send_ack env err)"
  unfolding send_ack_def by (intro drains_bind drains_lift drains_send)

section \<open>The stages\<close>

lemma left_query: "sql_query env sql ps w = (x, w') \<Longrightarrow> left w' = left w"
  by (auto simp: sql_query_def log_event_def left_def split: prod.splits)

lemma left_update: "sql_update env sql ps w = (x, w') \<Longrightarrow> left w' = left w"
  by (auto simp: sql_update_def log_event_def left_def split: prod.splits)

lemma left_connect: "sql_connect env w = (x, w') \<Longrightarrow> left w' = left w"
  by (auto simp: sql_connect_def left_def split: prod.splits)

lemma left_select: "select_id env sql p w = (x, w') \<Longrightarrow> left w' = left w"
  by (auto simp: select_id_def split: prod.splits dest: left_query)

lemmas left_sql = left_query left_update left_connect left_select

lemma left_lookup: "lookup_password env u w = (x, w') \<Longrightarrow> left w' = left w"
  by (auto simp: lookup_password_def split: prod.splits bool.splits dest!: left_sql)

lemma left_fetch: "fetch_messages env t u w = (x, w') \<Longrightarrow> left w' = left w"
  by (auto simp: fetch_messages_def split: prod.splits bool.splits dest!: left_sql)

lemma left_store: "left (store_message env text s r t w) = left w"
  using left_update [of env INSERT_TRANSACTION, OF prod.collapse [symmetric]]
  by (auto simp: store_message_def split: prod.splits bool.splits option.splits dest!: left_sql)

lemma drains_check_password: "drains (check_password env u)"
proof (rule drainsI)
  fix w r w' assume c: "check_password env u w = (r, w')"
  obtain pw completed w1 where l: "lookup_password env u w = ((pw, completed), w1)"
    by (cases "lookup_password env u w") auto
  have refuse: "drains (abind (send_ack env DEFAULT_ERROR) (\<lambda>_. drop_client) :: ('a, bytes) act)"
    by (intro drains_bind drains_ack drains_drop)
  show "r \<noteq> OutOfFuel \<and> left w' \<le> left w"
    using c l left_lookup [OF l] drainsD [OF refuse, of w1]
    by (auto simp: check_password_def split: if_splits)
qed

lemma drains_answers: "drains (answer_loop env key p f is)"
proof (induction "is")
  case (Cons i "is")
  show ?case
  proof (rule drainsI)
    fix w r w' assume a: "answer_loop env key p f (i # is) w = (r, w')"
    have "drains (abind (lift_res (poll_answer env key p f (env_stale env (w_decodes w) i) i))
        (\<lambda>m. abind (send_message env m) (\<lambda>_. answer_loop env key p f is)))"
      by (intro drains_bind drains_lift drains_send Cons.IH)
    from drainsD [OF this] a show "r \<noteq> OutOfFuel \<and> left w' \<le> left w" by simp
  qed
qed auto

lemma drains_poll: "drains (handle_poll env u key p)"
proof -
  have "drains (\<lambda>w. case fetch_messages env t x w of (f, w) \<Rightarrow>
      answer_loop env key p f [0..<length (messageDb f)] w)" for t x
    by (rule drainsI) (auto split: prod.splits dest!: left_fetch drainsD [OF drains_answers])
  then show ?thesis by (auto simp: handle_poll_def intro!: drains_bind)
qed

lemma drains_post: "drains (handle_post env u key pr)"
  unfolding handle_post_def
  by (intro drains_bind drains_lift) (auto simp: drains_def left_store drop_client_def)

lemma drains_message: "drains (handle_message env u key m)"
  by (cases m) (auto simp: handle_message_def intro: drains_poll drains_post)

lemma drains_await: "drains (await_login env)"
  unfolding await_login_def Let_def
  by (rule drains_bind [OF drains_receive]) (auto split: SPChatMessage.split intro!: drains_bind)

lemma drains_response: "drains (check_response env u c)"
  unfolding check_response_def
  by (rule drains_bind [OF drains_receive])
    (auto split: SPChatMessage.split intro!: drains_bind drains_check_password)

lemma drains_keys: "drains (exchange_keys env)"
  unfolding exchange_keys_def
  by (rule drains_bind [OF drains_receive])
    (auto split: SPChatMessage.split option.split intro!: drains_bind)

section \<open>The loop\<close>

lemma chat_round:
  "chat_loop env u key endTime (Suc fuel) w =
     (let w1 = snd (time0 env w) in
      if endTime < env_now env (w_clock w) then drop_client w1
      else abind (abind (receive env) (handle_message env u key)) (\<lambda>_. chat_loop env u key endTime fuel) w1)"
  by (simp add: abind_def [of "time0 env"] time0_def Let_def abind_assoc)

text \<open>A round that comes back to the loop has taken a message off the stream.\<close>

lemma round_shorter:
  assumes "abind (receive env) (handle_message env u key) w = (r, w')"
  shows "r \<noteq> OutOfFuel" and "r = Next a \<Longrightarrow> left w' < left w"
proof -
  show "r \<noteq> OutOfFuel"
    using drainsD [OF drains_bind [OF drains_receive drains_message] assms] by simp
  show "left w' < left w" if "r = Next a"
    using assms
  proof (cases rule: abind_cases)
    case (4 m w1)
    with receive_drains(3) [OF 4(1) refl] drainsD [OF drains_message 4(2)] show ?thesis by simp
  qed (use that in auto)
qed

lemma chat_loop_enough:
  "left w < fuel \<Longrightarrow> fst (chat_loop env u key endTime fuel w) \<noteq> OutOfFuel
     \<and> chat_loop env u key endTime (fuel + extra) w = chat_loop env u key endTime fuel w"
proof (induction fuel arbitrary: w)
  case (Suc fuel)
  let ?w1 = "snd (time0 env w)"
  have l: "left ?w1 = left w" by (simp add: time0_def left_def)
  show ?case
  proof (cases "endTime < env_now env (w_clock w)")
    case True
    then show ?thesis by (simp only: chat_round add_Suc) (simp add: drop_client_def Let_def)
  next
    case False
    obtain r w2 where r: "abind (receive env) (handle_message env u key) ?w1 = (r, w2)"
      by (cases "abind (receive env) (handle_message env u key) ?w1")
    from round_shorter [OF r] Suc.prems l have "r \<noteq> OutOfFuel" "r = Next a \<Longrightarrow> left w2 < fuel" for a
      by auto
    with False r Suc.IH [of w2] show ?thesis
      unfolding chat_round add_Suc by (cases r) (auto simp: Let_def abind_def [of "abind (receive env) (handle_message env u key)"])
  qed
qed simp

section \<open>The session\<close>

definition enough :: "nat \<Rightarrow> ('d, 'a) act \<Rightarrow> ('d, 'a) act \<Rightarrow> bool" where
  "enough fuel m m' \<longleftrightarrow> (\<forall>w. left w < fuel \<longrightarrow> fst (m w) \<noteq> OutOfFuel \<and> m' w = m w)"

lemma enough_bind:
  fixes m :: "('d, 'a) act" and f g :: "'a \<Rightarrow> ('d, 'b) act"
  assumes "drains m" and "\<And>a. enough fuel (f a) (g a)"
  shows "enough fuel (abind m f) (abind m g)"
  unfolding enough_def
proof (intro allI impI)
  fix w :: "'d world" assume "left w < fuel"
  then show "fst (abind m f w) \<noteq> OutOfFuel \<and> abind m g w = abind m f w"
    using drainsD [OF assms(1)] assms(2) unfolding enough_def
    by (cases "m w"; cases "fst (m w)") (fastforce simp: abind_def)+
qed

lemma enough_session: "enough fuel (session env fuel) (session env (fuel + extra))"
proof -
  have loop: "enough fuel (chat_loop env u key endTime fuel) (chat_loop env u key endTime (fuel + extra))"
    for u key endTime
    unfolding enough_def by (simp add: chat_loop_enough)
  show ?thesis
    unfolding session_def split_beta
    by (intro enough_bind drains_time0 drains_await drains_response drains_keys loop)
qed

lemma session_enough:
  "left w < fuel \<Longrightarrow> fst (session env fuel w) \<noteq> OutOfFuel \<and> session env (fuel + extra) w = session env fuel w"
  using enough_session by (auto simp: enough_def)

lemma client_enough:
  assumes "left w < fuel"
  shows "fst (clientConnectStart env fuel w) \<noteq> OutOfFuel
     \<and> clientConnectStart env (fuel + extra) w = clientConnectStart env fuel w"
  using session_enough [OF assms, of env extra]
  by (cases "session env fuel w"; cases "fst (session env fuel w)")
    (auto simp: clientConnectStart_def split: stop.split)

end
