(* ===== verification/Behaviour.thy ===== *)
theory Behaviour
  imports Refinement Progress
begin

text \<open>
  What the thread does on particular inputs: frames that make the decoder's behaviour
  undefined, sends, refusals and time-outs, the handlers' odd cases, and the run of an
  honest client.
\<close>

section \<open>Sending\<close>

lemma send_length:
  assumes "msg_sendable m" and "length (encode e [] m) < 2 ^ 31"
  shows "sint (ucast (getTotalMsgLength m) :: cint) = int (length (encode e [] m))"
proof -
  let ?n = "length (encode e [] m)"
  have "length (frame_header e (getType m) (getPayloadLength m)) = 19"
    by (simp add: frame_header_def HEADER_def)
  then have "?n = length (encodeMiddle e [] m) + 19" by (simp add: encode_frame)
  then have t: "getTotalMsgLength m = word_of_nat ?n"
    using payload_length_sendable [OF assms(1), of e]
    by (simp add: getTotalMsgLength_def TOTAL_HEADER_LENGTH_def)
  have "sint (word_of_nat ?n :: clong) = int ?n" using assms(2) by (intro sint_word_of_nat64) simp
  then show ?thesis unfolding t using sint_ucast_small [of "word_of_nat ?n"] assms(2) by simp
qed

lemma send_message_ok:
  assumes "msg_sendable m" and "length (encode (host_endian (env_host env)) [] m) < 2 ^ 31"
    and "send_plan (w_sock w) = []"
  shows "send_message env m w = (Next (), log_event (Sent m) (w\<lparr>w_sock :=
    (w_sock w)\<lparr>out := out (w_sock w) @ encode (host_endian (env_host env)) [] m\<rparr>\<rparr>))"
  using assms(3) by (simp add: send_message_def send_length [OF assms(1,2)]
      CommunicatingSocket_send_def kernel_send_def)

lemma send_defined:
  assumes "msg_sendable m" and "length (encode e [] m) < 2 ^ 31"
  shows "\<not> is_undefined (fst (CommunicatingSocket_send (encode e [] m)
    (sint (ucast (getTotalMsgLength m) :: cint)) s))"
  by (simp add: send_length [OF assms] CommunicatingSocket_send_def split: prod.split option.split)

lemma send_message_broken:
  assumes "msg_sendable m" and "length (encode (host_endian (env_host env)) [] m) < 2 ^ 31"
    and "send_plan (w_sock w) = BrokenPipe # plan"
  shows "send_message env m w = (Stopped Killed, w\<lparr>w_sock := (w_sock w)\<lparr>send_plan := plan\<rparr>\<rparr>)"
  using assms(3) by (simp add: send_message_def send_length [OF assms(1,2)]
      CommunicatingSocket_send_def kernel_send_def)

section \<open>Receiving\<close>

lemma receive_frame:
  assumes "msg_sendable m" and "host_good (env_host env)"
    and "payload_fits (env_host env) (int (length (encodeMiddle LittleEndian [] m)))"
    and "pending (w_sock w) = encode LittleEndian [] m @ rest"
  shows "\<exists>q. receive env w = (Next m, log_event (Recv m)
      (w\<lparr>w_sock := (w_sock w)\<lparr>inq := q\<rparr>, w_decodes := Suc (w_decodes w)\<rparr>)) \<and> concat q = rest"
proof -
  from decode_encode_frame [OF assms, of "w_decodes w"] obtain q where
    "SPChatMessage_decode (env_host env) (w_decodes w) (w_sock w) = (Inr m, (w_sock w)\<lparr>inq := q\<rparr>)"
    "concat q = rest" by blast
  then show ?thesis by (auto simp: receive_def)
qed

lemma decode_negative:
  assumes "pending s = frame_header LittleEndian ty n @ rest" and "sint n < 0"
  shows "fst (SPChatMessage_decode h t s) = Inl (Undefined BadArraySize)"
  using decode_frame [OF assms(1), of h t] assms(2) by (auto simp: decode_body_def)

lemma decode_huge:
  assumes "pending s = frame_header LittleEndian ty n @ rest" and "max_vla h < sint n"
  shows "fst (SPChatMessage_decode h t s) = Inl (Undefined BadArraySize)"
  using decode_frame [OF assms(1), of h t] assms(2) by (auto simp: decode_body_def)

lemma decode_empty_ack:
  assumes "pending s = frame_header LittleEndian SPCHATACK_TYPE 0 @ rest"
    and "rest \<noteq> [] \<or> in_end s = PeerClosed" and "0 \<le> max_vla h"
  shows "fst (SPChatMessage_decode h t s) = Inl (Undefined OutOfBounds)"
proof -
  from decode_frame [OF assms(1), of h t] obtain q where q:
    "SPChatMessage_decode h t s = decode_body h t SPCHATACK_TYPE 0 (s\<lparr>inq := q\<rparr>)" "concat q = rest"
    by blast
  obtain r s1 where r: "recvFully 0 (s\<lparr>inq := q\<rparr>) = (r, s1)" by (cases "recvFully 0 (s\<lparr>inq := q\<rparr>)")
  have "r = Inr []"
    using recvFully_zero [OF r] q(2) assms(2) by (auto simp: pending_def)
  with q(1) r assms(3) show ?thesis
    by (simp add: decode_body_def decode_payload_def type_consts SPChatACK_decode_def rd_def)
qed

text \<open>Nineteen bytes of a client that has not logged in suffice.\<close>

lemma client_undefined:
  assumes "fst (SPChatMessage_decode (env_host env) (w_decodes w) (w_sock w)) = Inl (Undefined u)"
  shows "fst (clientConnectStart env fuel w) = Stopped (Undefined u)"
proof -
  obtain s where s: "SPChatMessage_decode (env_host env) (w_decodes w) (w_sock w) = (Inl (Undefined u), s)"
    using assms by (cases "SPChatMessage_decode (env_host env) (w_decodes w) (w_sock w)") auto
  then show ?thesis
    by (simp add: clientConnectStart_def session_def abind_def time0_def await_login_def receive_def)
qed

text \<open>
  A client that logs in and is gone when the challenge is sent: SIGPIPE ends the process,
  with every other client's thread.
\<close>

lemma challenge_sendable:
  "length c = 8 \<Longrightarrow> msg_sendable (MChallenge \<lparr>ch_challenge = c\<rparr>)"
  "length c = 8 \<Longrightarrow> length (encode e [] (MChallenge \<lparr>ch_challenge = c\<rparr>)) < 2 ^ 31"
  by (simp_all add: ch_valid_def CHALLENGE_LENGTH_def encode_frame ch_encodeMiddle_def)

lemma client_broken_pipe:
  assumes "SPChatMessage_decode (env_host env) (w_decodes w) (w_sock w) = (Inr (MLogin l), s)"
    and "send_plan s = BrokenPipe # plan"
  shows "\<exists>w'. clientConnectStart env fuel w = (Stopped Killed, w') \<and> closes (w_sock w') = closes s \<and>
    w_trace w' = w_trace w @ [Recv (MLogin l)]"
proof -
  let ?c = "map (env_rand env) [0..<8]"
  let ?w = "log_event (Recv (MLogin l))
    (w\<lparr>w_clock := Suc (w_clock w), w_sock := s, w_decodes := Suc (w_decodes w)\<rparr>)"
  have c: "length ?c = 8" by simp
  have new: "SPChatChallenge_new ?c = Inr \<lparr>ch_challenge = ?c\<rparr>"
    by (simp add: ch_new_iff del: upt_conv_Cons upt_rec_numeral)
  have "send_message env (MChallenge \<lparr>ch_challenge = ?c\<rparr>) ?w
      = (Stopped Killed, ?w\<lparr>w_sock := s\<lparr>send_plan := plan\<rparr>\<rparr>)"
    using send_message_broken [OF challenge_sendable [OF c], of ?w plan env] assms(2)
    by (simp add: log_event_def)
  then have "await_login env (w\<lparr>w_clock := Suc (w_clock w)\<rparr>) = (Stopped Killed, ?w\<lparr>w_sock := s\<lparr>send_plan := plan\<rparr>\<rparr>)"
    using assms(1) by (simp add: await_login_def abind_def receive_def Let_def new lift_res_def
        log_event_def del: upt_conv_Cons upt_rec_numeral)
  then show ?thesis
    by (simp add: clientConnectStart_def session_def abind_def time0_def log_event_def)
qed

section \<open>Refusals\<close>

text \<open>The lookup of a connector that works and finds nothing, or finds \<open>rows\<close>.\<close>

lemma lookup_found:
  assumes "db_connect (env_dbms env) (w_db w) = (True, db1)"
    and "db_query (env_dbms env) SELECT_PASSWORD [u] db1 = ((rows, True), db2)"
  shows "lookup_password env u w = (last_string [] rows,
           log_event (Query SELECT_PASSWORD [u] rows) (w\<lparr>w_db := db2\<rparr>))"
  using assms by (simp add: lookup_password_def sql_connect_def sql_query_def split: prod.split)

lemma ack_sendable: "msg_sendable (server_ack err)"
  by (simp add: server_ack_def)

lemma length_ack: "length (encode e [] (server_ack err)) < 2 ^ 31"
  by (simp add: encode_frame frame_header_def HEADER_def server_ack_def ack_encodeMiddle_def)

lemma send_ack_ok:
  "send_plan (w_sock w) = [] \<Longrightarrow> send_ack env err w = (Next (), log_event (Sent (server_ack err)) (w\<lparr>w_sock :=
    (w_sock w)\<lparr>out := out (w_sock w) @ encode (host_endian (env_host env)) [] (server_ack err)\<rparr>\<rparr>))"
  unfolding send_ack_eq by (rule send_message_ok [OF ack_sendable length_ack])

lemma unknown_user:
  assumes "env_stmt_null env" and "db_connect (env_dbms env) (w_db w) = (True, db1)"
    and "db_query (env_dbms env) SELECT_PASSWORD [u] db1 = (([], True), db2)"
    and "send_plan (w_sock w) = []"
  shows "\<exists>w'. check_password env u w = (Returned, w') \<and>
    w_trace w' = w_trace w @ [Query SELECT_PASSWORD [u] [], Sent (server_ack DEFAULT_ERROR), Closed] \<and>
    out (w_sock w') = out (w_sock w) @ encode (host_endian (env_host env)) [] (server_ack DEFAULT_ERROR)"
  using assms by (simp add: check_password_def lookup_found [OF assms(2,3)] abind_def log_event_def
      send_ack_ok drop_client_def delete_sock_def Socket_delete_def Socket_close_def)

section \<open>The chat loop\<close>

lemma chat_timeout:
  "endTime < env_now env (w_clock w) \<Longrightarrow>
   chat_loop env u key endTime (Suc fuel) w = (Returned, delete_sock (w\<lparr>w_clock := Suc (w_clock w)\<rparr>))"
  by (simp add: chat_round time0_def drop_client_def del: chat_loop.simps)

lemma post_empty:
  "pr_msgList pr = [] \<Longrightarrow> handle_post env u key pr w = (Stopped (Undefined OutOfBounds), w)"
  by (simp add: handle_post_def rd_def)

lemma poll_answer_poison:
  assumes "length key = 16" and "i < length (messageDb f)" and "i < length (senderDb f)"
    and "500 < length (messageDb f ! i)" and "length (messageDb f ! i) < 2 ^ 63"
    and "validUsername (senderDb f ! i)" and "validUsername (pl_username p)"
    and "validPositiveNum (pl_time p)"
  shows "poll_answer env key p f stale i = spchat_throw MSG_LENGTH_EXCEPTION"
  using assms by (simp add: poll_answer_def rd_in aes_defined pl_getTime_def SPChatMsgMessage_new_def
      mm_setter_defs sint_word_of_nat64 MAX_MESSAGE_LENGTH_def)

text \<open>The loop stops at such a message: neither it nor those behind it are delivered.\<close>

lemma answers_poison:
  assumes "poll_answer env key p f (env_stale env (w_decodes w) i) i = Inl x"
  shows "answer_loop env key p f (i # is) w = (Stopped x, w)"
  by (simp add: assms)

lemma foreign_dropped:
  assumes "length key = 16"
  shows "pl_username p \<noteq> u \<Longrightarrow> handle_message env u key (MPoll p) w = (Returned, delete_sock w)"
    and "pr_msgList pr = m # ms \<Longrightarrow> mm_sender m \<noteq> u \<Longrightarrow>
      handle_message env u key (MPollResponse pr) w = (Returned, delete_sock w)"
  by (simp_all add: handle_message_def handle_poll_def handle_post_def drop_client_def rd_def
      decrypt_loop_eq [OF assms] del: decrypt_loop.simps)

text \<open>The two memory errors of the password check.\<close>

lemma lookup_undefined:
  assumes "db_connect (env_dbms env) (w_db w) = (True, d1)"
    and "db_query (env_dbms env) SELECT_PASSWORD [u] d1 = ((rows, True), d2)" and "snd (last_string [] rows)"
    and "\<not> env_stmt_null env"
  shows "fst (check_password env u w) = Stopped (Undefined OutOfBounds)"
  using assms by (simp add: check_password_def lookup_found [OF assms(1,2)] split_beta)

lemma copy_undefined:
  assumes "0 \<notin> set pw" and "int (length pw) \<le> max_vla (env_host env)" and "\<not> env_spare env (length pw)"
  shows "copy_password env pw = Inl (Undefined OutOfBounds)"
proof -
  have "c_string pw = pw" using assms(1) by (auto simp: c_string_def takeWhile_eq_all_conv)
  with assms show ?thesis by (simp add: copy_password_def)
qed

end
