(* ===== verification/Honest.thy ===== *)
theory Honest
  imports Behaviour
begin

text \<open>
  The run of an honest client: with the frames of a correct login in its input, the thread
  performs the whole handshake and then waits in the chat loop for more.
\<close>

section \<open>Runs that go well\<close>

text \<open>Where a thread stands: input to read, trace, calls of \<open>time\<close>, database.\<close>

definition stands :: "bytes \<times> event list \<times> nat \<times> 'd \<Rightarrow> 'd world \<Rightarrow> bool" where
  "stands = (\<lambda>(rest, tr, c, d) w. pending (w_sock w) = rest \<and> w_trace w = tr \<and> w_clock w = c \<and> w_db w = d
     \<and> send_plan (w_sock w) = [] \<and> in_end (w_sock w) = PeerSilent)"

definition leads :: "bytes \<times> event list \<times> nat \<times> 'd \<Rightarrow> ('d, 'a) act \<Rightarrow> 'a \<Rightarrow> bytes \<times> event list \<times> nat \<times> 'd \<Rightarrow> bool" where
  "leads p m a q \<longleftrightarrow> (\<forall>w. stands p w \<longrightarrow> (\<exists>w'. m w = (Next a, w') \<and> stands q w'))"

lemma leads_bind:
  assumes "leads p m a q" and "leads q (f a) b r"
  shows "leads p (abind m f) b r"
  unfolding leads_def
proof (intro allI impI)
  fix w assume "stands p w"
  with assms(1) obtain w1 where "m w = (Next a, w1)" "stands q w1" by (auto simp: leads_def)
  with assms(2) show "\<exists>w'. abind m f w = (Next b, w') \<and> stands r w'" by (auto simp: leads_def abind_def)
qed

lemma leadsD: "leads p m a q \<Longrightarrow> stands p w \<Longrightarrow> \<exists>w'. m w = (Next a, w') \<and> stands q w'"
  by (simp add: leads_def)

lemma leads_ret: "leads p (ret a) a p"
  by (simp add: leads_def ret_def)

lemma leads_lift: "r = Inr a \<Longrightarrow> leads p (lift_res r) a p"
  by (simp add: leads_def lift_res_def)

lemma leads_time0: "leads (i, tr, c, d) (time0 env) (env_now env c) (i, tr, Suc c, d)"
  by (auto simp: leads_def stands_def time0_def)

lemma leads_send:
  "msg_sendable m \<Longrightarrow> length (encode (host_endian (env_host env)) [] m) < 2 ^ 31 \<Longrightarrow>
   leads (i, tr, c, d) (send_message env m) () (i, tr @ [Sent m], c, d)"
  by (auto simp: leads_def stands_def send_message_ok log_event_def pending_def)

lemma leads_ack: "leads (i, tr, c, d) (send_ack env err) () (i, tr @ [Sent (server_ack err)], c, d)"
  unfolding send_ack_eq by (rule leads_send [OF ack_sendable length_ack])

definition receivable :: "'d env \<Rightarrow> SPChatMessage \<Rightarrow> bool" where
  "receivable env m \<longleftrightarrow> msg_sendable m \<and> payload_fits (env_host env) (int (length (encodeMiddle LittleEndian [] m)))"

lemma leads_receive:
  assumes "receivable env m" and "host_good (env_host env)"
  shows "leads (encode LittleEndian [] m @ i, tr, c, d) (receive env) m (i, tr @ [Recv m], c, d)"
  using receive_frame [OF _ assms(2)] assms(1) unfolding leads_def stands_def receivable_def
  by (force simp: log_event_def pending_def)

section \<open>The last login message\<close>

definition symmetric_login :: "bytes \<Rightarrow> bytes \<Rightarrow> SPChatLogin" where
  "symmetric_login u k = \<lparr>lg_username = u, lg_keyType = ENCRYPTED_SYM_KEY, lg_key = [], lg_encSymKey = k\<rparr>"

definition symmetric_frame :: "bytes \<Rightarrow> bytes \<Rightarrow> bytes" where
  "symmetric_frame u k =
     (let p = encodeString LittleEndian [] u @ [ENCRYPTED_SYM_KEY] @ k
      in frame_header LittleEndian SPCHATLOGIN_TYPE (word_of_nat (length p)) @ p)"

lemma leads_receive_symmetric:
  assumes u: "validUsername u" "length k = 128" and fits: "payload_fits (env_host env) (int (length u + 133))"
  shows "leads (symmetric_frame u k @ i, tr, c, d) (receive env) (MLogin (symmetric_login u k))
    (i, tr @ [Recv (MLogin (symmetric_login u k))], c, d)"
  unfolding leads_def
proof (intro allI impI)
  fix w assume w: "stands (symmetric_frame u k @ i, tr, c, d) w"
  let ?h = "env_host env" and ?s = "w_sock w" and ?t = "w_decodes w"
  define p where "p = encodeString LittleEndian [] u @ [ENCRYPTED_SYM_KEY] @ k"
  let ?n = "word_of_nat (length p) :: clong"
  have l: "int (length p) = int (length u + 133)" using u(2) by (simp add: p_def)
  have n: "sint ?n = int (length p)" using fits l by (intro sint_word_of_nat64) (simp add: payload_fits_def)
  have "pending ?s = frame_header LittleEndian SPCHATLOGIN_TYPE ?n @ p @ i"
    using w by (simp add: stands_def symmetric_frame_def p_def Let_def)
  from decode_frame [OF this, of ?h ?t] obtain q where
    q: "SPChatMessage_decode ?h ?t ?s = decode_body ?h ?t SPCHATLOGIN_TYPE ?n (?s\<lparr>inq := q\<rparr>)"
      "concat q = p @ i" by blast
  have pq: "pending (?s\<lparr>inq := q\<rparr>) = p @ i" using q(2) by (simp add: pending_def)
  have "payload_fits ?h (sint ?n)" "0 < sint ?n" "sint ?n \<le> int (length (pending (?s\<lparr>inq := q\<rparr>)))"
    using fits unfolding n l pq by (simp_all add: l [symmetric] u(2) p_def)
  from decode_body_enough [OF this, of ?t SPCHATLOGIN_TYPE] obtain q2 where
    q2: "decode_body ?h ?t SPCHATLOGIN_TYPE ?n (?s\<lparr>inq := q\<rparr>)
        = (decode_payload ?h ?t SPCHATLOGIN_TYPE p (int (length p)), ?s\<lparr>inq := q2\<rparr>)" "concat q2 = i"
    by (auto simp: n pq)
  have ok: "ok_string u" using fits by (simp add: payload_fits_def ok_string_def)
  have "decode_payload ?h ?t SPCHATLOGIN_TYPE p (int (length p)) = Inr (MLogin (symmetric_login u k))"
    unfolding decode_payload_def Let_def p_def using lg_decode_symmetric [OF u(1) ok u(2)]
    by (simp add: symmetric_login_def)
  with q q2 have "SPChatMessage_decode ?h ?t ?s = (Inr (MLogin (symmetric_login u k)), ?s\<lparr>inq := q2\<rparr>)" by simp
  with q2(2) w show "\<exists>w'. receive env w = (Next (MLogin (symmetric_login u k)), w') \<and>
      stands (i, tr @ [Recv (MLogin (symmetric_login u k))], c, d) w'"
    by (simp add: receive_def stands_def log_event_def pending_def)
qed

section \<open>The stages\<close>

definition challenge_of :: "'d env \<Rightarrow> bytes" where
  "challenge_of env = map (env_rand env) [0..<8]"

lemma leads_await:
  assumes "receivable env (MLogin l)" and "host_good (env_host env)"
  shows "leads (encode LittleEndian [] (MLogin l) @ i, tr, c, d) (await_login env)
    (lg_username l, challenge_of env)
    (i, tr @ [Recv (MLogin l), Sent (MChallenge \<lparr>ch_challenge = challenge_of env\<rparr>)], c, d)"
proof -
  let ?m = "MChallenge \<lparr>ch_challenge = challenge_of env\<rparr>"
  have "msg_sendable ?m" by (simp add: ch_valid_def CHALLENGE_LENGTH_def challenge_of_def)
  moreover have "length (encode (host_endian (env_host env)) [] ?m) < 2 ^ 31"
    by (simp add: encode_frame ch_encodeMiddle_def challenge_of_def)
  ultimately have s: "leads (i, t, c, d) (send_message env ?m) () (i, t @ [Sent ?m], c, d)" for t
    by (rule leads_send)
  have new: "SPChatChallenge_new (challenge_of env) = Inr \<lparr>ch_challenge = challenge_of env\<rparr>"
    by (simp add: ch_new_iff challenge_of_def)
  show ?thesis
    unfolding await_login_def Let_def challenge_of_def [symmetric]
    by (rule leads_bind [OF leads_receive [OF assms]], simp,
        rule leads_bind [OF leads_lift [OF new]], rule leads_bind [OF s])
      (use leads_ret in force)
qed

text \<open>A client that knows the password, on a host where the two memory errors are harmless.\<close>

definition knows_password :: "'d env \<Rightarrow> bytes \<Rightarrow> SPChatResponse \<Rightarrow> bytes list list \<Rightarrow> 'd \<Rightarrow> 'd \<Rightarrow> 'd \<Rightarrow> bool" where
  "knows_password env u r rows d d1 d2 \<longleftrightarrow> (let pw = fst (last_string [] rows) in
     db_connect (env_dbms env) d = (True, d1) \<and>
     db_query (env_dbms env) SELECT_PASSWORD [u] d1 = ((rows, True), d2) \<and>
     snd (last_string [] rows) \<and> pw \<noteq> [] \<and>
     env_stmt_null env \<and> env_spare env (length pw) \<and>
     8 + int (length pw) + int (length (rs_nonce r)) \<le> max_vla (env_host env) \<and>
     rs_hash r = hex (env_sha env (challenge_of env @ rs_nonce r @ pw)))"

lemma expected_hash_ok:
  assumes good: "env_good env" and c: "length c = 8"
    and fits: "8 + int (length pw) + int (length nonce) \<le> max_vla (env_host env)"
  shows "expected_hash env c nonce pw = Inr (hex (env_sha env (c @ nonce @ pw)))"
proof -
  let ?s = "c @ nonce @ pw"
  have small: "8 + int (length pw) + int (length nonce) < 2 ^ 31" using good fits by (simp add: env_good_def)
  then have sz: "sint (word_of_nat (length pw) :: cint) = int (length pw)"
    by (intro sint_word_of_nat32) simp
  have n: "8 + int (length pw) + int (length nonce) = int (length ?s)" using c by simp
  have h: "sha256_varbytes (env_sha env) ?s (map (env_buffer env) [0..<65]) (int (length ?s))
      = Inr (hex (env_sha env ?s) @ [0])"
    using sha256_varbytes_hex [of "env_sha env" "map (env_buffer env) [0..<65]" "int (length ?s)" ?s] good
    by (simp add: env_good_def)
  have "rdn c 0 8 = Inr c" "rdn pw 0 (length pw) = Inr pw"
    using rdn_eq [of 0 8 c] rdn_eq [of 0 "length pw" pw] c by simp_all
  then show ?thesis
    using small fits h unfolding expected_hash_def sz Let_def n by (simp add: c_string_hex)
qed

lemma leads_response:
  assumes "receivable env (MResponse r)" and "host_good (env_host env)" and good: "env_good env"
    and k: "knows_password env u r rows d d1 d2"
  shows "leads (encode LittleEndian [] (MResponse r) @ i, tr, c, d) (check_response env u (challenge_of env)) ()
    (i, tr @ [Recv (MResponse r), Query SELECT_PASSWORD [u] rows, Sent (server_ack PASSWORD_AUTH)], c, d2)"
proof -
  let ?pw = "fst (last_string [] rows)"
  note k = k [unfolded knows_password_def Let_def]
  have pw: "last_string [] rows = (?pw, True)" using k by (cases "last_string [] rows") simp
  have check: "leads (i, t, c, d) (check_password env u) ?pw (i, t @ [Query SELECT_PASSWORD [u] rows], c, d2)" for t
    unfolding leads_def
  proof (intro allI impI)
    fix w assume w: "stands (i, t, c, d) w"
    then have "lookup_password env u w = (last_string [] rows,
        log_event (Query SELECT_PASSWORD [u] rows) (w\<lparr>w_db := d2\<rparr>))"
      using k by (intro lookup_found [of _ _ d1]) (simp_all add: stands_def)
    with w k pw show "\<exists>w'. check_password env u w = (Next ?pw, w') \<and>
        stands (i, t @ [Query SELECT_PASSWORD [u] rows], c, d2) w'"
      by (simp add: check_password_def stands_def log_event_def split_beta)
  qed
  have copy: "copy_password env ?pw = Inr ()" using k by (simp add: copy_password_def)
  have hash: "expected_hash env (challenge_of env) (rs_nonce r) ?pw = Inr (rs_hash r)"
    using expected_hash_ok [OF good, of "challenge_of env" ?pw "rs_nonce r"] k by (simp add: challenge_of_def)
  have "leads (i, tr @ [Recv (MResponse r)], c, d)
      (abind (check_password env u) (\<lambda>password.
         abind (lift_res (copy_password env password)) (\<lambda>_.
         abind (lift_res (expected_hash env (challenge_of env) (rs_nonce r) password)) (\<lambda>buffer.
         if rs_hash r = buffer then send_ack env PASSWORD_AUTH else drop_client)))) ()
      (i, tr @ [Recv (MResponse r), Query SELECT_PASSWORD [u] rows, Sent (server_ack PASSWORD_AUTH)], c, d2)"
    by (rule leads_bind [OF check], rule leads_bind [OF leads_lift [OF copy]],
        rule leads_bind [OF leads_lift [OF hash]])
      (use leads_ack [of i "tr @ [Recv (MResponse r), Query SELECT_PASSWORD [u] rows]"] in simp)
  then show ?thesis
    unfolding check_response_def by (intro leads_bind [OF leads_receive [OF assms(1,2)]]) simp
qed

lemma leads_keys:
  assumes l: "receivable env (MLogin l)" and h: "host_good (env_host env)"
    and kl: "server_key_login env = Inr kl"
    and u: "validUsername u" "length k = 128" "payload_fits (env_host env) (int (length u + 133))"
    and rsa: "env_rsa env k = Some key" "length key = 16"
  shows "leads (encode LittleEndian [] (MLogin l) @ symmetric_frame u k @ i, tr, c, d) (exchange_keys env) key
    (i, tr @ [Recv (MLogin l), Sent (MLogin kl), Recv (MLogin (symmetric_login u k)),
       Sent (server_ack SUCCESS)], c, d)"
proof -
  note kl' = server_key_login_cases [OF kl]
  have "lg_sendable kl" using kl' by (simp add: lg_sendable_def lg_valid_def key_consts validUsername_def ok_string_def)
  moreover have "length (encode (host_endian (env_host env)) [] (MLogin kl)) < 2 ^ 31"
    using kl' by (simp add: encode_frame lg_middle pem_key_def key_consts)
  ultimately have s: "leads (j, t, c, d) (send_message env (MLogin kl)) () (j, t @ [Sent (MLogin kl)], c, d)" for j t
    by (intro leads_send) simp_all
  let ?s = "MLogin (symmetric_login u k)"
  have last: "leads (i, t, c, d) (abind (send_ack env SUCCESS) (\<lambda>_. ret key)) key
      (i, t @ [Sent (server_ack SUCCESS)], c, d)" for t
    by (rule leads_bind [OF leads_ack leads_ret])
  have r2: "leads (symmetric_frame u k @ i, t, c, d) (abind (receive env) (\<lambda>m. case m of
        MLogin loginNew \<Rightarrow>
          (case env_rsa env (lg_encSymKey loginNew) of
             None \<Rightarrow> lift_res (Inl (Throw CryptoException))
           | Some keyString \<Rightarrow>
               if length keyString = keysize then abind (send_ack env SUCCESS) (\<lambda>_. ret keyString) else drop_client)
        | _ \<Rightarrow> drop_client)) key (i, t @ [Recv ?s, Sent (server_ack SUCCESS)], c, d)" for t
    by (rule leads_bind [OF leads_receive_symmetric [OF u]])
      (use last [of "t @ [Recv ?s]"] rsa in \<open>simp add: symmetric_login_def keysize_def\<close>)
  show ?thesis
    unfolding exchange_keys_def
    by (rule leads_bind [OF leads_receive [OF l h]], simp, rule leads_bind [OF leads_lift [OF kl]],
        rule leads_bind [OF s]) (use r2 [of "tr @ [Recv (MLogin l), Sent (MLogin kl)]"] in simp)
qed

section \<open>The whole handshake\<close>

lemma loop_waits:
  assumes "stands ([], tr, c, d) w" and "env_now env c \<le> endTime"
  shows "\<exists>w'. chat_loop env u key endTime (Suc n) w = (Stopped Blocks, w') \<and> w_trace w' = tr"
proof -
  have "recvFully 19 (w_sock w) = (Inl Blocks, (w_sock w)\<lparr>inq := []\<rparr>)"
    using recvFully_short [of "w_sock w" 19] assms(1) by (simp add: stands_def)
  with assms show ?thesis
    by (simp add: chat_round Let_def time0_def stands_def abind_def receive_def decode_split del: chat_loop.simps)
qed

definition handshake_trace ::
  "'d env \<Rightarrow> SPChatLogin \<Rightarrow> SPChatResponse \<Rightarrow> bytes list list \<Rightarrow> SPChatLogin \<Rightarrow> SPChatLogin \<Rightarrow> SPChatLogin \<Rightarrow> event list" where
  "handshake_trace env l r rows l2 kl sl =
     [Recv (MLogin l), Sent (MChallenge \<lparr>ch_challenge = challenge_of env\<rparr>),
      Recv (MResponse r), Query SELECT_PASSWORD [lg_username l] rows, Sent (server_ack PASSWORD_AUTH),
      Recv (MLogin l2), Sent (MLogin kl), Recv (MLogin sl), Sent (server_ack SUCCESS)]"

lemma reaches_chat:
  assumes good: "env_good env" and h: "host_good (env_host env)"
    and frames: "receivable env (MLogin l)" "receivable env (MResponse r)" "receivable env (MLogin l2)"
    and pw: "knows_password env (lg_username l) r rows d d1 d2"
    and kl: "server_key_login env = Inr kl"
    and u: "validUsername u" "length k = 128" "payload_fits (env_host env) (int (length u + 133))"
    and rsa: "env_rsa env k = Some key" "length key = 16"
    and w: "stands (encode LittleEndian [] (MLogin l) @ encode LittleEndian [] (MResponse r) @
      encode LittleEndian [] (MLogin l2) @ symmetric_frame u k @ i, [], 0, d) w"
  shows "\<exists>w'. session env fuel w = chat_loop env (lg_username l) key (env_now env 0 + 1000) fuel w' \<and>
    stands (i, handshake_trace env l r rows l2 kl (symmetric_login u k), Suc 0, d2) w'"
proof -
  note a = leads_await [OF frames(1) h, of "encode LittleEndian [] (MResponse r) @
      encode LittleEndian [] (MLogin l2) @ symmetric_frame u k @ i" "[]" "Suc 0" d]
  note b = leads_response [OF frames(2) h good pw]
  note c = leads_keys [OF frames(3) h kl u rsa, of i]
  obtain w1 where w1: "time0 env w = (Next (env_now env 0), w1)"
    "stands (encode LittleEndian [] (MLogin l) @ encode LittleEndian [] (MResponse r) @
      encode LittleEndian [] (MLogin l2) @ symmetric_frame u k @ i, [], Suc 0, d) w1"
    using leadsD [OF leads_time0 w] by auto
  obtain w2 where w2: "await_login env w1 = (Next (lg_username l, challenge_of env), w2)"
    "stands (encode LittleEndian [] (MResponse r) @ encode LittleEndian [] (MLogin l2) @ symmetric_frame u k @ i,
      [Recv (MLogin l), Sent (MChallenge \<lparr>ch_challenge = challenge_of env\<rparr>)], Suc 0, d) w2"
    using leadsD [OF a w1(2)] by auto
  obtain w3 where w3: "check_response env (lg_username l) (challenge_of env) w2 = (Next (), w3)"
    "stands (encode LittleEndian [] (MLogin l2) @ symmetric_frame u k @ i,
      [Recv (MLogin l), Sent (MChallenge \<lparr>ch_challenge = challenge_of env\<rparr>), Recv (MResponse r),
       Query SELECT_PASSWORD [lg_username l] rows, Sent (server_ack PASSWORD_AUTH)], Suc 0, d2) w3"
    using leadsD [OF b w2(2)] by auto
  obtain w4 where w4: "exchange_keys env w3 = (Next key, w4)"
    "stands (i, handshake_trace env l r rows l2 kl (symmetric_login u k), Suc 0, d2) w4"
    using leadsD [OF c w3(2)] by (auto simp: handshake_trace_def)
  have "session env fuel w = chat_loop env (lg_username l) key (env_now env 0 + 1000) fuel w4"
    by (simp add: session_def abind_def w1(1) w2(1) w3(1) w4(1))
  with w4(2) show ?thesis by blast
qed

section \<open>Rounds of the loop\<close>

lemma loop_round:
  assumes "receivable env m" and "host_good (env_host env)"
    and w: "stands (encode LittleEndian [] m @ i, tr, c, d) w" and time: "env_now env c \<le> endTime"
    and h: "leads (i, tr @ [Recv m], Suc c, d) (handle_message env u key m) () q"
  shows "\<exists>w'. chat_loop env u key endTime (Suc n) w = chat_loop env u key endTime n w' \<and> stands q w'"
proof -
  obtain w1 where w1: "time0 env w = (Next (env_now env c), w1)"
    "stands (encode LittleEndian [] m @ i, tr, Suc c, d) w1" using leadsD [OF leads_time0 w] by auto
  have clock: "w_clock w = c" using w by (simp add: stands_def)
  have "leads (encode LittleEndian [] m @ i, tr, Suc c, d) (abind (receive env) (handle_message env u key)) () q"
    by (rule leads_bind [OF leads_receive [OF assms(1,2)]]) (rule h)
  from leadsD [OF this w1(2)] obtain w2 where
    "abind (receive env) (handle_message env u key) w1 = (Next (), w2)" "stands q w2" by auto
  then show ?thesis using w1(1) time clock
    by (auto simp: chat_round Let_def abind_def [of "abind (receive env) (handle_message env u key)"]
        simp del: chat_loop.simps)
qed

lemma client_of_session:
  "session env fuel w = (Stopped Blocks, w') \<Longrightarrow> clientConnectStart env fuel w = (Stopped Blocks, w')"
  by (simp add: clientConnectStart_def)

text \<open>A whole handshake, behind which the thread waits for the client's first request.\<close>

lemma honest_handshake:
  assumes "env_good env" and "host_good (env_host env)"
    and "receivable env (MLogin l)" and "receivable env (MResponse r)" and "receivable env (MLogin l2)"
    and "knows_password env (lg_username l) r rows d d1 d2" and "server_key_login env = Inr kl"
    and "validUsername u" and "length k = 128" and "payload_fits (env_host env) (int (length u + 133))"
    and "env_rsa env k = Some key" and "length key = 16" and "env_now env 1 \<le> env_now env 0 + 1000"
    and "stands (encode LittleEndian [] (MLogin l) @ encode LittleEndian [] (MResponse r) @
      encode LittleEndian [] (MLogin l2) @ symmetric_frame u k, [], 0, d) w"
  shows "\<exists>w'. clientConnectStart env (Suc n) w = (Stopped Blocks, w') \<and>
    w_trace w' = handshake_trace env l r rows l2 kl (symmetric_login u k)"
proof -
  from reaches_chat [OF assms(1-12), of "[]", unfolded append_Nil2, OF assms(14), of "Suc n"]
  obtain w1 where w1: "session env (Suc n) w = chat_loop env (lg_username l) key (env_now env 0 + 1000) (Suc n) w1"
    "stands ([], handshake_trace env l r rows l2 kl (symmetric_login u k), Suc 0, d2) w1" by blast
  have "env_now env (Suc 0) \<le> env_now env 0 + 1000" using assms(13) by simp
  from loop_waits [OF w1(2) this, of "lg_username l" key n] w1(1) client_of_session show ?thesis by metis
qed

end
