(* ===== verification/ClientFrames.thy ===== *)
theory ClientFrames
  imports JavaClient Honest
begin

text \<open>
  What the Java client writes, seen from the C++ server: each of its frames is the encoding of
  a message object of the server, so that the theorems on the server's decoder apply to it.
\<close>

section \<open>Names\<close>

text \<open>A user name as the login pane and the constructors let it through.\<close>

definition good_name :: "jstring \<Rightarrow> bool" where
  "good_name u \<longleftrightarrow> u \<noteq> [] \<and> matches_REGEX u \<and> length u \<le> 64"

lemma name_char_byte:
  assumes "name_char c"
  shows "c < 128" and "validUsername [ucast c]"
proof -
  have u: "unat (ucast c :: byte) = unat c" if "unat c < 128"
    using that by (simp add: unsigned_ucast_eq unsigned_take_bit_eq take_bit_nat_eq_self)
  show c: "c < 128" using assms by (auto simp: name_char_def word_le_nat_alt word_less_nat_alt)
  show "validUsername [ucast c]"
    using assms u c by (auto simp: name_char_def validUsername_def c_isalnum_def word_le_nat_alt word_less_nat_alt)
qed

lemma matches_ascii: "matches_REGEX u \<Longrightarrow> is_ascii u"
  by (auto simp: matches_REGEX_def is_ascii_def list_all_iff name_char_byte)

lemma matches_valid: "matches_REGEX u \<Longrightarrow> validUsername (getBytes u)"
  using name_char_byte(2)
  by (auto simp: getBytes_ascii [OF matches_ascii] matches_REGEX_def validUsername_def list_all_iff)

lemma good_nameD:
  assumes "good_name u"
  shows "is_ascii u" "validUsername (getBytes u)" "length (getBytes u) = length u" "length u \<le> 64"
    "sint (len u) = int (length u)" "check_name (len u) u = Inr ()" "ok_string (getBytes u)"
proof -
  show "is_ascii u" "validUsername (getBytes u)" using assms matches_ascii matches_valid by (auto simp: good_name_def)
  then show l: "length (getBytes u) = length u" by simp
  show l64: "length u \<le> 64" using assms by (simp add: good_name_def)
  then show s: "sint (len u) = int (length u)" by (simp add: len_def sint_word_of_nat32)
  with l64 show "check_name (len u) u = Inr ()" by (simp add: check_name_def MAX_UNAME_LEN_def) (simp add: len_def)
  show "ok_string (getBytes u)" using l l64 by (simp add: ok_string_def)
qed

section \<open>Frames\<close>

text \<open>The bytes of a list of writes.\<close>

definition writes :: "bytes option list \<Rightarrow> bytes" where
  "writes ws = concat (map the ws)"

lemma writes_simps [simp]: "writes [] = []" "writes (Some b # ws) = b @ writes ws" "writes (vs @ ws) = writes vs @ writes ws"
  by (simp_all add: writes_def)

lemma header_frame [simp]: "writes (header_writes t n) = frame_header LittleEndian (ordinal t) n"
proof -
  have "getBytes HEADER_J = HEADER"
    unfolding HEADER_J_def HEADER_def by (rule literal_bytes(2)) simp
  then show ?thesis by (simp add: header_writes_def frame_header_def to_bytes_long)
qed

lemma name_field: "to_bytes 4 (len u) @ getBytes u = encodeString LittleEndian [] (getBytes u)" if "is_ascii u"
  using that by (simp add: encodeString_def to_bytes_int len_def)

text \<open>A small sum of \<open>int\<close>s, widened.\<close>

lemma small_widened: "n < 2 ^ 31 \<Longrightarrow> scast (word_of_nat n :: cint) = (word_of_nat n :: clong)"
  by (simp add: scast_eq sint_word_of_nat32)

lemma getBytes_append [simp]: "is_ascii s \<Longrightarrow> is_ascii t \<Longrightarrow> getBytes (s @ t) = getBytes s @ getBytes t"
  by (simp add: getBytes_ascii is_ascii_def)

lemma is_ascii_simps [simp]: "is_ascii []" "is_ascii (c # s) \<longleftrightarrow> c < 128 \<and> is_ascii s" "is_ascii (s @ t) \<longleftrightarrow> is_ascii s \<and> is_ascii t"
  by (auto simp: is_ascii_def)

text \<open>A base64 text of 216 characters makes a key in the form the server accepts.\<close>

lemma pem_lines_append: "pem_lines i (xs @ ys) = pem_lines i xs @ pem_lines (i + length xs) ys"
  by (induction xs arbitrary: i) simp_all

lemma pem_lines_unbroken: "0 < i mod 64 \<Longrightarrow> i mod 64 + length xs \<le> 64 \<Longrightarrow> pem_lines i xs = xs"
proof (induction xs arbitrary: i)
  case (Cons x xs)
  show ?case
  proof (cases xs)
    case Nil
    then show ?thesis using Cons.prems by simp
  next
    case (Cons y ys)
    then have "Suc i mod 64 = Suc (i mod 64)" using Cons.prems by (simp add: mod_Suc)
    with Cons.IH [of "Suc i"] Cons.prems show ?thesis by simp
  qed
qed simp

lemma pem_line: "i mod 64 = 0 \<Longrightarrow> xs \<noteq> [] \<Longrightarrow> length xs \<le> 64 \<Longrightarrow> pem_lines i xs = 10 # xs"
  using pem_lines_unbroken [of "Suc i" "tl xs"] by (cases xs) (simp_all add: mod_Suc)

lemma pem_lines_216:
  assumes "length s = 216"
  shows "pem_lines 0 s = 10 # take 64 s @ 10 # take 64 (drop 64 s) @ 10 # take 64 (drop 128 s) @ 10 # drop 192 s"
proof -
  have s: "s = take 64 s @ take 64 (drop 64 s) @ take 64 (drop 128 s) @ drop 192 s"
    using append_take_drop_id [of 64 s] append_take_drop_id [of 64 "drop 64 s"] append_take_drop_id [of 64 "drop 128 s"] by simp
  have l: "length (take 64 s) = 64" "length (take 64 (drop 64 s)) = 64" "length (take 64 (drop 128 s)) = 64" "length (drop 192 s) = 24"
    using assms by simp_all
  have "pem_lines 0 (take 64 s) = 10 # take 64 s" "pem_lines 64 (take 64 (drop 64 s)) = 10 # take 64 (drop 64 s)"
    "pem_lines 128 (take 64 (drop 128 s)) = 10 # take 64 (drop 128 s)" "pem_lines 192 (drop 192 s) = 10 # drop 192 s"
    using l by (auto intro!: pem_line)
  then show ?thesis by (subst s) (simp only: pem_lines_append l, simp)
qed

lemma calculateKey_pem:
  assumes "length b = 216" and "list_all (\<lambda>c. c < 128) b"
  shows "is_ascii (calculateKey b)" and "pem_key (getBytes (calculateKey b))" and "length (calculateKey b) = 271"
proof -
  let ?s = "string_of b"
  have s: "length ?s = 216" "is_ascii ?s" "getBytes ?s = b" using assms getBytes_string_of by simp_all
  have parts: "is_ascii (take n ?s)" "is_ascii (drop n ?s)" "is_ascii (take n (drop k ?s))" for n k
    using s(2) unfolding is_ascii_def list_all_iff by (auto dest: in_set_takeD in_set_dropD)
  have h: "is_ascii KEY_FILE_HEADER" "getBytes KEY_FILE_HEADER = ascii ''-----BEGIN PUBLIC KEY-----''"
    unfolding KEY_FILE_HEADER_def by (rule literal_bytes; simp)+
  have f: "is_ascii (jstr ''-----END PUBLIC KEY-----'')" "getBytes (jstr ''-----END PUBLIC KEY-----'') = ascii ''-----END PUBLIC KEY-----''"
    by (rule literal_bytes; simp)+
  have nl: "is_ascii [10]" "getBytes [10] = [10]" by (simp_all add: ascii_byte_def)
  have k: "calculateKey b = KEY_FILE_HEADER @ [10] @ take 64 ?s @ [10] @ take 64 (drop 64 ?s) @ [10] @
      take 64 (drop 128 ?s) @ [10] @ drop 192 ?s @ [10] @ jstr ''-----END PUBLIC KEY-----''"
    by (simp add: calculateKey_def pem_lines_216 [OF s(1)] KEY_FILE_FOOTER_def)
  show a: "is_ascii (calculateKey b)" unfolding k using h(1) f(1) nl(1) parts by simp
  have g: "getBytes (calculateKey b) = (ascii ''-----BEGIN PUBLIC KEY-----'' @ [10]) @ getBytes (take 64 ?s) @ [10] @
      getBytes (take 64 (drop 64 ?s)) @ [10] @ getBytes (take 64 (drop 128 ?s)) @ [10] @ getBytes (drop 192 ?s) @ [10] @
      ascii ''-----END PUBLIC KEY-----''"
    unfolding k by (simp only: getBytes_append h f nl parts is_ascii_simps(3) append_assoc simp_thms)
  have l: "length (getBytes (take 64 ?s)) = 64" "length (getBytes (take 64 (drop 64 ?s))) = 64"
    "length (getBytes (take 64 (drop 128 ?s))) = 64" "length (getBytes (drop 192 ?s)) = 24"
    using s(1) by (simp_all add: parts)
  show "length (calculateKey b) = 271"
    unfolding k using s(1) by (simp add: KEY_FILE_HEADER_def jstr_def)
  show "pem_key (getBytes (calculateKey b))"
    unfolding pem_key_def g using l
    by (simp add: key_consts ASYMMETRIC_HEADER_def ASYMMETRIC_ENDLINE_POS_def nth_append)
qed

section \<open>Login, response and poll\<close>

definition login_of :: "jstring \<Rightarrow> byte \<Rightarrow> bytes \<Rightarrow> SPChatLogin" where
  "login_of u keyType key = \<lparr>lg_username = getBytes u, lg_keyType = keyType, lg_key = key, lg_encSymKey = []\<rparr>"

definition response_of :: "jstring \<Rightarrow> jstring \<Rightarrow> clong \<Rightarrow> SPChatResponse" where
  "response_of u h nonce = \<lparr>rs_hash = getBytes h, rs_username = getBytes u, rs_nonce = to_bytes 8 nonce\<rparr>"

definition poll_of :: "jstring \<Rightarrow> clong \<Rightarrow> SPChatPoll" where
  "poll_of u t = \<lparr>pl_username = getBytes u, pl_time = t\<rparr>"

lemma BabbleOnMessage_ok:
  "0 < n \<Longrightarrow> n < 2 ^ 31 \<Longrightarrow> sint t < 7 \<Longrightarrow> BabbleOnMessage_new t (word_of_nat n) = Inr (word_of_nat n)"
  by (simp add: BabbleOnMessage_new_def sint_word_of_nat64)

lemma ordinal_small: "t \<noteq> DefaultType \<Longrightarrow> sint (ordinal t) < 7"
  by (cases t) simp_all

lemma len_sum: "n < 2 ^ 31 \<Longrightarrow> scast (word_of_nat n :: cint) = (word_of_nat n :: clong)"
  by (rule small_widened)

lemma login_new:
  assumes u: "good_name u" and k: "kt = ASYMMETRIC \<Longrightarrow> k \<noteq> None"
  shows "LoginMessage_new b (len u) u kt k = Inr \<lparr>jl_messageLen = word_of_nat (5 + length u + unat (getKeyLen kt)),
    jl_usernameLength = len u, jl_username = u, jl_keyType = key_ordinal kt,
    jl_publicKeyStr = (if kt = ASYMMETRIC then map_option (\<lambda>k. calculateKey (b k)) k else None), jl_encodedKey = None\<rparr>"
proof -
  have n: "5 + length u + unat (getKeyLen kt) < 2 ^ 31" using good_nameD(4) [OF u] by (cases kt) simp_all
  have "(4 + len u + 1 + getKeyLen kt :: cint) = word_of_nat (5 + length u + unat (getKeyLen kt))"
    by (cases kt) (simp_all add: len_def)
  with BabbleOnMessage_ok [OF _ n, of "ordinal LoginType"] len_sum [OF n] good_nameD(6) [OF u] k show ?thesis
    by (auto simp: LoginMessage_new_def)
qed

lemma login_frame_none:
  assumes "good_name u" and "LoginMessage_new b (len u) u NONE k = Inr m"
  shows "writes (jl_encode m) = encode LittleEndian [] (MLogin (login_of u NO_KEY []))"
    and "None \<notin> set (jl_encode m)" and "msg_sendable (MLogin (login_of u NO_KEY []))"
proof -
  note d = good_nameD [OF assms(1)]
  have m: "m = \<lparr>jl_messageLen = word_of_nat (5 + length u), jl_usernameLength = len u, jl_username = u,
      jl_keyType = 0, jl_publicKeyStr = None, jl_encodedKey = None\<rparr>"
    using assms(2) login_new [OF assms(1), of NONE k b] by simp
  show "None \<notin> set (jl_encode m)" by (simp add: m jl_encode_def header_writes_def)
  show "msg_sendable (MLogin (login_of u NO_KEY []))"
    using d by (simp add: login_of_def lg_sendable_def lg_valid_def key_consts)
  have "writes (jl_encode m) = frame_header LittleEndian 0 (word_of_nat (5 + length u)) @ (to_bytes 4 (len u) @ getBytes u) @ [0]"
    by (simp add: m jl_encode_def)
  then show "writes (jl_encode m) = encode LittleEndian [] (MLogin (login_of u NO_KEY []))"
    using d by (simp add: name_field encode_frame lg_middle login_of_def lg_getPayloadLength_def size_defs key_consts type_consts)
qed

lemma login_frame_key:
  assumes "good_name u" and "LoginMessage_new b (len u) u ASYMMETRIC (Some k) = Inr m"
    and k: "length (b k) = 216" "list_all (\<lambda>c. c < 128) (b k)"
  shows "writes (jl_encode m) = encode LittleEndian [] (MLogin (login_of u ASYMMETRIC_KEY (getBytes (calculateKey (b k)))))"
    and "None \<notin> set (jl_encode m)"
    and "msg_sendable (MLogin (login_of u ASYMMETRIC_KEY (getBytes (calculateKey (b k)))))"
proof -
  note d = good_nameD [OF assms(1)] and p = calculateKey_pem [OF k]
  have m: "m = \<lparr>jl_messageLen = word_of_nat (276 + length u), jl_usernameLength = len u, jl_username = u,
      jl_keyType = 1, jl_publicKeyStr = Some (calculateKey (b k)), jl_encodedKey = None\<rparr>"
    using assms(2) login_new [OF assms(1), of ASYMMETRIC "Some k" b] by simp
  show "None \<notin> set (jl_encode m)" by (simp add: m jl_encode_def header_writes_def)
  show "msg_sendable (MLogin (login_of u ASYMMETRIC_KEY (getBytes (calculateKey (b k)))))"
    using d p by (simp add: login_of_def lg_sendable_def lg_valid_def key_consts)
  have "writes (jl_encode m) = frame_header LittleEndian 0 (word_of_nat (276 + length u)) @ (to_bytes 4 (len u) @ getBytes u) @
      [1] @ getBytes (calculateKey (b k))"
    by (simp add: m jl_encode_def)
  then show "writes (jl_encode m) = encode LittleEndian [] (MLogin (login_of u ASYMMETRIC_KEY (getBytes (calculateKey (b k)))))"
    using d by (simp add: name_field encode_frame lg_middle login_of_def lg_getPayloadLength_def size_defs key_consts type_consts
        algebra_simps)
qed

text \<open>The frame of a login with the encrypted key, which the server's own class cannot write.\<close>

lemma login_frame_symmetric:
  assumes "good_name u" and "LoginMessage_new b (len u) u SYMMETRIC None = Inr m" and "length k = 128"
  shows "writes (jl_encode (setEncodedKey k m)) = symmetric_frame (getBytes u) k"
    and "None \<notin> set (jl_encode (setEncodedKey k m))"
proof -
  note d = good_nameD [OF assms(1)]
  have m: "m = \<lparr>jl_messageLen = word_of_nat (133 + length u), jl_usernameLength = len u, jl_username = u,
      jl_keyType = 2, jl_publicKeyStr = None, jl_encodedKey = None\<rparr>"
    using assms(2) login_new [OF assms(1), of SYMMETRIC None b] by simp
  show "None \<notin> set (jl_encode (setEncodedKey k m))" by (simp add: m jl_encode_def setEncodedKey_def header_writes_def)
  have "writes (jl_encode (setEncodedKey k m)) = frame_header LittleEndian 0 (word_of_nat (133 + length u)) @
      (to_bytes 4 (len u) @ getBytes u) @ [2] @ k"
    by (simp add: m jl_encode_def setEncodedKey_def)
  then show "writes (jl_encode (setEncodedKey k m)) = symmetric_frame (getBytes u) k"
    using d assms(3) by (simp add: name_field symmetric_frame_def Let_def key_consts type_consts add.commute)
qed

lemma response_frame:
  assumes "good_name u" and h: "is_ascii h" "length h = 64"
  shows "\<exists>m. ResponseMessage_new (len u) u (len h) h nonce = Inr m \<and> None \<notin> set (jr_encode m) \<and>
      writes (jr_encode m) = encode LittleEndian [] (MResponse (response_of u h nonce))"
    and "msg_sendable (MResponse (response_of u h nonce))"
proof -
  note d = good_nameD [OF assms(1)]
  have n: "80 + length u < 2 ^ 31" using d(4) by simp
  have s: "(4 * 2 + len u + len h + 8 :: cint) = word_of_nat (80 + length u)" by (simp add: len_def h)
  let ?m = "\<lparr>jr_messageLen = word_of_nat (80 + length u), jr_usernameLength = len u, jr_username = u,
      jr_hashLen = len h, jr_hash = h, jr_nonce = nonce\<rparr>"
  have new: "ResponseMessage_new (len u) u (len h) h nonce = Inr ?m"
    using BabbleOnMessage_ok [OF _ n, of "ordinal ResponseType"] d(6) unfolding ResponseMessage_new_def s len_sum [OF n]
    by (simp add: len_def)
  have none: "None \<notin> set (jr_encode ?m)" by (simp add: jr_encode_def header_writes_def)
  have "writes (jr_encode ?m) = frame_header LittleEndian 2 (word_of_nat (80 + length u)) @ (to_bytes 4 (len u) @ getBytes u) @
      (to_bytes 4 (len h) @ getBytes h) @ to_bytes 8 nonce"
    by (simp add: jr_encode_def)
  then have "writes (jr_encode ?m) = encode LittleEndian [] (MResponse (response_of u h nonce))"
    using d h by (simp add: name_field encode_frame rs_middle response_of_def rs_getPayloadLength_def size_defs type_consts)
  with new none show "\<exists>m. ResponseMessage_new (len u) u (len h) h nonce = Inr m \<and> None \<notin> set (jr_encode m) \<and>
      writes (jr_encode m) = encode LittleEndian [] (MResponse (response_of u h nonce))" by blast
  show "msg_sendable (MResponse (response_of u h nonce))"
    using d h by (simp add: response_of_def rs_sendable_def rs_valid_def ok_string_def LONG_SIZE_def)
qed

lemma poll_frame:
  assumes "good_name u" and t: "0 \<le> sint t" "sint t \<le> sint now"
  shows "\<exists>m. PollMessage_new now (len u) u t = Inr m \<and> None \<notin> set (jp_encode m) \<and>
      writes (jp_encode m) = encode LittleEndian [] (MPoll (poll_of u t))"
    and "msg_sendable (MPoll (poll_of u t))"
proof -
  note d = good_nameD [OF assms(1)]
  have n: "12 + length u < 2 ^ 31" using d(4) by simp
  have s: "(4 + len u + 8 :: cint) = word_of_nat (12 + length u)" by (simp add: len_def)
  let ?m = "\<lparr>jp_messageLen = word_of_nat (12 + length u), jp_usernameLength = len u, jp_username = u, jp_timestamp = t\<rparr>"
  have new: "PollMessage_new now (len u) u t = Inr ?m"
    using BabbleOnMessage_ok [OF _ n, of "ordinal PollType"] d(6) t unfolding PollMessage_new_def s len_sum [OF n] by simp
  have none: "None \<notin> set (jp_encode ?m)" by (simp add: jp_encode_def header_writes_def)
  have "writes (jp_encode ?m) = frame_header LittleEndian 5 (word_of_nat (12 + length u)) @ (to_bytes 4 (len u) @ getBytes u) @
      to_bytes 8 t"
    by (simp add: jp_encode_def)
  then have "writes (jp_encode ?m) = encode LittleEndian [] (MPoll (poll_of u t))"
    using d by (simp add: name_field encode_frame pl_middle poll_of_def pl_getPayloadLength_def size_defs type_consts to_bytes_long)
  with new none show "\<exists>m. PollMessage_new now (len u) u t = Inr m \<and> None \<notin> set (jp_encode m) \<and>
      writes (jp_encode m) = encode LittleEndian [] (MPoll (poll_of u t))" by blast
  show "msg_sendable (MPoll (poll_of u t))" using d by (simp add: poll_of_def pl_valid_def)
qed

end
