(* ===== verification/ClientPosts.thy ===== *)
theory ClientPosts
  imports ClientFrames
begin

text \<open>
  What the send button writes: a message cut into pieces of at most 15 characters, each
  encrypted on its own, in one frame per recipient. The frames are encodings of the server's
  objects, and the pieces make up the message again.
\<close>

section \<open>A cipher that works\<close>

text \<open>Blocks given to a cipher one after the other, the last one with \<open>doFinal\<close>.\<close>

fun feed :: "'c cipher \<Rightarrow> 'c \<Rightarrow> bytes list \<Rightarrow> bytes option \<times> 'c" where
  "feed ops c (b # b' # bs) =
     (case c_update ops c b of
        (None, c) \<Rightarrow> (None, c)
      | (Some x, c) \<Rightarrow> (case feed ops c (b' # bs) of (None, c) \<Rightarrow> (None, c) | (Some y, c) \<Rightarrow> (Some (x @ y), c)))"
| "feed ops c [b] = c_doFinal ops c b"
| "feed ops c [] = (Some [], c)"

text \<open>
  AES in CBC mode with PKCS padding: \<open>enc\<close> is the encryption of a whole text, at least one byte
  longer and made of blocks. \<open>doFinal\<close> leaves the cipher as it was initialised.
\<close>

definition cbc_cipher ::
  "'c cipher \<Rightarrow> (bool \<Rightarrow> bytes \<Rightarrow> bytes \<Rightarrow> 'c) \<Rightarrow> (bytes \<Rightarrow> bytes \<Rightarrow> bytes \<Rightarrow> bytes) \<Rightarrow> bool" where
  "cbc_cipher ops init enc \<longleftrightarrow>
     (\<forall>k iv p. length k = 16 \<longrightarrow> length iv = 16 \<longrightarrow>
        c_doFinal ops (init True k iv) p = (Some (enc k iv p), init True k iv) \<and>
        length (enc k iv p) = 16 * Suc (length p div 16) \<and>
        (\<forall>bs. list_all (\<lambda>b. length b = 16) bs \<longrightarrow> concat bs = enc k iv p \<longrightarrow>
           feed ops (init False k iv) bs = (Some p, init False k iv)))"

lemma cbc_cipherD:
  assumes "cbc_cipher ops init enc" and "length k = 16" and "length iv = 16"
  shows "c_doFinal ops (init True k iv) p = (Some (enc k iv p), init True k iv)"
    and "length (enc k iv p) = 16 * Suc (length p div 16)"
    and "list_all (\<lambda>b. length b = 16) bs \<Longrightarrow> concat bs = enc k iv p \<Longrightarrow>
      feed ops (init False k iv) bs = (Some p, init False k iv)"
  using assms unfolding cbc_cipher_def by blast+

lemma SYM_IV_server: "SYM_IV = ivString" "length SYM_IV = 16"
proof -
  show "SYM_IV = ivString" unfolding SYM_IV_def ivString_def by (rule literal_bytes(2)) simp
  then show "length SYM_IV = 16" by simp
qed

section \<open>The pieces of a message\<close>

lemma messageBit_slice:
  assumes "1 \<le> i" and "i \<le> piece_count msg"
  shows "messageBit msg i = take 15 (drop ((i - 1) * 15) msg)" and "messageBit msg i \<noteq> []"
    and "(if length msg - (i - 1) * 15 < 15 then length msg mod 15 else 15) = length (messageBit msg i)"
proof -
  have lt: "(i - 1) * 15 < length msg" using assms by (simp add: piece_count_def)
  have m: "length msg mod 15 = length msg - (i - 1) * 15" if "length msg - (i - 1) * 15 < 15"
  proof -
    have "length msg = (length msg - (i - 1) * 15) + (i - 1) * 15" using lt by simp
    then have "length msg mod 15 = (length msg - (i - 1) * 15) mod 15" by (metis mod_mult_self1)
    with that show ?thesis by simp
  qed
  have e: "15 * i - (i - 1) * 15 = 15" using assms(1) by (simp add: algebra_simps diff_mult_distrib2)
  show s: "messageBit msg i = take 15 (drop ((i - 1) * 15) msg)"
    unfolding messageBit_def Let_def using m e by auto
  show "messageBit msg i \<noteq> []" using lt unfolding s by simp
  show "(if length msg - (i - 1) * 15 < 15 then length msg mod 15 else 15) = length (messageBit msg i)"
    unfolding s using m by auto
qed

lemma piece_count_pos: "0 < length msg \<Longrightarrow> 0 < piece_count msg"
  unfolding piece_count_def by (rule div_greater_zero_iff [THEN iffD2]) linarith

lemma slices_join: "k * 15 \<le> length msg + 14 \<Longrightarrow>
  concat (map (\<lambda>i. take 15 (drop ((i - 1) * 15) msg)) [1..<Suc k]) = take (k * 15) msg"
proof (induction k)
  case (Suc k)
  have "take (k * 15) msg @ take 15 (drop (k * 15) msg) = take (Suc k * 15) msg"
    by (simp add: take_add [symmetric] add.commute)
  with Suc show ?case by simp
qed simp

lemma pieces_join: "concat (map (messageBit msg) [1..<Suc (piece_count msg)]) = msg"
proof -
  have "map (messageBit msg) [1..<Suc (piece_count msg)] = map (\<lambda>i. take 15 (drop ((i - 1) * 15) msg)) [1..<Suc (piece_count msg)]"
    by (intro map_cong refl messageBit_slice) auto
  moreover have "piece_count msg * 15 \<le> length msg + 14" "length msg \<le> piece_count msg * 15"
    by (simp_all add: piece_count_def)
  ultimately show ?thesis using slices_join [of "piece_count msg" msg] by (simp only:) simp
qed

section \<open>One piece\<close>

definition element_of ::
  "(bytes \<Rightarrow> bytes) \<Rightarrow> jstring \<Rightarrow> jstring \<Rightarrow> jstring \<Rightarrow> cint \<Rightarrow> cint \<Rightarrow> clong \<Rightarrow> SPChatMsgMessage" where
  "element_of enc u r piece n cnt t =
     \<lparr>mm_sender = getBytes u, mm_receiver = getBytes r, mm_message = enc (getBytes piece),
      mm_decryptMsgLen = word_of_nat (length piece), mm_msgNum = n, mm_totalMsg = cnt, mm_time = t\<rparr>"

definition msg_of ::
  "(bytes \<Rightarrow> bytes) \<Rightarrow> jstring \<Rightarrow> jstring \<Rightarrow> jstring \<Rightarrow> cint \<Rightarrow> cint \<Rightarrow> clong \<Rightarrow> MsgMessage" where
  "msg_of enc u r piece n cnt t =
     \<lparr>jm_senderUsernameLength = len u, jm_senderUsername = u, jm_receiverUsernameLength = len r,
      jm_receiverUsername = r, jm_messageLengthEncrypted = word_of_nat (length (enc (getBytes piece))),
      jm_message = piece, jm_messageLenDecrypted = word_of_nat (length piece), jm_messageNumber = n,
      jm_totalMessages = cnt, jm_timestamp = t, jm_encrypted = enc (getBytes piece)\<rparr>"

lemma getBytes_nonempty: "piece \<noteq> [] \<Longrightarrow> getBytes piece \<noteq> []"
  by (cases piece rule: getBytes.cases) auto

lemma doEncryption_short:
  assumes "piece \<noteq> []" and "length piece \<le> 15" and "c_doFinal ops c (getBytes piece) = (Some e, c')"
  shows "doEncryption ops piece c = (Inr e, c')"
proof -
  have l: "length (getBytes piece) \<le> 15" using length_getBytes [of piece] assms(2) by linarith
  have "encrypt_loop ops (getBytes piece) 0 c = (Inr 0, c)"
    using l by (simp add: encrypt_loop.simps [of _ _ 0] BLOCK_SIZE_def jret_def)
  then show ?thesis
    using getBytes_nonempty [OF assms(1)] assms(3)
    by (simp add: doEncryption_def padding_to_babble_def Let_def jbind_def doFinal_range_def doFinal_def)
qed

lemma msg_new:
  assumes u: "good_name u" and r: "good_name r" and piece: "piece \<noteq> []" "length piece \<le> 15"
    and n: "0 < sint n" "sint n \<le> sint cnt" and t: "sint t \<le> sint now"
    and c: "c_doFinal ops c (getBytes piece) = (Some (enc (getBytes piece)), c)"
  shows "MsgMessage_new ops now (len u) u (len r) r piece (word_of_nat (length piece)) n cnt t c
    = (Inr (msg_of enc u r piece n cnt t), c)"
proof -
  have s: "sint (word_of_nat (length piece) :: clong) = int (length piece)"
    using piece(2) by (intro sint_word_of_nat64) simp
  have b: "\<exists>y. BabbleOnMessage_new (ordinal MsgType) x = Inr y" for x by (simp add: BabbleOnMessage_new_def)
  obtain y where y: "BabbleOnMessage_new (ordinal MsgType) (scast (len u + len r) + word_of_nat (length piece) + 8 * 2 + 4 * 5) = Inr y"
    using b by blast
  show ?thesis
    unfolding MsgMessage_new_def y
    using good_nameD(6) [OF u] good_nameD(6) [OF r] s piece n t doEncryption_short [OF piece c]
    by (simp add: MAX_MSG_LEN_def jbind_def [of "doEncryption ops piece"] jlift_def msg_of_def)
qed

lemma element_bytes:
  assumes "is_ascii u" and "is_ascii r"
  shows "writes (jm_encode now (msg_of enc u r piece n cnt t)) = encodeMessage LittleEndian [] (element_of enc u r piece n cnt now)"
    and "None \<notin> set (jm_encode now (msg_of enc u r piece n cnt t))"
proof -
  let ?e = "enc (getBytes piece)"
  have s: "to_bytes 4 (word_of_nat (length xs) :: cint) @ xs = encodeString LittleEndian [] xs" for xs
    by (simp add: encodeString_def to_bytes_int)
  have "writes (jm_encode now (msg_of enc u r piece n cnt t)) = (to_bytes 4 (len u) @ getBytes u) @ (to_bytes 4 (len r) @ getBytes r) @
      (to_bytes 4 (word_of_nat (length ?e) :: cint) @ ?e) @ to_bytes 8 (word_of_nat (length piece) :: clong) @ to_bytes 4 n @
      to_bytes 4 cnt @ to_bytes 8 now"
    by (simp add: jm_encode_def msg_of_def)
  then show "writes (jm_encode now (msg_of enc u r piece n cnt t)) = encodeMessage LittleEndian [] (element_of enc u r piece n cnt now)"
    unfolding s name_field [OF assms(1)] name_field [OF assms(2)]
    by (simp add: encodeMessage_parts element_of_def to_bytes_int to_bytes_long)
  show "None \<notin> set (jm_encode now (msg_of enc u r piece n cnt t))" by (simp add: jm_encode_def)
qed

lemma element_valid:
  assumes "good_name u" "good_name r" "length piece \<le> 15" "0 \<le> sint cnt" "0 \<le> sint now"
    and "length (enc (getBytes piece)) < 2 ^ 31"
  shows "mm_valid (element_of enc u r piece n cnt now)"
  using assms good_nameD [OF assms(1)] good_nameD [OF assms(2)]
  by (simp add: mm_valid_def element_of_def ok_string_def MAX_MESSAGE_LENGTH_def validPositiveNum_def sint_word_of_nat64)

section \<open>The list of pieces\<close>

text \<open>
  The pieces added from clock \<open>k\<close> on, which reads the clock twice for each, and the elements
  written from clock \<open>k\<close> on, once for each.
\<close>

primrec msgs_of ::
  "(nat \<Rightarrow> clong) \<Rightarrow> (bytes \<Rightarrow> bytes) \<Rightarrow> jstring \<Rightarrow> jstring \<Rightarrow> jstring \<Rightarrow> nat \<Rightarrow> nat list \<Rightarrow> MsgMessage list" where
  "msgs_of now enc u r msg k [] = []"
| "msgs_of now enc u r msg k (i # is) =
     msg_of enc u r (messageBit msg i) (word_of_nat i) (word_of_nat (piece_count msg)) (now k)
       # msgs_of now enc u r msg (Suc (Suc k)) is"

primrec elements_of ::
  "(nat \<Rightarrow> clong) \<Rightarrow> (bytes \<Rightarrow> bytes) \<Rightarrow> jstring \<Rightarrow> jstring \<Rightarrow> jstring \<Rightarrow> nat \<Rightarrow> nat list \<Rightarrow> SPChatMsgMessage list" where
  "elements_of now enc u r msg k [] = []"
| "elements_of now enc u r msg k (i # is) =
     element_of enc u r (messageBit msg i) (word_of_nat i) (word_of_nat (piece_count msg)) (now k)
       # elements_of now enc u r msg (Suc k) is"

definition piece_numbers :: "jstring \<Rightarrow> nat list" where
  "piece_numbers msg = [1..<Suc (piece_count msg)]"

lemma length_msgs_of [simp]: "length (msgs_of now enc u r msg k is) = length is"
  "length (elements_of now enc u r msg k is) = length is"
  by (induction "is" arbitrary: k) simp_all

lemma length_piece_numbers [simp]: "length (piece_numbers msg) = piece_count msg"
  by (simp add: piece_numbers_def del: upt_Suc)

lemma piece_numbers_bounds: "i \<in> set (piece_numbers msg) \<Longrightarrow> 1 \<le> i \<and> i \<le> piece_count msg"
  by (auto simp: piece_numbers_def)

text \<open>What is written for them is what the server's encoder writes, and so is the length announced.\<close>

lemma messages_bytes:
  assumes "is_ascii u" and "is_ascii r"
  shows "writes (encode_messages now k (msgs_of now enc u r msg k' is))
      = concat (map (encodeMessage LittleEndian []) (elements_of now enc u r msg k is))"
    and "None \<notin> set (encode_messages now k (msgs_of now enc u r msg k' is))"
  using element_bytes [OF assms] by (induction "is" arbitrary: k k') simp_all

lemma getLen_fold:
  assumes "good_name u" and "good_name r"
  shows "foldl (\<lambda>ret m. ret + scast (jm_senderUsernameLength m) + scast (jm_receiverUsernameLength m)
       + word_of_nat (length (jm_encrypted m)) + 8 * 2 + 4 * 5) a (msgs_of now enc u r msg k' is)
    = fold (\<lambda>x length. length + mm_getPayloadLength x) (elements_of now enc u r msg k is) a"
proof -
  have w: "scast (len v) = (word_of_nat (length v) :: clong)" if "good_name v" for v
    using good_nameD(4) [OF that] unfolding len_def by (intro small_widened) simp
  have step: "x + scast (jm_senderUsernameLength m) + scast (jm_receiverUsernameLength m) + word_of_nat (length (jm_encrypted m)) +
      8 * 2 + 4 * 5 = x + mm_getPayloadLength e"
    if "m = msg_of enc u r p i n t" "e = element_of enc u r p i n t'" for x m e p i n t t'
    using good_nameD(3) [OF assms(1)] good_nameD(3) [OF assms(2)]
    by (simp add: that msg_of_def element_of_def mm_getPayloadLength_def size_defs w [OF assms(1)] w [OF assms(2)] algebra_simps)
  show ?thesis
  proof (induction "is" arbitrary: a k k')
    case (Cons i "is")
    show ?case
      unfolding msgs_of.simps elements_of.simps foldl.simps fold_simps
        step [OF refl refl, of _ "messageBit msg i" "word_of_nat i" "word_of_nat (piece_count msg)" "now k'" "now k"]
      by (rule Cons.IH)
  qed simp
qed

lemma elements_length:
  assumes "length (getBytes u) \<le> 64" "length (getBytes r) \<le> 64" "\<And>i. i \<in> set is \<Longrightarrow> length (enc (getBytes (messageBit msg i))) \<le> b"
  shows "length (concat (map (encodeMessage LittleEndian []) (elements_of now enc u r msg k is))) \<le> length is * (164 + b)"
  using assms(3)
proof (induction "is" arbitrary: k)
  case (Cons i "is")
  then have "length (concat (map (encodeMessage LittleEndian []) (elements_of now enc u r msg (Suc k) is))) \<le> length is * (164 + b)"
    "length (enc (getBytes (messageBit msg i))) \<le> b" by auto
  then show ?case using assms(1,2) by (simp add: length_encodeMessage element_of_def)
qed simp

section \<open>Adding the pieces and sending them\<close>

definition clock_runs :: "(nat \<Rightarrow> clong) \<Rightarrow> bool" where
  "clock_runs now \<longleftrightarrow> (\<forall>i. 0 \<le> sint (now i) \<and> sint (now i) \<le> sint (now (Suc i)))"

lemma clock_mono: "clock_runs now \<Longrightarrow> sint (now i) \<le> sint (now (i + n))"
proof (induction n)
  case (Suc n)
  then have "sint (now (i + n)) \<le> sint (now (i + Suc n))" by (simp add: clock_runs_def)
  with Suc show ?case by linarith
qed simp

text \<open>A client that can send: the state of its cipher is the one after initialisation.\<close>

definition can_send :: "('k, 'c) jlib \<Rightarrow> (bytes \<Rightarrow> bytes) \<Rightarrow> ('k, 'c) client \<Rightarrow> bool" where
  "can_send lib enc cl \<longleftrightarrow>
     (\<forall>p. c_doFinal (jv_cipher lib) (fresh_cipher lib True cl) p = (Some (enc p), fresh_cipher lib True cl)) \<and>
     (\<forall>p. length (enc p) = 16 * Suc (length p div 16)) \<and> send_plan (bc_sock cl) = [] \<and> clock_runs (jv_now lib)"

lemma can_send_encoded: "can_send lib enc cl \<Longrightarrow> length p \<le> 15 \<Longrightarrow> length (enc p) = 16"
  by (simp add: can_send_def)

lemma piece_facts:
  assumes "1 \<le> i" and "i \<le> piece_count msg" and "length msg < 2 ^ 31"
  shows "messageBit msg i \<noteq> []" "length (messageBit msg i) \<le> 15" "0 < sint (word_of_nat i :: cint)"
    "sint (word_of_nat i :: cint) \<le> sint (word_of_nat (piece_count msg) :: cint)" "piece_count msg < 2 ^ 31"
proof -
  show c: "piece_count msg < 2 ^ 31" using assms(3) by (simp add: piece_count_def)
  have "sint (word_of_nat i :: cint) = int i" "sint (word_of_nat (piece_count msg) :: cint) = int (piece_count msg)"
    using c assms(2) by (simp_all add: sint_word_of_nat32)
  then show "0 < sint (word_of_nat i :: cint)" "sint (word_of_nat i :: cint) \<le> sint (word_of_nat (piece_count msg) :: cint)"
    using assms(1,2) by simp_all
  show "messageBit msg i \<noteq> []" "length (messageBit msg i) \<le> 15" using messageBit_slice [OF assms(1,2)] by simp_all
qed

lemma add_piece_ok:
  assumes u: "good_name u" and r: "good_name r" and i: "1 \<le> i" "i \<le> piece_count msg" and l: "length msg < 2 ^ 31"
    and s: "can_send lib enc cl" and c: "bc_cipherOut cl = Some (fresh_cipher lib True cl)"
  shows "add_piece lib u r msg i cl = (Inr (), cl\<lparr>bc_clock := Suc (Suc (bc_clock cl)), bc_outMsgs := bc_outMsgs cl @
     [msg_of enc u r (messageBit msg i) (word_of_nat i) (word_of_nat (piece_count msg)) (jv_now lib (bc_clock cl))]\<rparr>)"
proof -
  note f = piece_facts [OF i l]
  have t: "sint (jv_now lib (bc_clock cl)) \<le> sint (jv_now lib (Suc (bc_clock cl)))"
    using s by (simp add: can_send_def clock_runs_def)
  have d: "c_doFinal (jv_cipher lib) (fresh_cipher lib True cl) (getBytes (messageBit msg i))
      = (Some (enc (getBytes (messageBit msg i))), fresh_cipher lib True cl)"
    using s by (simp add: can_send_def)
  show ?thesis
    using msg_new [where enc = enc, OF u r f(1-4) t d] messageBit_slice(3) [OF i] c
    by (simp add: add_piece_def tick_def jbind_def Let_def)
qed


lemma add_pieces_ok:
  assumes u: "good_name u" and r: "good_name r" and l: "length msg < 2 ^ 31"
  shows "(\<And>i. i \<in> set is \<Longrightarrow> 1 \<le> i \<and> i \<le> piece_count msg) \<Longrightarrow> can_send lib enc cl \<Longrightarrow>
    bc_cipherOut cl = Some (fresh_cipher lib True cl) \<Longrightarrow>
    add_pieces lib u r msg is cl = (Inr (), cl\<lparr>bc_clock := bc_clock cl + 2 * length is,
      bc_outMsgs := bc_outMsgs cl @ msgs_of (jv_now lib) enc u r msg (bc_clock cl) is\<rparr>)"
proof (induction "is" arbitrary: cl)
  case Nil
  then show ?case by (simp add: jret_def)
next
  case (Cons i "is")
  from Cons.prems(1) [of i] have i: "1 \<le> i" "i \<le> piece_count msg" by simp_all
  note a = add_piece_ok [OF u r i l Cons.prems(2,3)]
  let ?cl = "snd (add_piece lib u r msg i cl)"
  have cl: "can_send lib enc ?cl" "bc_cipherOut ?cl = Some (fresh_cipher lib True ?cl)"
    using Cons.prems(2,3) unfolding a by (simp_all add: can_send_def fresh_cipher_def)
  have "add_pieces lib u r msg is ?cl = (Inr (), ?cl\<lparr>bc_clock := bc_clock ?cl + 2 * length is,
      bc_outMsgs := bc_outMsgs ?cl @ msgs_of (jv_now lib) enc u r msg (bc_clock ?cl) is\<rparr>)"
    by (rule Cons.IH [OF _ cl]) (use Cons.prems(1) in auto)
  then show ?case unfolding a by (simp add: jbind_def a)
qed

text \<open>The message the server receives for the recipient \<open>r\<close>.\<close>

definition post_of ::
  "(nat \<Rightarrow> clong) \<Rightarrow> (bytes \<Rightarrow> bytes) \<Rightarrow> jstring \<Rightarrow> jstring \<Rightarrow> jstring \<Rightarrow> nat \<Rightarrow> SPChatPollResponse" where
  "post_of now enc u msg r k =
     \<lparr>pr_username = getBytes u, pr_msgList = elements_of now enc u r msg k (piece_numbers msg), pr_listNum = 1, pr_totalList = 1\<rparr>"

lemma post_valid:
  assumes u: "good_name u" and r: "good_name r" and l: "length msg < 2 ^ 31" and now: "clock_runs now"
    and e: "\<And>p. length p \<le> 15 \<Longrightarrow> length (enc p) = 16"
  shows "pr_valid (post_of now enc u msg r k)"
proof -
  have "list_all mm_valid (elements_of now enc u r msg k is)" if "\<And>i. i \<in> set is \<Longrightarrow> 1 \<le> i \<and> i \<le> piece_count msg" for "is"
    using that
  proof (induction "is" arbitrary: k)
    case (Cons i "is")
    then have i: "1 \<le> i" "i \<le> piece_count msg" by simp_all
    note f = piece_facts [OF i l]
    have "length (enc (getBytes (messageBit msg i))) = 16"
      using length_getBytes [of "messageBit msg i"] f(2) by (intro e) simp
    with f now show ?case using Cons by (simp add: element_valid [OF u r] clock_runs_def)
  qed simp
  moreover have "piece_count msg < 2 ^ 31" using l by (simp add: piece_count_def)
  ultimately show ?thesis
    using good_nameD(2,7) [OF u] piece_numbers_bounds [of _ msg]
    by (simp add: pr_valid_def post_of_def validPositiveNum_def)
qed

lemma post_length:
  assumes u: "good_name u" and r: "good_name r" and l: "length msg < 2 ^ 31"
    and e: "\<And>p. length p \<le> 15 \<Longrightarrow> length (enc p) = 16"
  shows "length (encodeMiddle LittleEndian [] (MPollResponse (post_of now enc u msg r k))) \<le> 80 + piece_count msg * 180"
proof -
  have "length (concat (map (encodeMessage LittleEndian []) (elements_of now enc u r msg k (piece_numbers msg))))
      \<le> length (piece_numbers msg) * (164 + 16)"
  proof (rule elements_length)
    fix i assume "i \<in> set (piece_numbers msg)"
    from piece_facts(2) [OF _ _ l] piece_numbers_bounds [OF this] have "length (messageBit msg i) \<le> 15" by blast
    then show "length (enc (getBytes (messageBit msg i))) \<le> 16"
      using e [of "getBytes (messageBit msg i)"] length_getBytes [of "messageBit msg i"] by simp
  qed (use good_nameD(3,4) [OF u] good_nameD(3,4) [OF r] in simp_all)
  then show ?thesis
    using good_nameD(3,4) [OF u] by (simp add: pr_middle encodeMsgList_append [of _ "[]"] post_of_def)
qed

text \<open>The list as one frame.\<close>

lemma list_frame:
  assumes u: "good_name u" and r: "good_name r" and l: "0 < length msg" "length msg < 2 ^ 31"
    and e: "\<And>p. length p \<le> 15 \<Longrightarrow> length (enc p) = 16"
    and ms: "ms = msgs_of now enc u r msg k' (piece_numbers msg)"
  shows "\<exists>m. PollResponseMessage_new (len u) u (len ms) 1 1 ms = Inr m \<and> jq_newMessages m = ms \<and>
      None \<notin> set (jq_encode now k m) \<and>
      writes (jq_encode now k m) = encode LittleEndian [] (MPollResponse (post_of now enc u msg r k))"
proof -
  note d = good_nameD [OF u] and d' = good_nameD [OF r]
  have c: "0 < piece_count msg" "piece_count msg < 2 ^ 31" using l piece_count_pos [of msg] by (simp_all add: piece_count_def)
  have n: "length ms = piece_count msg" by (simp add: ms)
  with c(1) have n: "length ms = piece_count msg" "ms \<noteq> []" by auto
  let ?p = "post_of now enc u msg r k"
  let ?total = "pr_getPayloadLength ?p"
  have w: "(scast (4 * 4 + len u) :: clong) = word_of_nat (16 + length u)"
    using small_widened [of "16 + length u"] d(4) by (simp add: len_def)
  have tot: "scast (4 * 4 + len u) + getLen ms = ?total"
    using getLen_fold [OF u r, of 0 now enc msg k' "piece_numbers msg" k] d(3)
    unfolding w getLen_def ms pr_getPayloadLength_def post_of_def size_defs
    by (simp only: fold_payload_length [where e = LittleEndian]) (simp add: algebra_simps)
  let ?n = "length (encodeMiddle LittleEndian [] (MPollResponse ?p))"
  have small: "?n < 2 ^ 60" using post_length [where enc = enc and now = now and k = k, OF u r l(2) e] c(2) by simp
  have pos: "0 < ?n" by (simp add: pr_middle)
  have total: "?total = word_of_nat ?n" by (simp add: pr_payload_length [where e = LittleEndian])
  have "sint ?total = int ?n" using small unfolding total by (intro sint_word_of_nat64) simp
  then have "BabbleOnMessage_new (ordinal PollResponseType) ?total = Inr ?total"
    using pos by (simp add: BabbleOnMessage_new_def)
  moreover have "sint (len ms) = int (length ms)" using n(1) c(2) by (simp add: len_def sint_word_of_nat32)
  ultimately obtain m where m: "PollResponseMessage_new (len u) u (len ms) 1 1 ms = Inr m"
    "m = \<lparr>jq_messageLen = ?total, jq_usernameLength = len u, jq_username = u, jq_messageListSize = len ms,
       jq_listNumber = 1, jq_totalLists = 1, jq_newMessages = ms\<rparr>"
    using n(2) d(6) unfolding PollResponseMessage_new_def tot by simp
  have none: "None \<notin> set (jq_encode now k m)"
    using messages_bytes(2) [OF d(1) d'(1)] by (simp add: m(2) jq_encode_def header_writes_def ms)
  have "writes (jq_encode now k m) = frame_header LittleEndian 6 ?total @ (to_bytes 4 (len u) @ getBytes u) @ to_bytes 4 (1 :: cint) @
      to_bytes 4 (1 :: cint) @ to_bytes 4 (len ms) @ writes (encode_messages now k ms)"
    by (simp add: m(2) jq_encode_def)
  then have "writes (jq_encode now k m) = encode LittleEndian [] (MPollResponse ?p)"
    unfolding name_field [OF d(1)] using n(1)
    by (simp add: encode_frame pr_middle encodeMsgList_append [of _ "[]"] post_of_def type_consts to_bytes_int len_def
        ms messages_bytes(1) [where k = k, OF d(1) d'(1)])
  with m none show ?thesis by auto
qed


lemma send_list_ok:
  assumes u: "good_name u" and r: "good_name r" and l: "0 < length msg" "length msg < 2 ^ 31"
    and s: "can_send lib enc cl" and ms: "bc_outMsgs cl = msgs_of (jv_now lib) enc u r msg k' (piece_numbers msg)"
  shows "send_list lib u cl = (Inr (), cl\<lparr>bc_clock := bc_clock cl + piece_count msg, bc_sock := (bc_sock cl)
     \<lparr>out := out (bc_sock cl) @ encode LittleEndian [] (MPollResponse (post_of (jv_now lib) enc u msg r (bc_clock cl)))\<rparr>\<rparr>)"
proof -
  have "length (bc_outMsgs cl) = piece_count msg" by (simp add: ms)
  with piece_count_pos [OF l(1)] have n: "bc_outMsgs cl \<noteq> []" "length (bc_outMsgs cl) = piece_count msg" by auto
  from list_frame [where enc = enc and now = "jv_now lib" and k = "bc_clock cl", OF u r l can_send_encoded [OF s] ms]
  obtain m where m: "PollResponseMessage_new (len u) u (len (bc_outMsgs cl)) 1 1 (bc_outMsgs cl) = Inr m"
    "jq_newMessages m = bc_outMsgs cl" "None \<notin> set (jq_encode (jv_now lib) (bc_clock cl) m)"
    "writes (jq_encode (jv_now lib) (bc_clock cl) m)
      = encode LittleEndian [] (MPollResponse (post_of (jv_now lib) enc u msg r (bc_clock cl)))" by blast
  have "send_plan (bc_sock cl) = []" using s by (simp add: can_send_def)
  from write_each_ok [OF this m(3)] m n show ?thesis
    by (simp add: send_list_def send_writes_def on_socket_def rethrow_io_def jbind_def jret_def jlift_def writes_def)
qed

text \<open>The posts for several recipients: per recipient two readings of the clock per piece, then one.\<close>

primrec posts_of ::
  "(nat \<Rightarrow> clong) \<Rightarrow> (bytes \<Rightarrow> bytes) \<Rightarrow> jstring \<Rightarrow> jstring \<Rightarrow> nat \<Rightarrow> jstring list \<Rightarrow> SPChatPollResponse list" where
  "posts_of now enc u msg k [] = []"
| "posts_of now enc u msg k (r # rs) =
     post_of now enc u msg r (k + 2 * piece_count msg) # posts_of now enc u msg (k + 3 * piece_count msg) rs"

definition frames_of :: "SPChatPollResponse list \<Rightarrow> bytes" where
  "frames_of ps = concat (map (\<lambda>p. encode LittleEndian [] (MPollResponse p)) ps)"

lemma send_to_ok:
  assumes u: "good_name u" and l: "0 < length msg" "length msg < 2 ^ 31"
  shows "list_all good_name rs \<Longrightarrow> can_send lib enc cl \<Longrightarrow> bc_cipherOut cl = Some (fresh_cipher lib True cl) \<Longrightarrow>
    bc_outMsgs cl = [] \<Longrightarrow>
    send_to lib u msg rs cl = (Inr (), cl\<lparr>bc_clock := bc_clock cl + 3 * piece_count msg * length rs, bc_sock := (bc_sock cl)
     \<lparr>out := out (bc_sock cl) @ frames_of (posts_of (jv_now lib) enc u msg (bc_clock cl) rs)\<rparr>\<rparr>)"
proof (induction rs arbitrary: cl)
  case Nil
  then show ?case by (simp add: jret_def frames_of_def)
next
  case (Cons r rs)
  then have r: "good_name r" by simp
  let ?k = "bc_clock cl"
  let ?ms = "msgs_of (jv_now lib) enc u r msg ?k (piece_numbers msg)"
  let ?cl = "cl\<lparr>bc_clock := ?k + 2 * piece_count msg, bc_outMsgs := ?ms\<rparr>"
  have a: "add_pieces lib u r msg (piece_numbers msg) cl = (Inr (), ?cl)"
    using add_pieces_ok [OF u r l(2) piece_numbers_bounds Cons.prems(2,3)] Cons.prems(4) by simp
  have "can_send lib enc ?cl" using Cons.prems(2) by (simp add: can_send_def fresh_cipher_def)
  from send_list_ok [OF u r l this, of ?k]
  have b: "send_list lib u ?cl = (Inr (), ?cl\<lparr>bc_clock := ?k + 3 * piece_count msg, bc_sock := (bc_sock cl)
     \<lparr>out := out (bc_sock cl) @ encode LittleEndian [] (MPollResponse (post_of (jv_now lib) enc u msg r (?k + 2 * piece_count msg)))\<rparr>\<rparr>)"
    by simp
  let ?c2 = "cl\<lparr>bc_clock := ?k + 3 * piece_count msg, bc_sock := (bc_sock cl)
     \<lparr>out := out (bc_sock cl) @ encode LittleEndian [] (MPollResponse (post_of (jv_now lib) enc u msg r (?k + 2 * piece_count msg)))\<rparr>,
     bc_outMsgs := []\<rparr>"
  have c: "can_send lib enc ?c2" "bc_cipherOut ?c2 = Some (fresh_cipher lib True ?c2)"
    using Cons.prems(2,3) by (simp_all add: can_send_def fresh_cipher_def)
  have d: "send_to lib u msg (r # rs) cl = send_to lib u msg rs ?c2"
    using a b Cons.prems(4) by (simp add: jbind_def piece_numbers_def del: upt_Suc)
  show ?case unfolding d using Cons.IH [OF _ c] Cons.prems(1,4)
    by (simp add: frames_of_def algebra_simps)
qed

lemma send_text_ok:
  assumes u: "bc_username cl = Some u" "good_name u" and rs: "bc_recipients cl \<noteq> []" "list_all good_name (bc_recipients cl)"
    and l: "0 < length outgoing" "length outgoing < 7500" "length (group_header (bc_recipients cl) @ outgoing) < 2 ^ 31"
    and s: "can_send lib enc cl" "bc_cipherOut cl \<in> {None, Some (fresh_cipher lib True cl)}" "bc_outMsgs cl = []"
    and msg: "msg = group_header (bc_recipients cl) @ outgoing"
  shows "send_text lib outgoing cl = (Inr (), cl\<lparr>bc_cipherOut := Some (fresh_cipher lib True cl),
     bc_clock := bc_clock cl + 3 * piece_count msg * length (bc_recipients cl), bc_sock := (bc_sock cl)
     \<lparr>out := out (bc_sock cl) @ frames_of (posts_of (jv_now lib) enc u msg (bc_clock cl) (bc_recipients cl))\<rparr>\<rparr>)"
proof -
  let ?cl = "cl\<lparr>bc_cipherOut := Some (fresh_cipher lib True cl)\<rparr>"
  have c: "(case bc_cipherOut cl of None \<Rightarrow> Some (fresh_cipher lib True cl) | c \<Rightarrow> c) = Some (fresh_cipher lib True cl)"
    using s(2) by auto
  have cl: "can_send lib enc ?cl" "bc_cipherOut ?cl = Some (fresh_cipher lib True ?cl)" "bc_outMsgs ?cl = []"
    using s(1,3) by (simp_all add: can_send_def fresh_cipher_def)
  have "0 < length msg" "length msg < 2 ^ 31" using l msg by simp_all
  from send_to_ok [OF u(2) this rs(2) cl] u(1) rs(1) l(1,2) c show ?thesis
    by (simp add: send_text_def MAX_MSG_LEN_def MAX_MSGS_def catch_babble_def jbind_def my_name_def Let_def msg)
qed

section \<open>The text comes back\<close>

text \<open>What the server makes of a post: it decrypts the elements and joins them.\<close>

lemma posted_text_elements:
  assumes "\<And>p. fst (env_decrypt env key ivString (enc p)) = p" and "is_ascii msg"
  shows "posted_text env key (pr_msgList (post_of now enc u msg r k)) = getBytes msg"
proof -
  have *: "posted_text env key (elements_of now enc u r msg k is) = concat (map (\<lambda>i. getBytes (messageBit msg i)) is)" for "is"
    using assms(1) by (induction "is" arbitrary: k) (simp_all add: posted_text_def element_of_def)
  have a: "is_ascii (messageBit msg i)" for i
    using assms(2) by (auto simp: is_ascii_def messageBit_def Let_def list_all_iff dest!: in_set_takeD in_set_dropD)
  have c: "is_ascii (concat (map (messageBit msg) is))" for "is" by (induction "is") (simp_all add: a)
  have "concat (map (\<lambda>i. getBytes (messageBit msg i)) is) = getBytes (concat (map (messageBit msg) is))" for "is"
    by (induction "is") (simp_all add: a c)
  then show ?thesis unfolding post_of_def using pieces_join [of msg]
    by (simp add: * piece_numbers_def del: upt_Suc)
qed

section \<open>The posts one by one\<close>

lemma posts_nth:
  "length (posts_of now enc u msg k rs) = length rs"
  "i < length rs \<Longrightarrow> posts_of now enc u msg k rs ! i = post_of now enc u msg (rs ! i) (k + 3 * piece_count msg * i + 2 * piece_count msg)"
proof -
  show "length (posts_of now enc u msg k rs) = length rs" by (induction rs arbitrary: k) simp_all
  show "i < length rs \<Longrightarrow> posts_of now enc u msg k rs ! i = post_of now enc u msg (rs ! i) (k + 3 * piece_count msg * i + 2 * piece_count msg)"
    by (induction rs arbitrary: k i) (simp_all add: nth_Cons algebra_simps split: nat.split)
qed

lemma post_addressed:
  assumes "\<And>p. length p \<le> 15 \<Longrightarrow> length (enc p) = 16" and "length msg < 2 ^ 31"
  shows "list_all (\<lambda>m. mm_sender m = getBytes u \<and> mm_receiver m = getBytes r \<and> length (mm_message m) = 16 \<and>
    mm_totalMsg m = word_of_nat (piece_count msg)) (pr_msgList (post_of now enc u msg r k))"
proof -
  have "list_all (\<lambda>m. mm_sender m = getBytes u \<and> mm_receiver m = getBytes r \<and> length (mm_message m) = 16 \<and>
      mm_totalMsg m = word_of_nat (piece_count msg)) (elements_of now enc u r msg k is)"
    if "\<And>i. i \<in> set is \<Longrightarrow> 1 \<le> i \<and> i \<le> piece_count msg" for "is"
    using that
  proof (induction "is" arbitrary: k)
    case (Cons i "is")
    then have "length (messageBit msg i) \<le> 15" using piece_facts(2) [OF _ _ assms(2)] by simp
    then have "length (getBytes (messageBit msg i)) \<le> 15" using length_getBytes [of "messageBit msg i"] by linarith
    with Cons show ?case by (simp add: element_of_def assms(1))
  qed simp
  from this [OF piece_numbers_bounds] show ?thesis by (simp add: post_of_def)
qed

lemma group_header_ascii: "list_all good_name rs \<Longrightarrow> is_ascii (group_header rs)"
proof -
  have "is_ascii (concat (map (\<lambda>r. r @ [10]) rs))" if "list_all good_name rs"
    using that good_nameD(1) by (induction rs) simp_all
  moreover have "is_ascii (jstr ''**Group Message**'')" "is_ascii (jstr ''To: '')" by (rule literal_bytes(1), simp)+
  ultimately show "list_all good_name rs \<Longrightarrow> is_ascii (group_header rs)" by (simp add: group_header_def)
qed

end
