(* ===== verification/ServerFrames.thy ===== *)
theory ServerFrames
  imports ClientPosts
begin

text \<open>
  What the Java client reads, seen from the C++ server: from each frame the server writes, the
  client's constructors get back the members of the object the server sent.

  The locale \<open>frame_source\<close> says that the bytes to come are known, and \<open>chunk_source\<close> that one call of
  \<open>read\<close> also gets as many as it asks for, which only \<open>MsgMessage\<close> relies on. The first holds
  however the stream is cut into segments, the second when what has arrived is one segment.
\<close>

section \<open>Sources\<close>

text \<open>\<open>takes at m bs a\<close>: at the bytes \<open>bs\<close>, the reader \<open>m\<close> returns \<open>a\<close> and is behind them.\<close>

definition takes :: "(bytes \<Rightarrow> sock \<Rightarrow> bool) \<Rightarrow> (sock \<Rightarrow> 'a jres \<times> sock) \<Rightarrow> bytes \<Rightarrow> 'a \<Rightarrow> bool" where
  "takes at m bs a \<longleftrightarrow> (\<forall>s rest. at (bs @ rest) s \<longrightarrow> (\<exists>q. m s = (Inr a, s\<lparr>inq := q\<rparr>) \<and> at rest (s\<lparr>inq := q\<rparr>)))"

lemma takes_bind:
  assumes "takes at m bs a" and "takes at (f a) bs' b"
  shows "takes at (jbind m f) (bs @ bs') b"
  unfolding takes_def
proof (intro allI impI)
  fix s rest assume "at ((bs @ bs') @ rest) s"
  with assms(1) obtain q where q: "m s = (Inr a, s\<lparr>inq := q\<rparr>)" "at (bs' @ rest) (s\<lparr>inq := q\<rparr>)" by (auto simp: takes_def)
  with assms(2) obtain q' where "f a (s\<lparr>inq := q\<rparr>) = (Inr b, s\<lparr>inq := q'\<rparr>)" "at rest (s\<lparr>inq := q'\<rparr>)"
    by (fastforce simp: takes_def)
  with q show "\<exists>q. jbind m f s = (Inr b, s\<lparr>inq := q\<rparr>) \<and> at rest (s\<lparr>inq := q\<rparr>)" by (auto simp: jbind_def)
qed

lemma takes_then: "takes at m bs a \<Longrightarrow> takes at (f a) bs' b \<Longrightarrow> cs = bs @ bs' \<Longrightarrow> takes at (jbind m f) cs b"
  by (simp add: takes_bind)

lemma unread: "at rest s \<Longrightarrow> \<exists>q. s = s\<lparr>inq := q\<rparr> \<and> at rest (s\<lparr>inq := q\<rparr>)" for s :: sock
  by (rule exI [of _ "inq s"]) simp

lemma takes_ret [simp]: "takes at (jret a) [] a" "takes at (jlift (Inr a)) [] a"
  by (simp_all add: takes_def jret_def jlift_def unread)

lemma takes_map: "takes at m bs a \<Longrightarrow> g a = b \<Longrightarrow> takes at (jbind m (\<lambda>a. jret (g a))) bs b"
  using takes_bind [of at m bs a "\<lambda>a. jret (g a)" "[]" b] by simp

lemma takes_lift: "r = Inr b \<Longrightarrow> takes at (f b) bs a \<Longrightarrow> takes at (jbind (jlift r) f) bs a"
  using takes_bind [OF takes_ret(2)] by fastforce

lemma takes_rethrow: "takes at m bs a \<Longrightarrow> takes at (rethrow_io m) bs a"
  by (fastforce simp: takes_def rethrow_io_def)

locale frame_source =
  fixes at :: "bytes \<Rightarrow> sock \<Rightarrow> bool"
  assumes fully: "length bs = n \<Longrightarrow> takes at (readFully n) bs bs"
begin

lemma take_byte: "takes at ds_readByte [b] b"
  unfolding ds_readByte_def by (rule takes_map [OF fully]) simp_all

lemma take_int: "takes at ds_readInt (encodeInt LittleEndian [] n) n"
  unfolding ds_readInt_def by (rule takes_map [OF fully]) simp_all

lemma take_long: "takes at ds_readLong (encodeLong LittleEndian [] n) n"
  unfolding ds_readLong_def by (rule takes_map [OF fully]) simp_all

lemma take_readInt:
  assumes "0 \<le> sint n" and "sint n \<le> b"
  shows "takes at (readInt b) (encodeInt LittleEndian [] n) n"
proof -
  have "takes at (jbind (jlift (babble_if (0 > sint n \<or> b < sint n))) (\<lambda>_. jret n)) [] n"
    using assms by (intro takes_lift [where b = "()"]) simp_all
  then show ?thesis unfolding readInt_def by (rule takes_then [OF takes_rethrow [OF take_int]]) simp
qed

lemma take_readLong: "takes at readLong (encodeLong LittleEndian [] n) n"
  unfolding readLong_def by (rule takes_rethrow [OF take_long])

lemma take_readStr:
  assumes "sint n = int (length bs)"
  shows "takes at (readStr n) bs (string_of bs)"
  unfolding readStr_def using assms by (intro takes_map [OF takes_rethrow [OF fully]]) simp_all

lemma take_header:
  assumes "0 \<le> sint n"
  shows "takes at BabbleOnMessage_read (frame_header LittleEndian ty n) (ty, n)"
proof -
  have h: "string_of HEADER = HEADER_J" "length HEADER = 10" "length HEADER_J = 10" "HEADER_J \<noteq> []"
    unfolding HEADER_def HEADER_J_def by (rule literal_bytes(3), simp) (simp_all add: jstr_def)
  have "takes at (readStr (word_of_nat (length HEADER_J))) HEADER HEADER_J"
    using take_readStr [of "word_of_nat (length HEADER_J)" HEADER] h by simp
  moreover have "takes at (jbind (jlift (babble_if (0 > sint n))) (\<lambda>_. jret (ty, n))) [] (ty, n)"
    using assms by (intro takes_lift [where b = "()"]) simp_all
  ultimately have "takes at BabbleOnMessage_read (HEADER @ [ty] @ encodeLong LittleEndian [] n @ []) (ty, n)"
    unfolding BabbleOnMessage_read_def using h(4) assms
    by (intro takes_rethrow takes_bind [where a = HEADER_J] takes_lift [where b = "()"] takes_bind [OF take_byte]
        takes_bind [OF take_long]) simp_all
  then show ?thesis by (simp add: frame_header_def)
qed

lemma take_challenge: "length c = 8 \<Longrightarrow> takes at ChallengeMessage_read c c"
proof -
  have "takes at (read_bytes (length bs)) bs bs" for bs
  proof (induction bs)
    case (Cons b bs)
    have "takes at (read_bytes (length (b # bs))) ([b] @ bs @ []) (b # bs)"
      unfolding list.size(4) add_0_right One_nat_def add_Suc_right read_bytes.simps
      by (rule takes_bind [OF takes_rethrow [OF take_byte]], rule takes_bind [OF Cons]) simp
    then show ?case by simp
  qed simp
  from this [of c] show "length c = 8 \<Longrightarrow> takes at ChallengeMessage_read c c" by (simp add: ChallengeMessage_read_def)
qed

lemma take_ack: "takes at ACKMessage_read [b] (ACKMessage_of b)"
  unfolding ACKMessage_read_def by (intro takes_map [OF takes_rethrow [OF take_byte]]) simp

lemma take_key_login:
  assumes "length key = 271" and "parse (justKey (string_of key)) = Some k"
  shows "takes at (LoginMessage_read parse) (encodeString LittleEndian [] [] @ [ASYMMETRIC_KEY] @ key)
    \<lparr>jl_messageLen = 0, jl_usernameLength = 0, jl_username = [], jl_keyType = ASYMMETRIC_KEY,
      jl_publicKeyStr = Some (string_of key), jl_encodedKey = None\<rparr>"
proof -
  have l: "KEY_LEN = 271" by (simp add: KEY_LEN_def KEY_FILE_HEADER_def KEY_FILE_FOOTER_def KEYSIZE_def jstr_def)
  have r: "takes at (readStr (word_of_nat KEY_LEN)) key (string_of key)"
    using take_readStr [of "word_of_nat KEY_LEN" key] by (simp add: l assms(1))
  have "takes at (jbind (jlift (decodeKey_J parse (string_of key))) (\<lambda>_. jret (Some (string_of key)))) [] (Some (string_of key))"
    by (rule takes_lift [of _ k]) (simp_all add: decodeKey_J_def assms(2))
  with r have k: "takes at (jbind (readStr (word_of_nat KEY_LEN)) (\<lambda>str.
      jbind (jlift (decodeKey_J parse str)) (\<lambda>_. jret (Some str)))) key (Some (string_of key))"
    by (rule takes_then) simp
  have n: "takes at (readStr 0) [] []" using take_readStr [of 0 "[]"] by (simp add: string_of_def)
  have e: "encodeString LittleEndian [] [] = encodeInt LittleEndian [] 0" by (simp add: encodeString_def)
  have last: "takes at (jbind (if ASYMMETRIC_KEY = key_ordinal ASYMMETRIC
            then jbind (readStr (word_of_nat KEY_LEN)) (\<lambda>str. jbind (jlift (decodeKey_J parse str)) (\<lambda>_. jret (Some str)))
            else jret None) (\<lambda>publicKeyStr.
     jret \<lparr>jl_messageLen = 0, jl_usernameLength = 0, jl_username = [],
       jl_keyType = ASYMMETRIC_KEY, jl_publicKeyStr = publicKeyStr, jl_encodedKey = None\<rparr>)) key
     \<lparr>jl_messageLen = 0, jl_usernameLength = 0, jl_username = [], jl_keyType = ASYMMETRIC_KEY,
      jl_publicKeyStr = Some (string_of key), jl_encodedKey = None\<rparr>"
    using k by (intro takes_map [of _ _ _ "Some (string_of key)"]) (simp_all add: ASYMMETRIC_KEY_def)
  show ?thesis
    unfolding LoginMessage_read_def e
    apply (rule takes_then [OF takes_rethrow [OF take_int [of 0]]])
     apply (rule takes_lift [where b = "()"], simp add: MAX_UNAME_LEN_def)
     apply (rule takes_then [OF n])
      apply (rule takes_lift [where b = "()"], simp)
      apply (rule takes_then [OF takes_rethrow [OF take_byte [of ASYMMETRIC_KEY]]])
       apply (rule takes_lift [where b = "()"], simp add: ASYMMETRIC_KEY_def)
       apply (rule last)
      apply simp_all
    done
qed

end

section \<open>Reading a chat message\<close>

text \<open>The same for readers that also decrypt and look at the clock.\<close>

definition takes_in ::
  "(bytes \<Rightarrow> sock \<Rightarrow> bool) \<Rightarrow> ('c input \<Rightarrow> 'a jres \<times> 'c input) \<Rightarrow> 'c \<times> nat \<Rightarrow> bytes \<Rightarrow> 'a \<Rightarrow> 'c \<times> nat \<Rightarrow> bool" where
  "takes_in at m p bs a p' \<longleftrightarrow> (\<forall>s rest. at (bs @ rest) s \<longrightarrow>
     (\<exists>q. m (s, p) = (Inr a, (s\<lparr>inq := q\<rparr>, p')) \<and> at rest (s\<lparr>inq := q\<rparr>)))"

lemma takes_in_then:
  assumes "takes_in at m p bs a p1" and "takes_in at (f a) p1 bs' b p2" and "cs = bs @ bs'"
  shows "takes_in at (jbind m f) p cs b p2"
  unfolding takes_in_def
proof (intro allI impI)
  fix s rest assume "at (cs @ rest) s"
  with assms(1,3) obtain q where q: "m (s, p) = (Inr a, (s\<lparr>inq := q\<rparr>, p1))" "at (bs' @ rest) (s\<lparr>inq := q\<rparr>)"
    by (auto simp: takes_in_def)
  with assms(2) obtain q' where "f a (s\<lparr>inq := q\<rparr>, p1) = (Inr b, (s\<lparr>inq := q'\<rparr>, p2))" "at rest (s\<lparr>inq := q'\<rparr>)"
    by (fastforce simp: takes_in_def)
  with q show "\<exists>q. jbind m f (s, p) = (Inr b, (s\<lparr>inq := q\<rparr>, p2)) \<and> at rest (s\<lparr>inq := q\<rparr>)" by (auto simp: jbind_def)
qed

lemma takes_in_ret [simp]: "takes_in at (jret a) p [] a p" "takes_in at (jlift (Inr a)) p [] a p"
  by (simp_all add: takes_in_def jret_def jlift_def unread)

lemma takes_in_lift: "r = Inr b \<Longrightarrow> takes_in at (f b) p bs a p' \<Longrightarrow> takes_in at (jbind (jlift r) f) p bs a p'"
  by (simp add: takes_in_then [OF takes_in_ret(2)])

lemma takes_in_rethrow: "takes_in at m p bs a p' \<Longrightarrow> takes_in at (rethrow_io m) p bs a p'"
  by (fastforce simp: takes_in_def rethrow_io_def)

lemma takes_in_sock: "takes at m bs a \<Longrightarrow> takes_in at (on_sock m) p bs a p"
  by (cases p) (fastforce simp: takes_in_def takes_def on_sock_def)

lemma takes_in_cipher:
  assumes "m c = (Inr a, c')"
  shows "takes_in at (on_cipher m) (c, k) [] a (c', k)"
  by (simp add: takes_in_def on_cipher_def assms unread)

lemma takes_in_clock: "takes_in at (currentTimeMillis now) (c, k) [] (now k) (c, Suc k)"
  by (simp add: takes_in_def currentTimeMillis_def unread)

text \<open>A chat message whose text is in ASCII and whose cipher text the cipher undoes.\<close>

definition readable :: "'c cipher \<Rightarrow> (nat \<Rightarrow> clong) \<Rightarrow> 'c \<times> nat \<Rightarrow> SPChatMsgMessage \<Rightarrow> bytes \<Rightarrow> 'c \<Rightarrow> bool" where
  "readable ops now p m plain c' \<longleftrightarrow>
     length (mm_sender m) \<le> 64 \<and> length (mm_receiver m) \<le> 64 \<and> length (mm_message m) < 2 ^ 31 \<and>
     (\<exists>bs. bs \<noteq> [] \<and> list_all (\<lambda>b. length b = 16) bs \<and> concat bs = mm_message m \<and> feed ops (fst p) bs = (Some plain, c')) \<and>
     sint (mm_decryptMsgLen m) = int (length plain) \<and> length plain \<le> 7500 \<and>
     0 < sint (mm_msgNum m) \<and> sint (mm_msgNum m) \<le> sint (mm_totalMsg m) \<and>
     0 \<le> sint (mm_time m) \<and> sint (mm_time m) \<le> sint (now (snd p))"

definition read_of :: "SPChatMsgMessage \<Rightarrow> bytes \<Rightarrow> MsgMessage" where
  "read_of m plain = \<lparr>jm_senderUsernameLength = word_of_nat (length (mm_sender m)), jm_senderUsername = string_of (mm_sender m),
     jm_receiverUsernameLength = word_of_nat (length (mm_receiver m)), jm_receiverUsername = string_of (mm_receiver m),
     jm_messageLengthEncrypted = word_of_nat (length (mm_message m)), jm_message = string_of plain,
     jm_messageLenDecrypted = mm_decryptMsgLen m, jm_messageNumber = mm_msgNum m, jm_totalMessages = mm_totalMsg m,
     jm_timestamp = mm_time m, jm_encrypted = []\<rparr>"

locale chunk_source = frame_source +
  assumes some: "length bs = n \<Longrightarrow> 0 < n \<Longrightarrow> takes at (read_some n) bs (Some bs)"
begin

lemma take_chunk: "length chunk = 16 \<Longrightarrow> length b = 16 \<Longrightarrow> takes at (read_chunk chunk) b b"
  unfolding read_chunk_def by (rule takes_map [OF some]) simp_all

lemma take_blocks:
  "feed ops c bs = (Some p, c') \<Longrightarrow> bs \<noteq> [] \<Longrightarrow> list_all (\<lambda>b. length b = 16) bs \<Longrightarrow> length chunk = 16 \<Longrightarrow>
   takes_in at (decrypt_chunks ops (16 * length bs) chunk) (c, k) (concat bs) p (c', k)"
proof (induction ops c bs arbitrary: p chunk rule: feed.induct)
  case (1 ops c b b' bs)
  then obtain x c1 y where x: "c_update ops c b = (Some x, c1)" "feed ops c1 (b' # bs) = (Some y, c')" "p = x @ y"
    by (auto split: prod.splits option.splits)
  have w: "takes_in at (on_cipher (write_update ops b)) (c, k) [] x (c1, k)"
    by (rule takes_in_cipher) (simp add: write_update_def x(1))
  have r: "takes_in at (decrypt_chunks ops (16 * length (b' # bs)) b) (c1, k) (concat (b' # bs)) y (c', k)"
    by (rule "1.IH" [OF x(1) [symmetric] refl x(2)]) (use "1.prems" in simp_all)
  have "takes_in at (jbind (decrypt_chunks ops (16 * length (b' # bs)) b) (\<lambda>bs'. jret (x @ bs'))) (c1, k) (concat (b' # bs)) p (c', k)"
    by (rule takes_in_then [OF r, of _ "[]"]) (simp_all add: x(3))
  with w have n: "takes_in at (jbind (on_cipher (write_update ops b)) (\<lambda>x. jbind (decrypt_chunks ops (16 * length (b' # bs)) b)
      (\<lambda>bs'. jret (x @ bs')))) (c, k) (concat (b' # bs)) p (c', k)" by (rule takes_in_then) simp
  have l: "BLOCK_SIZE < 16 * length (b # b' # bs)" "16 * length (b # b' # bs) - BLOCK_SIZE = 16 * length (b' # bs)"
    by (simp_all add: BLOCK_SIZE_def)
  show ?case
    unfolding decrypt_chunks.simps [of ops "16 * length (b # b' # bs)"] if_P [OF l(1)] l(2)
    by (rule takes_in_then [OF takes_in_sock [OF take_chunk [of chunk b]]]) (use "1.prems" n in simp_all)
next
  case (2 ops c b)
  then have d: "padding_to_babble (doFinal ops b) c = (Inr p, c')" by (simp add: padding_to_babble_def doFinal_def)
  have f: "takes_in at (on_cipher (padding_to_babble (doFinal ops b))) (c, k) [] p (c', k)" by (rule takes_in_cipher) (rule d)
  have "takes_in at (jbind (on_sock (read_chunk chunk)) (\<lambda>chunk. on_cipher (padding_to_babble (doFinal ops chunk)))) (c, k) b p (c', k)"
    by (rule takes_in_then [OF takes_in_sock [OF take_chunk [of chunk b]]]) (use "2.prems" f in simp_all)
  then show ?case by (simp add: decrypt_chunks.simps [of ops 16] BLOCK_SIZE_def)
qed simp

text \<open>A user name with its length.\<close>

lemma take_name:
  assumes "length u \<le> 64" and "takes_in at (f (word_of_nat (length u)) (string_of u)) p bs a p'"
  shows "takes_in at (jbind (on_sock (readInt MAX_UNAME_LEN)) (\<lambda>n. jbind (on_sock (readStr n)) (\<lambda>u.
    jbind (jlift (check_name n u)) (\<lambda>_. f n u)))) p (encodeString LittleEndian [] u @ bs) a p'"
proof -
  let ?n = "word_of_nat (length u) :: cint"
  have n: "sint ?n = int (length u)" using assms(1) by (intro sint_word_of_nat32) simp
  have "check_name ?n (string_of u) = Inr ()" using n assms(1) by (simp add: check_name_def MAX_UNAME_LEN_def)
  with assms(2) have "takes_in at (jbind (jlift (check_name ?n (string_of u))) (\<lambda>_. f ?n (string_of u))) p bs a p'"
    by (intro takes_in_lift)
  then have s: "takes_in at (jbind (on_sock (readStr ?n)) (\<lambda>u. jbind (jlift (check_name ?n u)) (\<lambda>_. f ?n u))) p (u @ bs) a p'"
    by (intro takes_in_then [OF takes_in_sock [OF take_readStr [OF n]]]) simp_all
  have "takes at (readInt MAX_UNAME_LEN) (encodeInt LittleEndian [] ?n) ?n"
    using n assms(1) by (intro take_readInt) (simp_all add: MAX_UNAME_LEN_def)
  from takes_in_then [OF takes_in_sock [OF this], of _ p "u @ bs" a p'] s show ?thesis
    by (simp add: encodeString_def)
qed

lemma take_nat:
  assumes "0 \<le> sint n" and "takes_in at (f n) p bs a p'"
  shows "takes_in at (jbind (on_sock (readInt (2 ^ 31 - 1))) f) p (encodeInt LittleEndian [] n @ bs) a p'"
proof -
  have "takes at (readInt (2 ^ 31 - 1)) (encodeInt LittleEndian [] n) n"
    using assms(1) sint_lt [of n] by (intro take_readInt) simp_all
  from takes_in_sock [OF this] assms(2) show ?thesis by (rule takes_in_then) simp
qed

lemma take_message:
  assumes "readable ops now (c, k) m plain c'"
  shows "takes_in at (MsgMessage_read ops now) (c, k) (encodeMessage LittleEndian [] m) (read_of m plain) (c', Suc k)"
proof -
  note r = assms [unfolded readable_def fst_conv snd_conv]
  from r obtain bs where bs: "bs \<noteq> []" "list_all (\<lambda>b. length b = 16) bs" "concat bs = mm_message m"
    "feed ops c bs = (Some plain, c')" by blast
  let ?e = "word_of_nat (length (mm_message m)) :: cint"
  have "length (concat bs) = 16 * length bs" using bs(2) by (induction bs) simp_all
  moreover have e: "sint ?e = int (length (mm_message m))" using r by (intro sint_word_of_nat32) simp
  ultimately have l: "nat (sint ?e) = 16 * length bs" using bs(3) by simp
  have d: "takes_in at (decrypt_chunks ops (nat (sint ?e)) (replicate BLOCK_SIZE 0)) (c, k) (mm_message m) plain (c', k)"
    using take_blocks [OF bs(4,1,2), of "replicate BLOCK_SIZE 0" k] bs(3) unfolding l by (simp add: BLOCK_SIZE_def)
  have n: "0 \<le> sint (mm_msgNum m)" "0 \<le> sint (mm_totalMsg m)" using r by simp_all
  have long: "takes_in at (on_sock readLong) p (encodeLong LittleEndian [] x) x p" for p :: "'a \<times> nat" and x
    by (rule takes_in_sock [OF take_readLong])
  show ?thesis
    unfolding MsgMessage_read_def encodeMessage_parts Let_def
    apply (simp only: append_Nil encodeString_def [of _ _ "mm_message m"] append_assoc)
    apply (rule take_name, use r in simp, rule take_name, use r in simp)
    apply (rule take_nat, use e in simp)
    apply (rule takes_in_then [OF d], rule takes_in_then [OF long [where x = "mm_decryptMsgLen m"]])
      apply (rule takes_in_lift [where b = "()"], use r in \<open>simp add: MAX_MSG_LEN_def MAX_MSGS_def\<close>)
      apply (rule take_nat [OF n(1)], rule take_nat [OF n(2)])
      apply (rule takes_in_lift [where b = "()"], use r in simp)
      apply (rule takes_in_then [OF long [where x = "mm_time m"]], rule takes_in_then [OF takes_in_clock])
        apply (rule takes_in_lift [where b = "()"], use r in simp)
        apply (unfold read_of_def, rule takes_in_ret(1))
       apply (rule refl | simp)+
    done
qed

text \<open>The server's answer to a poll, a list of one message.\<close>

lemma take_answer:
  assumes "readable ops now (c, k) m plain c'" and "length u \<le> 64"
  shows "takes_in at (PollResponseMessage_read ops now) (c, k)
    (pr_encodeMiddle LittleEndian [] \<lparr>pr_username = u, pr_msgList = [m], pr_listNum = 1, pr_totalList = 1\<rparr>)
    \<lparr>jq_messageLen = 0, jq_usernameLength = word_of_nat (length u), jq_username = string_of u,
      jq_messageListSize = 1, jq_listNumber = 1, jq_totalLists = 1, jq_newMessages = [read_of m plain]\<rparr> (c', Suc k)"
proof -
  have one: "takes_in at (on_sock (readInt MAX_LISTS)) p (encodeInt LittleEndian [] 1) 1 p" for p :: "'a \<times> nat"
    by (intro takes_in_sock take_readInt) (simp_all add: MAX_LISTS_def)
  have n: "nat (sint (1 :: cint)) = Suc 0" by simp
  have r: "takes_in at (read_messages ops now (nat (sint (1 :: cint)))) (c, k) (encodeMessage LittleEndian [] m) [read_of m plain] (c', Suc k)"
    unfolding n read_messages.simps
    by (rule takes_in_then [OF takes_in_rethrow [OF take_message [OF assms(1)]]], rule takes_in_then [OF takes_in_ret(1)],
        rule takes_in_ret(1)) simp_all
  have e: "pr_encodeMiddle LittleEndian [] \<lparr>pr_username = u, pr_msgList = [m], pr_listNum = 1, pr_totalList = 1\<rparr>
    = encodeString LittleEndian [] u @ encodeInt LittleEndian [] 1 @ encodeInt LittleEndian [] 1 @ encodeInt LittleEndian [] 1 @
      encodeMessage LittleEndian [] m"
    by (simp add: pr_middle encodeMsgList_append [of _ "[]"])
  show ?thesis
    unfolding PollResponseMessage_read_def e
    apply (rule take_name [OF assms(2)])
    apply (rule takes_in_then [OF one], rule takes_in_then [OF one])
      apply (rule takes_in_lift [where b = "()"], simp)
      apply (rule take_nat [of 1], simp)
      apply (rule takes_in_then [OF r])
       apply (rule takes_in_ret(1))
      apply (rule refl | simp)+
    done
qed

end

section \<open>Two sources\<close>

definition comes :: "bytes \<Rightarrow> sock \<Rightarrow> bool" where
  "comes bs s \<longleftrightarrow> pending s = bs"

text \<open>All that has arrived is one segment.\<close>

definition at_once :: "bytes \<Rightarrow> sock \<Rightarrow> bool" where
  "at_once bs s \<longleftrightarrow> pending s = bs \<and> length (filter (\<lambda>seg. seg \<noteq> []) (inq s)) \<le> 1"

lemma drop_bytes_segments: "length (filter (\<lambda>seg. seg \<noteq> []) (drop_bytes n q)) \<le> length (filter (\<lambda>seg. seg \<noteq> []) q)"
  by (induction n q rule: drop_bytes.induct) auto

interpretation stream: frame_source comes
proof
  fix bs :: bytes and n assume "length bs = n"
  then show "takes comes (readFully n) bs bs"
    using readFully_front [of _ bs _ n] by (fastforce simp: takes_def comes_def pending_def)
qed

interpretation segment: chunk_source at_once
proof
  fix bs :: bytes and n assume n: "length bs = n"
  show "takes at_once (readFully n) bs bs"
    using n drop_bytes_segments [of n] by (fastforce simp: takes_def at_once_def readFully_def pending_def intro: le_trans)
  assume "0 < n"
  show "takes at_once (read_some n) bs (Some bs)"
    unfolding takes_def
  proof (intro allI impI)
    fix s rest assume a: "at_once (bs @ rest) s"
    then have c: "concat (inq s) = bs @ rest" "bs @ rest \<noteq> []" "length (filter (\<lambda>seg. seg \<noteq> []) (inq s)) \<le> 1"
      using n \<open>0 < n\<close> by (auto simp: at_once_def pending_def)
    have f: "filter (\<lambda>seg. seg \<noteq> []) (dropWhile (\<lambda>seg. seg = []) q) = filter (\<lambda>seg. seg \<noteq> []) q" for q :: "bytes list"
      by (induction q) simp_all
    have "dropWhile (\<lambda>seg. seg = []) (inq s) \<noteq> []" using c(1,2) pending_dropWhile [of "inq s"] by (metis concat.simps(1))
    then obtain seg segs where d: "dropWhile (\<lambda>seg. seg = []) (inq s) = seg # segs" by (cases "dropWhile (\<lambda>seg. seg = []) (inq s)") auto
    have "length (filter (\<lambda>seg. seg \<noteq> []) (seg # segs)) \<le> 1" using c(3) f [of "inq s"] unfolding d by simp
    with dropWhile_nonempty [OF d] have z: "filter (\<lambda>seg. seg \<noteq> []) segs = []" by simp
    then have e: "concat segs = []" by (auto simp: filter_empty_conv)
    with c(1) pending_dropWhile [of "inq s"] have "seg = bs @ rest" by (simp add: d)
    then show "\<exists>q. read_some n s = (Inr (Some bs), s\<lparr>inq := q\<rparr>) \<and> at_once rest (s\<lparr>inq := q\<rparr>)"
      using n \<open>0 < n\<close> d e z
      by (auto simp: read_some_def kernel_recv_def at_once_def pending_def)
  qed
qed

end
