(* ===== verification/Output.thy ===== *)
theory Output
  imports Honest
begin

text \<open>
  What a client thread puts on the wire. A relation between the states of a thread that every
  basic action keeps is kept by the whole of \<open>clientConnectStart\<close>: that is the locale
  \<open>kept_relation\<close>. Its interpretation relates the socket's output to the trace: the bytes sent
  are the frames of the messages that the trace says were sent, in that order.
\<close>

section \<open>Relations kept by a thread\<close>

locale kept_relation =
  fixes env :: "'d env" and K :: "'d world \<Rightarrow> 'd world \<Rightarrow> bool"
  assumes same: "K w w"
    and further: "K w w1 \<Longrightarrow> K w1 w2 \<Longrightarrow> K w w2"
    and receiving: "receive env w = (x, w') \<Longrightarrow> K w w'"
    and sending: "send_message env m w = (y, w') \<Longrightarrow> K w w'"
    and clock: "K w (w\<lparr>w_clock := c\<rparr>)"
    and deleting: "K w (delete_sock w)"
    and connecting: "sql_connect env w = (ok, w') \<Longrightarrow> K w w'"
    and asking: "thread_statement (Querying sql ps) \<Longrightarrow> sql_query env sql ps w = (z, w') \<Longrightarrow> K w w'"
    and changing: "thread_statement (Updating sql ps) \<Longrightarrow> sql_update env sql ps w = (ok, w') \<Longrightarrow> K w w'"
begin

definition keeps :: "('d, 'a) act \<Rightarrow> bool" where
  "keeps m \<longleftrightarrow> (\<forall>w. K w (snd (m w)))"

lemma keepsI: "(\<And>w r w'. m w = (r, w') \<Longrightarrow> K w w') \<Longrightarrow> keeps m"
  unfolding keeps_def by (metis prod.collapse)

lemma keepsD: "keeps m \<Longrightarrow> m w = (r, w') \<Longrightarrow> K w w'"
  unfolding keeps_def by (metis snd_conv)

lemma keeps_bind:
  assumes "keeps m" and "\<And>a. keeps (f a)"
  shows "keeps (abind m f)"
proof (rule keepsI)
  fix w r w' assume "abind m f w = (r, w')"
  then show "K w w'"
  proof (cases rule: abind_cases)
    case (4 a w1)
    with keepsD [OF assms(1) 4(1)] keepsD [OF assms(2) 4(2)] show ?thesis by (blast intro: further)
  qed (use keepsD [OF assms(1)] in auto)
qed

lemma keeps_basic:
  "keeps (ret a)" "keeps (lift_res r)" "keeps drop_client" "keeps (time0 env)" "keeps (receive env)"
  "keeps (send_message env m)"
  by (simp_all add: keeps_def ret_def lift_res_def drop_client_def time0_def same deleting clock
      receiving [OF prod.collapse [symmetric]] sending [OF prod.collapse [symmetric]])

lemma keeps_ack: "keeps (send_ack env err)"
  unfolding send_ack_def by (intro keeps_bind keeps_basic)

text \<open>The blocks that talk to the database, behind anything that was kept.\<close>

lemma sql_after:
  assumes "K w0 w"
  shows "sql_connect env w = (ok, w') \<Longrightarrow> K w0 w'"
    and "thread_statement (Querying sql ps) \<Longrightarrow> sql_query env sql ps w = (x, w') \<Longrightarrow> K w0 w'"
    and "thread_statement (Updating sql ps) \<Longrightarrow> sql_update env sql ps w = (ok, w') \<Longrightarrow> K w0 w'"
    and "thread_statement (Querying sql [p]) \<Longrightarrow> select_id env sql p w = (v, w') \<Longrightarrow> K w0 w'"
proof -
  show "sql_connect env w = (ok, w') \<Longrightarrow> K w0 w'"
    "thread_statement (Updating sql ps) \<Longrightarrow> sql_update env sql ps w = (ok, w') \<Longrightarrow> K w0 w'"
    using further [OF assms] connecting changing by blast+
  show q: "thread_statement (Querying sql ps) \<Longrightarrow> sql_query env sql ps w = (x, w') \<Longrightarrow> K w0 w'" for sql ps x
    using further [OF assms] asking by blast
  show "thread_statement (Querying sql [p]) \<Longrightarrow> select_id env sql p w = (v, w') \<Longrightarrow> K w0 w'"
    using q select_id_query by blast
qed

lemma blocks_kept:
  shows "lookup_password env u w = (x, w') \<Longrightarrow> K w w'"
    and "fetch_messages env t u w = (y, w') \<Longrightarrow> K w w'"
    and "K w (store_message env msg s r n w)"
proof -
  obtain ok w1 where c: "sql_connect env w = (ok, w1)" by (metis surj_pair)
  note k1 = sql_after(1) [OF same c]
  show "lookup_password env u w = (x, w') \<Longrightarrow> K w w'" "fetch_messages env t u w = (y, w') \<Longrightarrow> K w w'"
    using k1 sql_after(2) [OF k1 thread_queries(1)] sql_after(2) [OF k1 thread_queries(2)]
    by (auto simp: lookup_password_def fetch_messages_def c split: prod.splits bool.splits)
  obtain ok2 w2 where i: "sql_update env INSERT_MESSAGE [msg] w1 = (ok2, w2)" by (metis surj_pair)
  note k2 = sql_after(3) [OF k1 thread_updates(1) i]
  obtain s' w3 where s: "select_id env SELECT_USER_ID s w2 = (s', w3)" by (metis surj_pair)
  note k3 = sql_after(4) [OF k2 thread_queries(3) s]
  obtain r' w4 where r: "select_id env SELECT_USER_ID r w3 = (r', w4)" by (metis surj_pair)
  note k4 = sql_after(4) [OF k3 thread_queries(3) r]
  obtain m' w5 where m: "select_id env SELECT_MESSAGE_ID msg w4 = (m', w5)" by (metis surj_pair)
  note k5 = sql_after(4) [OF k4 thread_queries(4) m]
  show "K w (store_message env msg s r n w)"
    using k1 k2 k3 k4 k5 sql_after(3) [OF k5 thread_updates(2) prod.collapse [symmetric]]
    by (simp add: store_message_def c i s r m split: bool.split option.split)
qed

section \<open>The thread\<close>

lemma await_kept: "keeps (await_login env)"
  unfolding await_login_def
  by (auto intro!: keeps_bind keeps_basic simp: Let_def split: SPChatMessage.split prod.split)

lemma check_password_kept: "keeps (check_password env u)"
proof (rule keepsI)
  fix w r w' assume c: "check_password env u w = (r, w')"
  obtain pw ok w1 where l: "lookup_password env u w = ((pw, ok), w1)" by (metis surj_pair)
  have "keeps (abind (send_ack env DEFAULT_ERROR) (\<lambda>_. drop_client :: ('d, bytes) act))"
    by (intro keeps_bind keeps_ack keeps_basic)
  from keepsD [OF this, of w1] blocks_kept(1) [OF l] c l show "K w w'"
    by (auto simp: check_password_def split: if_splits intro: further)
qed

lemma check_response_kept: "keeps (check_response env u c)"
  unfolding check_response_def
  by (auto intro!: keeps_bind keeps_basic keeps_ack check_password_kept split: SPChatMessage.split)

lemma exchange_kept: "keeps (exchange_keys env)"
  unfolding exchange_keys_def
  by (auto intro!: keeps_bind keeps_basic keeps_ack split: SPChatMessage.split option.split)

lemma answers_kept: "keeps (answer_loop env key p f is)"
proof (induction "is")
  case (Cons i "is")
  have "keeps (abind (lift_res r) (\<lambda>m. abind (send_message env m) (\<lambda>_. answer_loop env key p f is)))" for r
    by (intro keeps_bind keeps_basic Cons)
  then show ?case by (simp add: keeps_def)
qed (simp add: keeps_basic)

lemma poll_kept: "keeps (handle_poll env u key p)"
proof -
  have "keeps (\<lambda>w. case fetch_messages env t (pl_getUsername p) w of (f, w) \<Rightarrow>
      answer_loop env key p f [0..<length (messageDb f)] w)" for t
  proof (rule keepsI)
    fix w r w'
    assume "(case fetch_messages env t (pl_getUsername p) w of (f, w) \<Rightarrow>
        answer_loop env key p f [0..<length (messageDb f)] w) = (r, w')"
    then obtain f w1 where "fetch_messages env t (pl_getUsername p) w = (f, w1)"
      "answer_loop env key p f [0..<length (messageDb f)] w1 = (r, w')" by (auto split: prod.splits)
    with blocks_kept(2) keepsD [OF answers_kept] show "K w w'" by (blast intro: further)
  qed
  then have "keeps (abind (lift_res (pl_getTime p)) (\<lambda>time w.
      case fetch_messages env time (pl_getUsername p) w of (f, w) \<Rightarrow>
        answer_loop env key p f [0..<length (messageDb f)] w))"
    by (intro keeps_bind keeps_basic)
  then show ?thesis unfolding handle_poll_def
    by (cases "pl_getUsername p \<noteq> u") (simp_all only: if_True if_False keeps_basic simp_thms)
qed

lemma post_kept: "keeps (handle_post env u key pr)"
proof -
  have "keeps (\<lambda>w. (Next (), store_message env t s r n w))" for t s r n
    by (simp add: keeps_def blocks_kept(3))
  then have "keeps (if getSender f \<noteq> u then drop_client
      else (\<lambda>w. (Next (), store_message env t (getSender f) (getReceiver f) (mm_getTime f) w)))" for t f
    by (cases "getSender f \<noteq> u") (simp_all only: if_True if_False keeps_basic simp_thms)
  then show ?thesis unfolding handle_post_def by (intro keeps_bind keeps_basic)
qed

lemma handle_kept: "keeps (handle_message env u key m)"
  by (simp add: handle_message_def poll_kept post_kept keeps_basic split: SPChatMessage.split)

lemma loop_kept: "keeps (chat_loop env u key t n)"
proof (induction n)
  case 0
  show ?case by (simp add: keeps_def same)
next
  case (Suc n)
  show ?case by (auto intro!: keeps_bind keeps_basic handle_kept Suc)
qed

lemma session_kept: "keeps (session env n)"
  unfolding session_def
  by (auto intro!: keeps_bind keeps_basic await_kept check_response_kept exchange_kept loop_kept split: prod.split)

lemma thread_kept: "clientConnectStart env n w = (r, w') \<Longrightarrow> K w w'"
  using keepsD [OF session_kept, of n w]
  by (auto simp: clientConnectStart_def split: prod.splits flow.splits stop.splits if_splits intro: further deleting)

end

section \<open>The bytes on the wire\<close>

text \<open>The bytes of one message that a call of \<open>send\<close> hands to the kernel.\<close>

definition sent_frame :: "'d env \<Rightarrow> SPChatMessage \<Rightarrow> bytes" where
  "sent_frame env m = take (nat (sint (ucast (getTotalMsgLength m) :: cint))) (encode (host_endian (env_host env)) [] m)"

fun event_bytes :: "'d env \<Rightarrow> event \<Rightarrow> bytes" where
  "event_bytes env (Sent m) = sent_frame env m"
| "event_bytes env _ = []"

definition sent_bytes :: "'d env \<Rightarrow> event list \<Rightarrow> bytes" where
  "sent_bytes env es = concat (map (event_bytes env) es)"

lemma sent_bytes_simps [simp]: "sent_bytes env [] = []" "sent_bytes env (e # es) = event_bytes env e @ sent_bytes env es"
  "sent_bytes env (es @ es') = sent_bytes env es @ sent_bytes env es'"
  by (simp_all add: sent_bytes_def)

lemma sent_frame_whole:
  assumes "msg_sendable m" and "length (encode (host_endian (env_host env)) [] m) < 2 ^ 31"
  shows "sent_frame env m = encode (host_endian (env_host env)) [] m"
  by (simp add: sent_frame_def send_length [OF assms])

text \<open>While the kernel takes everything, output and trace grow together.\<close>

definition wired :: "'d env \<Rightarrow> 'd world \<Rightarrow> 'd world \<Rightarrow> bool" where
  "wired env w w' \<longleftrightarrow> (send_plan (w_sock w) = [] \<longrightarrow> send_plan (w_sock w') = [] \<and>
     (\<exists>es. w_trace w' = w_trace w @ es \<and> out (w_sock w') = out (w_sock w) @ sent_bytes env es))"

lemma wiredI: "send_plan (w_sock w') = send_plan (w_sock w) \<Longrightarrow> w_trace w' = w_trace w @ es \<Longrightarrow>
  out (w_sock w') = out (w_sock w) @ sent_bytes env es \<Longrightarrow> wired env w w'"
  by (auto simp: wired_def)

lemma wired_receive:
  assumes "receive env w = (x, w')"
  shows "wired env w w'"
proof -
  obtain r s where d: "SPChatMessage_decode (env_host env) (w_decodes w) (w_sock w) = (r, s)" by (metis surj_pair)
  note s = decode_takes [OF d]
  have "send_plan s = send_plan (w_sock w)" "out s = out (w_sock w)"
    using arg_cong [OF s, of send_plan] arg_cong [OF s, of out] by simp_all
  with assms d show ?thesis
    by (cases r) (auto simp: receive_def log_event_def intro: wiredI [of _ _ "[]"] wiredI [of _ _ "[Recv m]" for m])
qed

lemma wired_send:
  assumes "send_message env m w = (x, w')"
  shows "wired env w w'"
  unfolding wired_def
proof (intro impI)
  assume "send_plan (w_sock w) = []"
  with assms show "send_plan (w_sock w') = [] \<and> (\<exists>es. w_trace w' = w_trace w @ es \<and>
      out (w_sock w') = out (w_sock w) @ sent_bytes env es)"
    by (auto simp: send_message_def CommunicatingSocket_send_def kernel_send_def log_event_def sent_frame_def
        split: if_splits prod.splits sum.splits intro: exI [of _ "[]"] exI [of _ "[Sent m]"])
qed

interpretation wire: kept_relation env "wired env" for env :: "'d env"
proof
  fix w w1 w2 :: "'d world" and x y c d sql ps rows
  show "wired env w w" by (rule wiredI [of _ _ "[]"]) simp_all
  show "wired env w w1 \<Longrightarrow> wired env w1 w2 \<Longrightarrow> wired env w w2"
    by (auto simp: wired_def)
  show "receive env w = (x, w1) \<Longrightarrow> wired env w w1" by (rule wired_receive)
  show "send_message env m w = (y, w1) \<Longrightarrow> wired env w w1" for m by (rule wired_send)
  show "wired env w (w\<lparr>w_clock := c\<rparr>)"
    using wiredI [of "w\<lparr>w_clock := c\<rparr>" w "[]" env] by simp
  show "wired env w (delete_sock w)"
    by (rule wiredI [of _ _ "[Closed]"]) (simp_all add: delete_sock_def log_event_def Socket_delete_def Socket_close_def)
  show "sql_connect env w = (ok, w1) \<Longrightarrow> wired env w w1" for ok
    by (auto simp: sql_connect_def split: prod.splits intro: wiredI [of _ _ "[]"])
  show "sql_query env sql ps w = (z, w1) \<Longrightarrow> wired env w w1" for z
    by (auto simp: sql_query_def log_event_def split: prod.splits intro!: wiredI [of _ _ "[Query sql ps rows]" for rows])
  show "sql_update env sql ps w = (ok, w1) \<Longrightarrow> wired env w w1" for ok
    by (cases ok) (auto simp: sql_update_def log_event_def split: prod.splits intro: wiredI [of _ _ "[]"] wiredI [of _ _ "[Update sql ps]"])
qed

lemma thread_output:
  assumes "clientConnectStart env n w = (r, w')" and "send_plan (w_sock w) = []" and "w_trace w = []"
  shows "out (w_sock w') = out (w_sock w) @ sent_bytes env (w_trace w')"
  using wire.thread_kept [OF assms(1)] assms(2,3) by (auto simp: wired_def)

section \<open>What a client gets before it is authenticated\<close>

fun sent_in :: "event \<Rightarrow> SPChatMessage list" where
  "sent_in (Sent m) = [m]"
| "sent_in _ = []"

definition sent_messages :: "event list \<Rightarrow> SPChatMessage list" where
  "sent_messages es = concat (map sent_in es)"

lemma sent_messages_simps [simp]: "sent_messages [] = []" "sent_messages (e # es) = sent_in e @ sent_messages es"
  "sent_messages (es @ es') = sent_messages es @ sent_messages es'"
  by (simp_all add: sent_messages_def)

lemma sent_bytes_frames: "sent_bytes env es = concat (map (sent_frame env) (sent_messages es))"
proof (induction es)
  case (Cons e es)
  then show ?case by (cases e) simp_all
qed simp

text \<open>The two messages a client can get without knowing a password.\<close>

definition early_messages :: "'d env \<Rightarrow> SPChatMessage list" where
  "early_messages env = [MChallenge \<lparr>ch_challenge = challenge_of env\<rparr>, server_ack DEFAULT_ERROR]"

fun sent_early :: "'d env \<Rightarrow> event list \<Rightarrow> phase \<Rightarrow> bool" where
  "sent_early env es Start \<longleftrightarrow> sent_messages es = []"
| "sent_early env es (GotLogin u) \<longleftrightarrow> sent_messages es = []"
| "sent_early env es (Challenged u c) \<longleftrightarrow> sent_messages es = take 1 (early_messages env)"
| "sent_early env es (Answered u c r) \<longleftrightarrow> sent_messages es = take 1 (early_messages env)"
| "sent_early env es (LookedUp u c r pw) \<longleftrightarrow> sent_messages es = take 1 (early_messages env)"
| "sent_early env es _ \<longleftrightarrow> (\<exists>u. authenticated env u es) \<or> (\<exists>k. sent_messages es = take k (early_messages env))"

lemma sent_early_prefix: "sent_early env es p \<Longrightarrow>
  (\<exists>u. authenticated env u es) \<or> (\<exists>k. sent_messages es = take k (early_messages env))"
  by (cases p) (auto intro: exI [of _ 0] exI [of _ 1])

lemma sent_early_over:
  assumes "sent_early env es p" and "sent_in e = []"
  shows "sent_early env (es @ [e]) Doomed" and "sent_early env (es @ [e]) Ended"
  using sent_early_prefix [OF assms(1)] assms(2) by (auto intro: authenticated_snoc)

lemma sent_early_step:
  assumes "step env p e q" and "sent_early env es p" and "history env (es @ [e]) q"
  shows "sent_early env (es @ [e]) q"
  using assms(1)
proof (cases rule: step.cases)
  case (refuse_unreachable u c r)
  then have "sent_messages (es @ [e]) = take 2 (early_messages env)" using assms(2) by (simp add: early_messages_def)
  then show ?thesis unfolding refuse_unreachable by auto
next
  case (refuse_unknown u c r)
  then have "sent_messages (es @ [e]) = take 2 (early_messages env)" using assms(2) by (simp add: early_messages_def)
  then show ?thesis unfolding refuse_unknown by auto
next
  case (stray u c k j m)
  then show ?thesis using sent_early_over(1) [OF assms(2)] by simp
next
  case close
  then show ?thesis using sent_early_over(2) [OF assms(2)] by simp
qed (use assms(2,3) in \<open>auto simp: early_messages_def challenge_of_def\<close>)

lemma run_sent_early: "run env es p \<Longrightarrow> sent_early env es p"
proof (induction rule: run.induct)
  case (run_step es p e q)
  then show ?case using sent_early_step run_history run.run_step by metis
qed simp

lemma early_frames: "map (sent_frame env) (early_messages env) =
  map (encode (host_endian (env_host env)) []) (early_messages env)"
proof -
  have "sent_frame env (MChallenge \<lparr>ch_challenge = challenge_of env\<rparr>)
      = encode (host_endian (env_host env)) [] (MChallenge \<lparr>ch_challenge = challenge_of env\<rparr>)"
    by (rule sent_frame_whole) (simp_all add: ch_valid_def CHALLENGE_LENGTH_def challenge_of_def encode_frame ch_encodeMiddle_def)
  moreover have "sent_frame env (server_ack err) = encode (host_endian (env_host env)) [] (server_ack err)" for err
    by (rule sent_frame_whole [OF ack_sendable length_ack])
  ultimately show ?thesis by (simp add: early_messages_def)
qed

lemma thread_wire:
  assumes "env_good env" and "fresh_session d w" and "clientConnectStart env n w = (r, w')"
    and "send_plan (w_sock w) = []" and "out (w_sock w) = []"
  shows "out (w_sock w') = concat (map (sent_frame env) (sent_messages (w_trace w')))"
    and "(\<exists>u. authenticated env u (w_trace w')) \<or>
      (\<exists>k. out (w_sock w') = concat (take k (map (encode (host_endian (env_host env)) []) (early_messages env))))"
proof -
  have "w_trace w = []" using assms(2) by (simp add: fresh_session_def)
  from thread_output [OF assms(3,4) this] assms(5)
  show o: "out (w_sock w') = concat (map (sent_frame env) (sent_messages (w_trace w')))" by (simp add: sent_bytes_frames)
  obtain p where "run env (w_trace w') p"
    using client_refines [OF assms(1-3)] by (auto simp: in_phase_def in_open_phase_def split: if_splits)
  from sent_early_prefix [OF run_sent_early [OF this]]
  show "(\<exists>u. authenticated env u (w_trace w')) \<or>
      (\<exists>k. out (w_sock w') = concat (take k (map (encode (host_endian (env_host env)) []) (early_messages env))))"
    unfolding o by (auto simp: take_map early_frames [symmetric])
qed

end
