(* ===== verification/ClientTurns.thy ===== *)
theory ClientTurns
  imports ServerFrames Output
begin

text \<open>
  Turns of the client's reader thread on the frames of the server: what each handler makes of
  the message, and what it writes in answer.
\<close>

section \<open>The digest in hexadecimal\<close>

text \<open>\<open>k\<close> digits of a number.\<close>

primrec digits :: "nat \<Rightarrow> nat \<Rightarrow> jstring" where
  "digits 0 n = []"
| "digits (Suc k) n = digits k (n div 16) @ [hex_char (n mod 16)]"

lemma length_digits [simp]: "length (digits k n) = k"
  by (induction k arbitrary: n) simp_all

lemma digits_zero: "digits k 0 = replicate k 48"
  by (induction k) (simp_all add: hex_char_def replicate_append_same)

lemma hex_nat_digits: "n < 16 ^ Suc k \<Longrightarrow> length (hex_nat n) \<le> Suc k \<and> replicate (Suc k - length (hex_nat n)) 48 @ hex_nat n = digits (Suc k) n"
proof (induction k arbitrary: n)
  case 0
  then show ?case by (simp add: hex_nat.simps [of n])
next
  case (Suc k)
  show ?case
  proof (cases "n < 16")
    case True
    then show ?thesis by (simp add: hex_nat.simps [of n] digits_zero hex_char_def replicate_append_same)
  next
    case False
    have "n div 16 < 16 ^ Suc k" using Suc.prems by (simp add: less_mult_imp_div_less mult.commute)
    from Suc.IH [OF this] have IH: "length (hex_nat (n div 16)) \<le> Suc k"
      "replicate (Suc k - length (hex_nat (n div 16))) 48 @ hex_nat (n div 16) = digits (Suc k) (n div 16)" by blast+
    have h: "hex_nat n = hex_nat (n div 16) @ [hex_char (n mod 16)]" using False by (simp add: hex_nat.simps [of n])
    show ?thesis
      unfolding h digits.simps(2) [of "Suc k"] IH(2) [symmetric] using IH(1) by simp
  qed
qed

lemma byte_less: "unat b < 256" for b :: byte
proof -
  have "(unsigned b :: nat) < 2 ^ LENGTH(8)" by (rule unsigned_less)
  then show ?thesis by simp
qed

lemma BigInteger1_snoc: "BigInteger1 (bs @ [b]) = 256 * BigInteger1 bs + unat b"
  by (simp add: BigInteger1_def)

lemma BigInteger1_bound: "BigInteger1 bs < 256 ^ length bs"
proof (induction bs rule: rev_induct)
  case Nil
  then show ?case by (simp add: BigInteger1_def)
next
  case (snoc b bs)
  then have "256 * BigInteger1 bs + 256 \<le> 256 * 256 ^ length bs" by simp
  then show ?case using byte_less [of b] by (simp add: BigInteger1_snoc)
qed

lemma byte_digits:
  fixes b :: byte
  shows "is_ascii [hex_char (unat b div 16), hex_char (unat b mod 16)]"
    and "getBytes [hex_char (unat b div 16), hex_char (unat b mod 16)] = hex2 b"
proof -
  have c: "hex_char n < 128 \<and> ucast (hex_char n) = hex_digit (word_of_nat n)" if "n < 16" for n
    using that by (auto simp: hex_char_def hex_digit_def word_less_nat_alt unsigned_of_nat take_bit_nat_eq_self
        word_unat_eq_iff unsigned_ucast_eq unsigned_take_bit_eq unat_word_ariths)
  have d: "unat b div 16 < 16" "unat b mod 16 < 16" using byte_less [of b] by (simp_all add: less_mult_imp_div_less)
  show a: "is_ascii [hex_char (unat b div 16), hex_char (unat b mod 16)]" using c d by simp
  have "unat (drop_bit 4 b) = unat b div 16" unfolding unat_drop_bit_eq by (simp only: drop_bit_eq_div) simp
  moreover have "b AND 15 = take_bit 4 b" by (simp add: take_bit_eq_mask mask_eq_exp_minus_1)
  then have "unat (b AND 15) = take_bit 4 (unat b)" by (simp only: unsigned_take_bit_eq)
  then have "unat (b AND 15) = unat b mod 16" by (simp add: take_bit_eq_mod)
  ultimately have "drop_bit 4 b = word_of_nat (unat b div 16)" "b AND 15 = word_of_nat (unat b mod 16)"
    using byte_less [of b] by (simp_all only: word_unat_eq_iff) (simp_all add: unsigned_of_nat take_bit_nat_eq_self)
  then show "getBytes [hex_char (unat b div 16), hex_char (unat b mod 16)] = hex2 b"
    unfolding getBytes_ascii [OF a] hex2_def using c d by simp
qed

lemma split_byte:
  fixes m n :: nat
  assumes "m < 256"
  shows "(256 * n + m) div 16 div 16 = n" "(256 * n + m) div 16 mod 16 = m div 16" "(256 * n + m) mod 16 = m mod 16"
proof -
  have e: "256 * n + m = m + 16 * (16 * n)" by simp
  have d: "(256 * n + m) div 16 = m div 16 + 16 * n" unfolding e by (subst div_mult_self2) simp_all
  have "m div 16 < 16" using assms by (simp add: less_mult_imp_div_less)
  then show "(256 * n + m) div 16 div 16 = n" "(256 * n + m) div 16 mod 16 = m div 16" unfolding d by simp_all
  show "(256 * n + m) mod 16 = m mod 16" unfolding e by (rule mod_mult_self2)
qed

lemma digits_hex: "is_ascii (digits (2 * length bs) (BigInteger1 bs)) \<and> getBytes (digits (2 * length bs) (BigInteger1 bs)) = hex bs"
proof (induction bs rule: rev_induct)
  case Nil
  then show ?case by (simp add: hex_def)
next
  case (snoc b bs)
  have "digits (2 * length (bs @ [b])) (BigInteger1 (bs @ [b]))
      = digits (2 * length bs) (BigInteger1 bs) @ [hex_char (unat b div 16), hex_char (unat b mod 16)]"
    using byte_less [of b] by (simp add: BigInteger1_snoc split_byte)
  with snoc byte_digits [of b] show ?case by (simp add: hex_snoc del: is_ascii_simps(2))
qed

lemma format_digest:
  assumes "length d = 32"
  shows "is_ascii (format_064x (BigInteger1 d))" "length (format_064x (BigInteger1 d)) = 64"
    "getBytes (format_064x (BigInteger1 d)) = hex d"
proof -
  have "BigInteger1 d < 16 ^ Suc 63" using BigInteger1_bound [of d] assms by simp
  then have "format_064x (BigInteger1 d) = digits (2 * length d) (BigInteger1 d)"
    using hex_nat_digits [of _ 63] assms by (simp add: format_064x_def)
  then show "is_ascii (format_064x (BigInteger1 d))" "length (format_064x (BigInteger1 d)) = 64"
    "getBytes (format_064x (BigInteger1 d)) = hex d"
    using digits_hex [of d] assms by simp_all
qed

section \<open>One turn\<close>

definition turn_result :: "unit jres \<times> ('k, 'c) client \<Rightarrow> reader \<times> ('k, 'c) client" where
  "turn_result = (\<lambda>(r, cl). (case r of Inr _ \<Rightarrow> Ready | Inl JBlocks \<Rightarrow> Waiting
     | Inl (JThrow BabbleException) \<Rightarrow> Stuck | Inl (JThrow _) \<Rightarrow> Dead, cl))"

lemma reader_turn_result:
  "reader_turn lib cl = turn_result (jbind (on_socket BabbleOnMessage_read) (\<lambda>(ty, messageLen). handle_type lib ty) cl)"
  by (auto simp: reader_turn_def turn_result_def split: prod.split sum.split jstop.split jexn.split)

lemma turn_ready [simp]: "turn_result (Inr (), cl) = (Ready, cl)"
  by (simp add: turn_result_def)

text \<open>The client with another input queue, and with more output.\<close>

definition unread_in :: "bytes list \<Rightarrow> ('k, 'c) client \<Rightarrow> ('k, 'c) client" where
  "unread_in q cl = cl\<lparr>bc_sock := (bc_sock cl)\<lparr>inq := q\<rparr>\<rparr>"

definition written :: "bytes \<Rightarrow> ('k, 'c) client \<Rightarrow> ('k, 'c) client" where
  "written bs cl = cl\<lparr>bc_sock := (bc_sock cl)\<lparr>out := out (bc_sock cl) @ bs\<rparr>\<rparr>"

lemma on_socket_takes:
  assumes "takes at m bs a" and "at (bs @ rest) (bc_sock cl)"
  shows "\<exists>q. on_socket m cl = (Inr a, unread_in q cl) \<and> at rest (bc_sock (unread_in q cl))"
  using assms unfolding takes_def on_socket_def unread_in_def by fastforce

lemma send_writes_ok:
  "send_plan (bc_sock cl) = [] \<Longrightarrow> None \<notin> set ws \<Longrightarrow> send_writes ws cl = (Inr (), written (writes ws) cl)"
  by (simp add: send_writes_def on_socket_def rethrow_io_def write_each_ok written_def writes_def)

text \<open>A turn that finds a frame is the handler, behind the frame's header.\<close>

lemma turn_frame:
  assumes "frame_source at" and "at (frame_header LittleEndian ty n @ rest) (bc_sock cl)" and "0 \<le> sint n"
  shows "\<exists>q. reader_turn lib cl = turn_result (handle_type lib ty (unread_in q cl)) \<and> at rest (bc_sock (unread_in q cl))"
proof -
  from on_socket_takes [OF frame_source.take_header [OF assms(1,3)] assms(2)]
  obtain q where "on_socket BabbleOnMessage_read cl = (Inr (ty, n), unread_in q cl)" "at rest (bc_sock (unread_in q cl))" by blast
  then show ?thesis unfolding reader_turn_result by (auto simp: jbind_def)
qed

section \<open>The handshake\<close>

lemma challenge_frame: "length c = 8 \<Longrightarrow> encode LittleEndian [] (MChallenge \<lparr>ch_challenge = c\<rparr>) = frame_header LittleEndian 1 8 @ c"
  by (simp add: encode_frame ch_encodeMiddle_def ch_getPayloadLength_def CHALLENGE_LENGTH_def type_consts)

lemma turn_challenge:
  fixes cl :: "('k, 'c) client" and lib :: "('k, 'c) jlib"
  assumes "comes (encode LittleEndian [] (MChallenge \<lparr>ch_challenge = c\<rparr>) @ rest) (bc_sock cl)" and c: "length c = 8"
    and u: "bc_username cl = Some u" "good_name u" and i: "bc_input cl = Some input" "input \<noteq> []"
    and s: "send_plan (bc_sock cl) = []" and dg: "\<And>bs. length (jv_digest lib bs) = 32"
  defines "nonce \<equiv> jv_nonce lib (bc_nonces cl)"
  defines "h \<equiv> format_064x (BigInteger1 (jv_digest lib (c @ to_bytes 8 nonce @ input)))"
  shows "\<exists>q. comes rest (bc_sock (unread_in q cl)) \<and> reader_turn lib cl = (Ready,
    written (encode LittleEndian [] (MResponse (response_of u h nonce)))
      (unread_in q (cl\<lparr>bc_nonces := Suc (bc_nonces cl), bc_input := Some (map (\<lambda>_. 48) input)\<rparr>)))"
proof -
  have "comes (frame_header LittleEndian 1 8 @ (c @ rest)) (bc_sock cl)" using assms(1) c by (simp add: challenge_frame)
  from turn_frame [OF stream.frame_source_axioms this, of lib] obtain q where
    q: "reader_turn lib cl = turn_result (handle_type lib 1 (unread_in q cl))" "comes (c @ rest) (bc_sock (unread_in q cl))" by auto
  from on_socket_takes [OF stream.take_challenge [OF c] q(2)] obtain q' where
    q': "on_socket ChallengeMessage_read (unread_in q cl) = (Inr c, unread_in q' cl)" "comes rest (bc_sock (unread_in q' cl))"
    by (auto simp: unread_in_def)
  from response_frame(1) [OF u(2) format_digest(1,2) [OF dg [of "c @ to_bytes 8 nonce @ input"]], folded h_def, of nonce] obtain m where
    m: "ResponseMessage_new (len u) u (len h) h nonce = Inr m" "None \<notin> set (jr_encode m)"
      "writes (jr_encode m) = encode LittleEndian [] (MResponse (response_of u h nonce))" by blast
  have "handle_type lib 1 (unread_in q cl) = (Inr (), written (writes (jr_encode m))
      (unread_in q' (cl\<lparr>bc_nonces := Suc (bc_nonces cl), bc_input := Some (map (\<lambda>_. 48) input)\<rparr>)))"
    using u(1) i s m q'(1) send_writes_ok [of "(unread_in q' cl)\<lparr>bc_nonces := Suc (bc_nonces cl)\<rparr>" "jr_encode m"]
    by (simp add: handle_type_def getMessageType_def handleChallenge_def jbind_def [of "on_socket ChallengeMessage_read"]
        unread_in_def my_name_def jbind_def jlift_def Let_def flip: nonce_def h_def)
      (simp add: written_def)
  with q(1) q'(2) m(3) show ?thesis by (auto simp: unread_in_def)
qed

text \<open>The byte of an acknowledgement of the server.\<close>

lemma ack_frame: "encode LittleEndian [] (server_ack err) = frame_header LittleEndian 3 1 @ [word_of_int (2 * errorType_int err)]"
  by (simp add: encode_frame server_ack_def ack_encodeMiddle_def ack_getPayloadLength_def BYTE_SIZE_def type_consts push_bit_eq_mult mult.commute)

lemma ack_understood:
  "getValue (findError (word_of_int (2 * errorType_int err))) =
     (case err of SUCCESS \<Rightarrow> SUCCESS_J | INVALID_MSG_TYPE \<Rightarrow> INVALID_MSG_TYPE_J
      | INVALID_USERNAME_PASSWORD \<Rightarrow> INVALID_USERNAME_PASSWORD_J | FORMATTING_ERROR \<Rightarrow> FORMATTING_ERROR_J
      | DEFAULT_ERROR \<Rightarrow> DEFAULT_ERROR_J | PASSWORD_AUTH \<Rightarrow> PASSWORD_AUTH_J)"
  "sint (word_of_int (2 * errorType_int err) :: byte) mod 2 = 0" "0 \<le> sint (word_of_int (2 * errorType_int err) :: byte)"
  by (cases err; simp add: findError_def getValue_def)+

lemma turn_ack:
  fixes cl :: "('k, 'c) client"
  assumes "comes (encode LittleEndian [] (server_ack err) @ rest) (bc_sock cl)"
  shows "\<exists>q. comes rest (bc_sock (unread_in q cl)) \<and> reader_turn lib cl = turn_result (
      (if \<not> bc_authenticated cl \<and> PASSWORD_AUTH_J = getValue (findError (word_of_int (2 * errorType_int err)))
       then catch_babble (jbind my_name (\<lambda>username.
               jbind (jlift (LoginMessage_new (jv_base64 lib) (len username) username ASYMMETRIC
                       (Some (bc_localPublicKey cl)))) (\<lambda>m. send_writes (jl_encode m))))
              (setPanes lib ((unread_in q cl)\<lparr>bc_authenticated := True\<rparr>))
       else if SUCCESS_J \<noteq> getValue (findError (word_of_int (2 * errorType_int err))) then (Inr (), unread_in q cl)
       else if bc_hasExchangedKeys cl then start_poller lib (unread_in q cl)
       else (Inr (), unread_in q cl)))"
proof -
  let ?b = "word_of_int (2 * errorType_int err) :: byte"
  let ?a = "ACKMessage_of ?b"
  have "comes (frame_header LittleEndian 3 1 @ ([?b] @ rest)) (bc_sock cl)" using assms by (simp add: ack_frame)
  from turn_frame [OF stream.frame_source_axioms this, of lib] obtain q where
    q: "reader_turn lib cl = turn_result (handle_type lib 3 (unread_in q cl))" "comes ([?b] @ rest) (bc_sock (unread_in q cl))" by auto
  from on_socket_takes [OF stream.take_ack q(2)] obtain q' where
    q': "on_socket ACKMessage_read (unread_in q cl) = (Inr ?a, unread_in q' cl)" "comes rest (bc_sock (unread_in q' cl))"
    by (auto simp: unread_in_def)
  have snd: "ack_getSender_J ?a = SERVER_J" using ack_understood(2,3) [of err] by (simp add: ack_getSender_J_def mod_binary_def ACKMessage_of_def Let_def SERVER_J_def)
  have "reader_turn lib cl = turn_result (handleACK lib (unread_in q cl))"
    unfolding q(1) by (simp add: handle_type_def getMessageType_def)
  then show ?thesis
    using q' snd by (intro exI [of _ q'] conjI)
      (auto simp: handleACK_def jbind_def [of "on_socket ACKMessage_read"] SERVER_J_def CLIENT_J_def unread_in_def ACKMessage_of_def)
qed

text \<open>After the password: the client sends its public key.\<close>

lemma turn_password_ok:
  fixes cl :: "('k, 'c) client" and lib :: "('k, 'c) jlib"
  assumes "comes (encode LittleEndian [] (server_ack PASSWORD_AUTH) @ rest) (bc_sock cl)" and a: "\<not> bc_authenticated cl"
    and u: "bc_username cl = Some u" "good_name u" and s: "send_plan (bc_sock cl) = []"
    and k: "length (jv_base64 lib (bc_localPublicKey cl)) = 216" "list_all (\<lambda>c. c < 128) (jv_base64 lib (bc_localPublicKey cl))"
  shows "\<exists>q. comes rest (bc_sock (unread_in q cl)) \<and> reader_turn lib cl = (Ready,
    written (encode LittleEndian [] (MLogin (login_of u ASYMMETRIC_KEY (getBytes (calculateKey (jv_base64 lib (bc_localPublicKey cl)))))))
      (unread_in q (setPanes lib (cl\<lparr>bc_authenticated := True\<rparr>))))"
proof -
  let ?k = "bc_localPublicKey cl"
  obtain m where m: "LoginMessage_new (jv_base64 lib) (len u) u ASYMMETRIC (Some ?k) = Inr m"
    using login_new [OF u(2), of ASYMMETRIC "Some ?k"] by simp
  note f = login_frame_key [OF u(2) m k]
  from turn_ack [OF assms(1), of lib] obtain q where q: "comes rest (bc_sock (unread_in q cl))"
    "reader_turn lib cl = turn_result (catch_babble (jbind my_name (\<lambda>username.
               jbind (jlift (LoginMessage_new (jv_base64 lib) (len username) username ASYMMETRIC (Some ?k)))
               (\<lambda>m. send_writes (jl_encode m)))) (setPanes lib ((unread_in q cl)\<lparr>bc_authenticated := True\<rparr>)))"
    using a by (auto simp: ack_understood(1) [of PASSWORD_AUTH, simplified])
  let ?cl = "setPanes lib ((unread_in q cl)\<lparr>bc_authenticated := True\<rparr>)"
  have cl: "?cl = unread_in q (setPanes lib (cl\<lparr>bc_authenticated := True\<rparr>))"
    by (simp add: setPanes_def unread_in_def fresh_cipher_def split: option.split)
  have "bc_username ?cl = Some u" "send_plan (bc_sock ?cl) = []" using u(1) s by (simp_all add: setPanes_def unread_in_def)
  then have "catch_babble (jbind my_name (\<lambda>username.
      jbind (jlift (LoginMessage_new (jv_base64 lib) (len username) username ASYMMETRIC (Some ?k)))
        (\<lambda>m. send_writes (jl_encode m)))) ?cl = (Inr (), written (writes (jl_encode m)) ?cl)"
    using m send_writes_ok [OF _ f(2), of ?cl] by (simp add: catch_babble_def jbind_def my_name_def jlift_def)
  with q f(1) show ?thesis by (auto simp: cl)
qed

text \<open>The server's public key: the client answers with its symmetric key, encrypted.\<close>

lemma turn_server_key:
  fixes cl :: "('k, 'c) client" and lib :: "('k, 'c) jlib"
  assumes "comes (encode LittleEndian [] (MLogin kl) @ rest) (bc_sock cl)"
    and kl: "lg_keyType kl = ASYMMETRIC_KEY" "lg_username kl = []" "length (lg_key kl) = 271"
    and p: "jv_parse lib (justKey (string_of (lg_key kl))) = Some pub" "jv_wrap lib pub (bc_symmetricKey cl) = Some wk" "length wk = 128"
    and u: "bc_username cl = Some u" "good_name u" and s: "send_plan (bc_sock cl) = []"
  shows "\<exists>q. comes rest (bc_sock (unread_in q cl)) \<and> reader_turn lib cl = (Ready,
    (written (symmetric_frame (getBytes u) wk) (unread_in q (cl\<lparr>bc_serverPubKey := Some pub\<rparr>)))\<lparr>bc_hasExchangedKeys := True\<rparr>)"
proof -
  let ?p = "encodeString LittleEndian [] [] @ [ASYMMETRIC_KEY] @ lg_key kl"
  have e: "encode LittleEndian [] (MLogin kl) = frame_header LittleEndian 0 276 @ ?p"
    using kl by (simp add: encode_frame lg_middle lg_getPayloadLength_def size_defs type_consts key_consts)
  have "comes (frame_header LittleEndian 0 276 @ (?p @ rest)) (bc_sock cl)" using assms(1) by (simp add: e)
  from turn_frame [OF stream.frame_source_axioms this, of lib] obtain q where
    q: "reader_turn lib cl = turn_result (handle_type lib 0 (unread_in q cl))" "comes (?p @ rest) (bc_sock (unread_in q cl))" by auto
  from on_socket_takes [OF stream.take_key_login [where key = "lg_key kl" and parse = "jv_parse lib", OF kl(3) p(1)] q(2)] obtain q' where
    q': "on_socket (LoginMessage_read (jv_parse lib)) (unread_in q cl) = (Inr \<lparr>jl_messageLen = 0, jl_usernameLength = 0,
        jl_username = [], jl_keyType = ASYMMETRIC_KEY, jl_publicKeyStr = Some (string_of (lg_key kl)), jl_encodedKey = None\<rparr>,
        unread_in q' cl)" "comes rest (bc_sock (unread_in q' cl))"
    by (auto simp: unread_in_def)
  obtain l where l: "LoginMessage_new (jv_base64 lib) (len u) u SYMMETRIC None = Inr l"
    using login_new [OF u(2), of SYMMETRIC None "jv_base64 lib"] by simp
  note f = login_frame_symmetric [OF u(2) l p(3)]
  let ?cl = "(unread_in q' cl)\<lparr>bc_serverPubKey := Some pub\<rparr>"
  have cl: "?cl = unread_in q' (cl\<lparr>bc_serverPubKey := Some pub\<rparr>)" by (simp add: unread_in_def)
  have "bc_username ?cl = Some u" "send_plan (bc_sock ?cl) = []" "bc_serverPubKey ?cl = Some pub" "bc_symmetricKey ?cl = bc_symmetricKey cl"
    using u(1) s by (simp_all add: unread_in_def)
  then have "sendSymmetricKey lib ?cl
      = (Inr (), (written (writes (jl_encode (setEncodedKey wk l))) ?cl)\<lparr>bc_hasExchangedKeys := True\<rparr>)"
    using l p(2) send_writes_ok [OF _ f(2), of ?cl]
    by (simp add: sendSymmetricKey_def catch_babble_def jbind_def my_name_def jlift_def)
  moreover have "handle_type lib 0 (unread_in q cl) = sendSymmetricKey lib ?cl"
    using q'(1) p(1) by (simp add: handle_type_def getMessageType_def handleLogin_def jbind_def readServerPublic_def jlift_def
        decodeKey_J_def ASYMMETRIC_KEY_def)
  ultimately have "reader_turn lib cl = (Ready,
      (written (symmetric_frame (getBytes u) wk) (unread_in q' (cl\<lparr>bc_serverPubKey := Some pub\<rparr>)))\<lparr>bc_hasExchangedKeys := True\<rparr>)"
    using q(1) f(1) by (simp flip: cl)
  with q'(2) show ?thesis by (auto simp: unread_in_def)
qed

lemma turn_success:
  assumes "comes (encode LittleEndian [] (server_ack SUCCESS) @ rest) (bc_sock cl)" and "bc_hasExchangedKeys cl"
  shows "\<exists>q. comes rest (bc_sock (unread_in q cl)) \<and> reader_turn lib cl = (Ready,
    (unread_in q cl)\<lparr>bc_clock := Suc (bc_clock cl), bc_pollers := bc_pollers cl @ [jv_now lib (bc_clock cl)]\<rparr>)"
  using turn_ack [OF assms(1), of lib] assms(2) ack_understood(1) [of SUCCESS]
  by (auto simp: start_poller_def tick_def jbind_def unread_in_def)

lemma submit_login_ok:
  fixes cl :: "('k, 'c) client"
  assumes u: "good_name u" and pw: "pw \<noteq> []" and s: "send_plan (bc_sock cl) = []"
  shows "submit_login lib u pw cl = (Inr (), written (encode LittleEndian [] (MLogin (login_of u NO_KEY [])))
    (cl\<lparr>bc_input := Some (map ucast pw), bc_username := Some u\<rparr>))"
proof -
  obtain m where m: "LoginMessage_new (jv_base64 lib) (len u) u NONE None = Inr m"
    using login_new [OF u, of NONE None "jv_base64 lib"] by simp
  note f = login_frame_none [OF u m]
  let ?cl = "cl\<lparr>bc_input := Some (map ucast pw), bc_username := Some u\<rparr>"
  have "checkPassword u pw cl = ?cl" using u pw by (simp add: checkPassword_def setInput_def good_name_def)
  moreover have "send_plan (bc_sock ?cl) = []" using s by simp
  ultimately show ?thesis
    using u m f(1) send_writes_ok [OF _ f(2), of ?cl]
    by (simp add: submit_login_def isValidUsername_def good_name_def catch_babble_def jbind_def jlift_def)
qed

section \<open>All turns of the handshake\<close>

text \<open>
  A client before its login, with its keys and a library that works: a key of the usual size,
  a digest of 32 bytes. \<open>handshake_input\<close>: what the server sends.
\<close>

definition fresh_client :: "('k, 'c) jlib \<Rightarrow> ('k, 'c) client \<Rightarrow> bool" where
  "fresh_client lib cl \<longleftrightarrow>
     \<not> bc_authenticated cl \<and> \<not> bc_hasExchangedKeys cl \<and> bc_cipherOut cl = None \<and> bc_outMsgs cl = [] \<and>
     send_plan (bc_sock cl) = [] \<and> length (bc_symmetricKey cl) = 16 \<and>
     length (jv_base64 lib (bc_localPublicKey cl)) = 216 \<and> list_all (\<lambda>c. c < 128) (jv_base64 lib (bc_localPublicKey cl)) \<and>
     (\<forall>bs. length (jv_digest lib bs) = 32)"

definition handshake_input :: "bytes \<Rightarrow> SPChatLogin \<Rightarrow> bytes" where
  "handshake_input c kl =
     encode LittleEndian [] (MChallenge \<lparr>ch_challenge = c\<rparr>) @ encode LittleEndian [] (server_ack PASSWORD_AUTH) @
     encode LittleEndian [] (MLogin kl) @ encode LittleEndian [] (server_ack SUCCESS)"

definition hash_of :: "('k, 'c) jlib \<Rightarrow> bytes \<Rightarrow> clong \<Rightarrow> jstring \<Rightarrow> jstring" where
  "hash_of lib c nonce pw = format_064x (BigInteger1 (jv_digest lib (c @ to_bytes 8 nonce @ map ucast pw)))"

definition handshake_output :: "('k, 'c) jlib \<Rightarrow> ('k, 'c) client \<Rightarrow> jstring \<Rightarrow> jstring \<Rightarrow> bytes \<Rightarrow> bytes \<Rightarrow> bytes" where
  "handshake_output lib cl u pw c wk =
     encode LittleEndian [] (MLogin (login_of u NO_KEY [])) @
     encode LittleEndian [] (MResponse (response_of u (hash_of lib c (jv_nonce lib (bc_nonces cl)) pw) (jv_nonce lib (bc_nonces cl)))) @
     encode LittleEndian [] (MLogin (login_of u ASYMMETRIC_KEY (getBytes (calculateKey (jv_base64 lib (bc_localPublicKey cl)))))) @
     symmetric_frame (getBytes u) wk"

text \<open>The client behind the handshake: authenticated, with both ciphers and one poll thread.\<close>

definition ready_client :: "('k, 'c) jlib \<Rightarrow> ('k, 'c) client \<Rightarrow> jstring \<Rightarrow> ('k, 'c) client \<Rightarrow> bool" where
  "ready_client lib cl u cl' \<longleftrightarrow>
     bc_authenticated cl' \<and> bc_hasExchangedKeys cl' \<and> bc_username cl' = Some u \<and> bc_symmetricKey cl' = bc_symmetricKey cl \<and>
     bc_cipherOut cl' = Some (fresh_cipher lib True cl') \<and> bc_cipherIn cl' = Some (fresh_cipher lib False cl') \<and>
     bc_outMsgs cl' = [] \<and> bc_pollers cl' = bc_pollers cl @ [jv_now lib (bc_clock cl)] \<and> bc_clock cl' = Suc (bc_clock cl) \<and>
     bc_recipients cl' = bc_recipients cl \<and> bc_incoming cl' = bc_incoming cl \<and>
     send_plan (bc_sock cl') = [] \<and> pending (bc_sock cl') = []"

lemma client_handshake:
  fixes cl :: "('k, 'c) client" and lib :: "('k, 'c) jlib"
  assumes f: "fresh_client lib cl" and u: "good_name u" and pw: "pw \<noteq> []"
    and inp: "pending (bc_sock cl) = handshake_input c kl" and c: "length c = 8"
    and kl: "lg_keyType kl = ASYMMETRIC_KEY" "lg_username kl = []" "length (lg_key kl) = 271"
    and p: "jv_parse lib (justKey (string_of (lg_key kl))) = Some pub" "jv_wrap lib pub (bc_symmetricKey cl) = Some wk" "length wk = 128"
  shows "\<exists>cl1 cl'. submit_login lib u pw cl = (Inr (), cl1) \<and> reader_run lib 4 False cl1 = (Ready, cl') \<and> ready_client lib cl u cl' \<and>
    out (bc_sock cl') = out (bc_sock cl) @ handshake_output lib cl u pw c wk \<and> bc_input cl' = Some (map (\<lambda>_. 48) pw)"
proof -
  note f = f [unfolded fresh_client_def]
  let ?F1 = "encode LittleEndian [] (MLogin (login_of u NO_KEY []))"
  let ?S2 = "encode LittleEndian [] (server_ack PASSWORD_AUTH)" and ?S3 = "encode LittleEndian [] (MLogin kl)"
  let ?S4 = "encode LittleEndian [] (server_ack SUCCESS)"
  let ?n = "jv_nonce lib (bc_nonces cl)"
  let ?F2 = "encode LittleEndian [] (MResponse (response_of u (hash_of lib c ?n pw) ?n))"
  let ?F3 = "encode LittleEndian [] (MLogin (login_of u ASYMMETRIC_KEY (getBytes (calculateKey (jv_base64 lib (bc_localPublicKey cl))))))"
  define c1 where "c1 = written ?F1 (cl\<lparr>bc_input := Some (map ucast pw), bc_username := Some u\<rparr>)"
  have l: "submit_login lib u pw cl = (Inr (), c1)" unfolding c1_def by (rule submit_login_ok) (use f u pw in simp_all)
  have c1: "comes (encode LittleEndian [] (MChallenge \<lparr>ch_challenge = c\<rparr>) @ ?S2 @ ?S3 @ ?S4) (bc_sock c1)"
    "bc_username c1 = Some u" "bc_input c1 = Some (map ucast pw)" "map ucast pw \<noteq> []" "send_plan (bc_sock c1) = []"
    using inp f pw by (simp_all add: c1_def written_def comes_def handshake_input_def pending_def)
  have dg: "\<And>bs. length (jv_digest lib bs) = 32" using f by simp
  from turn_challenge [OF c1(1) c c1(2) u c1(3,4,5) dg] obtain q where q: "comes (?S2 @ ?S3 @ ?S4) (bc_sock (unread_in q c1))"
    "reader_turn lib c1 = (Ready, written ?F2 (unread_in q (c1\<lparr>bc_nonces := Suc (bc_nonces c1), bc_input := Some (map (\<lambda>_. 48) (map ucast pw :: bytes))\<rparr>)))"
    by (auto simp: c1_def written_def hash_of_def)
  define c2 where "c2 = written ?F2 (unread_in q (c1\<lparr>bc_nonces := Suc (bc_nonces c1), bc_input := Some (map (\<lambda>_. 48) (map ucast pw :: bytes))\<rparr>))"
  have c2: "comes (?S2 @ ?S3 @ ?S4) (bc_sock c2)" "\<not> bc_authenticated c2" "bc_username c2 = Some u" "send_plan (bc_sock c2) = []"
    "bc_localPublicKey c2 = bc_localPublicKey cl"
    using q(1) f c1(2,5) by (simp_all add: c2_def c1_def written_def unread_in_def comes_def pending_def)
  from turn_password_ok [OF c2(1-3) u c2(4), of lib] obtain q where q3: "comes (?S3 @ ?S4) (bc_sock (unread_in q c2))"
    "reader_turn lib c2 = (Ready, written ?F3 (unread_in q (setPanes lib (c2\<lparr>bc_authenticated := True\<rparr>))))"
    using f c2(5) by auto
  define c3 where "c3 = written ?F3 (unread_in q (setPanes lib (c2\<lparr>bc_authenticated := True\<rparr>)))"
  have c3: "comes (?S3 @ ?S4) (bc_sock c3)" "bc_username c3 = Some u" "send_plan (bc_sock c3) = []" "bc_symmetricKey c3 = bc_symmetricKey cl"
    using q3(1) c2(3,4) by (simp_all add: c3_def c2_def c1_def written_def unread_in_def comes_def pending_def setPanes_def)
  from turn_server_key [OF c3(1) kl p(1) _ p(3) c3(2) u c3(3)] p(2) c3(4) obtain q where q4: "comes ?S4 (bc_sock (unread_in q c3))"
    "reader_turn lib c3 = (Ready, (written (symmetric_frame (getBytes u) wk) (unread_in q (c3\<lparr>bc_serverPubKey := Some pub\<rparr>)))\<lparr>bc_hasExchangedKeys := True\<rparr>)"
    by auto
  define c4 where "c4 = (written (symmetric_frame (getBytes u) wk) (unread_in q (c3\<lparr>bc_serverPubKey := Some pub\<rparr>)))\<lparr>bc_hasExchangedKeys := True\<rparr>"
  have c4: "comes (?S4 @ []) (bc_sock c4)" "bc_hasExchangedKeys c4"
    using q4(1) by (simp_all add: c4_def written_def unread_in_def comes_def pending_def)
  from turn_success [OF c4, of lib] obtain q where q5: "comes [] (bc_sock (unread_in q c4))"
    "reader_turn lib c4 = (Ready, (unread_in q c4)\<lparr>bc_clock := Suc (bc_clock c4), bc_pollers := bc_pollers c4 @ [jv_now lib (bc_clock c4)]\<rparr>)"
    by auto
  define c5 where "c5 = (unread_in q c4)\<lparr>bc_clock := Suc (bc_clock c4), bc_pollers := bc_pollers c4 @ [jv_now lib (bc_clock c4)]\<rparr>"
  have run: "reader_run lib 4 False c1 = (Ready, c5)"
    using q(2) [folded c2_def] q3(2) [folded c3_def] q4(2) [folded c4_def] q5(2) [folded c5_def]
    by (simp add: numeral_eq_Suc)
  have o: "out (bc_sock c5) = out (bc_sock cl) @ handshake_output lib cl u pw c wk" "bc_input c5 = Some (map (\<lambda>_. 48) pw)"
    by (simp_all add: c5_def c4_def c3_def c2_def c1_def unread_in_def written_def setPanes_def handshake_output_def comp_def)
  have "ready_client lib cl u c5"
    using f q5(1) unfolding ready_client_def
    by (simp add: c5_def c4_def c3_def c2_def c1_def unread_in_def written_def setPanes_def fresh_cipher_def comes_def pending_def)
  with l run o show ?thesis by blast
qed

section \<open>Turns that go wrong\<close>

text \<open>
  Ten bytes that are not the header: the loop goes on without reading, whatever comes behind.
  A type byte without a name: the thread ends.
\<close>

lemma turn_bad_header:
  assumes "comes (bs @ rest) (bc_sock cl)" and "length bs = 10" and "string_of bs \<noteq> HEADER_J"
  shows "\<exists>q. comes rest (bc_sock (unread_in q cl)) \<and> reader_run lib (Suc n) False cl = (Stuck, unread_in q cl)"
proof -
  have h: "length HEADER_J = 10" by (simp add: HEADER_J_def jstr_def)
  have "sint (word_of_nat (length HEADER_J) :: cint) = int (length bs)" using assms(2) h by simp
  from on_socket_takes [OF stream.take_readStr [OF this] assms(1)] obtain q where
    q: "on_socket (readStr (word_of_nat (length HEADER_J))) cl = (Inr (string_of bs), unread_in q cl)" "comes rest (bc_sock (unread_in q cl))"
    by blast
  have r: "readStr (word_of_nat (length HEADER_J)) (bc_sock cl) = (Inr (string_of bs), (bc_sock cl)\<lparr>inq := q\<rparr>)"
    using q(1) by (auto simp: on_socket_def unread_in_def split: prod.splits)
      (metis client.select_convs(14) client.surjective client.update_convs(14))
  have "string_of bs \<noteq> []" using assms(2) by (auto simp: string_of_def)
  with assms(3) have "on_socket BabbleOnMessage_read cl = (babble_throw, unread_in q cl)"
    by (simp add: BabbleOnMessage_read_def on_socket_def rethrow_io_def jbind_def [of "readStr _"] r unread_in_def babble_if_def)
  then have "reader_turn lib cl = (Stuck, unread_in q cl)"
    unfolding reader_turn_result by (simp add: jbind_def turn_result_def)
  with q(2) show ?thesis by (auto simp: reader_stuck)
qed

lemma turn_unknown_type:
  assumes "comes (frame_header LittleEndian ty n @ rest) (bc_sock cl)" and "0 \<le> sint n" and "6 < uint ty"
  shows "\<exists>q. comes rest (bc_sock (unread_in q cl)) \<and> reader_run lib (Suc k) False cl = (Dead, unread_in q cl)"
proof -
  from turn_frame [OF stream.frame_source_axioms assms(1,2), of lib] obtain q where
    q: "reader_turn lib cl = turn_result (handle_type lib ty (unread_in q cl))" "comes rest (bc_sock (unread_in q cl))" by blast
  have "getMessageType ty = None" using assms(3) by (auto simp: getMessageType_def)
  then have "reader_turn lib cl = (Dead, unread_in q cl)"
    unfolding q(1) by (simp add: handle_type_def jlift_def turn_result_def)
  with q(2) show ?thesis by auto
qed

section \<open>Threads that write at the same time\<close>

text \<open>
  The poll thread, the reader thread and the button write to one stream without a lock. The
  writes of two messages can meet in any interleaving; when both headers go first, the server
  reads a type and a length out of the second header's text.
\<close>

lemma writes_meet: "(x # y # xs @ ys) \<in> shuffles (x # xs) (y # ys)"
proof -
  have "xs @ ys \<in> shuffles xs ys" for xs ys :: "'a list"
    by (induction xs) (auto intro: Cons_in_shuffles_leftI)
  then show ?thesis by (intro Cons_in_shuffles_leftI Cons_in_shuffles_rightI)
qed

lemma two_headers: "getBytes HEADER_J @ getBytes HEADER_J = frame_header LittleEndian 83 0x50436861742F312E @ [48]"
proof -
  have "getBytes HEADER_J = HEADER" unfolding HEADER_J_def HEADER_def by (rule literal_bytes(2)) simp
  then show ?thesis by (simp add: frame_header_def encodeLong_LE be_bytes_def HEADER_def ascii_def upt_rec)
qed

lemma headers_meet:
  assumes "ws1 = header_writes t1 n1 @ vs1" and "ws2 = header_writes t2 n2 @ vs2"
  shows "\<exists>ws bs. ws \<in> shuffles ws1 ws2 \<and> writes ws = frame_header LittleEndian 83 0x50436861742F312E @ bs"
proof -
  let ?h = "\<lambda>t n. [Some [ordinal t], Some (to_bytes 8 n)]"
  let ?ws = "Some (getBytes HEADER_J) # Some (getBytes HEADER_J) # (?h t1 n1 @ vs1) @ (?h t2 n2 @ vs2)"
  have "?ws \<in> shuffles (Some (getBytes HEADER_J) # ?h t1 n1 @ vs1) (Some (getBytes HEADER_J) # ?h t2 n2 @ vs2)" by (rule writes_meet)
  then have "?ws \<in> shuffles ws1 ws2" by (simp add: assms header_writes_def)
  moreover have "writes ?ws = (getBytes HEADER_J @ getBytes HEADER_J) @ writes ((?h t1 n1 @ vs1) @ (?h t2 n2 @ vs2))"
    by (simp only: writes_simps append_assoc)
  ultimately show ?thesis unfolding two_headers append_assoc by blast
qed

text \<open>The server's thread then declares an array of that length, on whatever host.\<close>

lemma huge_array:
  assumes "pending (w_sock w) = frame_header LittleEndian 83 0x50436861742F312E @ rest" and "max_vla (env_host env) < 2 ^ 31"
  shows "\<exists>w'. receive env w = (Stopped (Undefined BadArraySize), w')"
proof -
  from decode_frame [OF assms(1), of "env_host env" "w_decodes w"] obtain q where
    "SPChatMessage_decode (env_host env) (w_decodes w) (w_sock w)
      = decode_body (env_host env) (w_decodes w) 83 0x50436861742F312E ((w_sock w)\<lparr>inq := q\<rparr>)" by blast
  then show ?thesis using assms(2) by (simp add: receive_def decode_body_def)
qed

end
