(* ===== verification/Kernel.thy ===== *)
theory Kernel
  imports Wire Decimal
begin

text \<open>
  The system calls \<open>mockServer/PracticalSocket.cpp\<close> sets sockets up with, as POSIX documents
  them. Which calls fail, what the resolver answers and what addresses are reported is up to
  the environment \<open>os\<close>, so every theorem holds for all of that; the state \<open>kernel\<close> keeps the
  open descriptors, the resolver's lists that have not been freed, and the calls made so far.
\<close>

section \<open>Constants of the headers (Linux)\<close>

definition AF_UNSPEC :: int where "AF_UNSPEC = 0"
definition AF_INET :: int where "AF_INET = 2"
definition AF_INET6 :: int where "AF_INET6 = 10"
definition SOCK_STREAM :: int where "SOCK_STREAM = 1"
definition SOCK_DGRAM :: int where "SOCK_DGRAM = 2"
definition IPPROTO_IP :: int where "IPPROTO_IP = 0"
definition IPPROTO_TCP :: int where "IPPROTO_TCP = 6"
definition IPPROTO_UDP :: int where "IPPROTO_UDP = 17"
definition AI_PASSIVE :: int where "AI_PASSIVE = 1"
definition SOL_SOCKET :: int where "SOL_SOCKET = 1"
definition SO_REUSEADDR :: int where "SO_REUSEADDR = 2"
definition SO_BROADCAST :: int where "SO_BROADCAST = 6"
definition MSG_NOSIGNAL :: int where "MSG_NOSIGNAL = 16384"
definition IP_MULTICAST_TTL :: int where "IP_MULTICAST_TTL = 33"
definition IP_ADD_MEMBERSHIP :: int where "IP_ADD_MEMBERSHIP = 35"
definition IP_DROP_MEMBERSHIP :: int where "IP_DROP_MEMBERSHIP = 36"
definition SHUT_RD :: int where "SHUT_RD = 0"
definition EAFNOSUPPORT :: int where "EAFNOSUPPORT = 97"
definition SOCKADDR_STORAGE_SIZE :: nat where "SOCKADDR_STORAGE_SIZE = 128"
definition INET6_ADDRSTRLEN :: nat where "INET6_ADDRSTRLEN = 46"

lemmas os_consts = AF_UNSPEC_def AF_INET_def AF_INET6_def SOCK_STREAM_def SOCK_DGRAM_def IPPROTO_IP_def
  IPPROTO_TCP_def IPPROTO_UDP_def AI_PASSIVE_def SOL_SOCKET_def SO_REUSEADDR_def SO_BROADCAST_def
  MSG_NOSIGNAL_def IP_MULTICAST_TTL_def IP_ADD_MEMBERSHIP_def IP_DROP_MEMBERSHIP_def SHUT_RD_def
  EAFNOSUPPORT_def SOCKADDR_STORAGE_SIZE_def INET6_ADDRSTRLEN_def

section \<open>State and environment\<close>

text \<open>\<open>struct addrinfo\<close>: as criteria for the resolver its address is empty.\<close>

record addrinfo =
  ai_flags :: int
  ai_family :: int
  ai_socktype :: int
  ai_protocol :: int
  ai_addr :: bytes

datatype syscall =
    CallSocket int int int
  | CallBind int bytes
  | CallListen int int
  | CallConnect int bytes
  | CallAccept int
  | CallShutdown int int
  | CallClose int
  | CallSetsockopt int int int bytes
  | CallGetsockname int
  | CallGetpeername int
  | CallSendto int bytes bytes
  | CallRecvfrom int nat
  | CallGetaddrinfo "bytes option" "bytes option" addrinfo
  | CallFreeaddrinfo

record kernel =
  k_open :: "int list"
  k_lists :: nat
  k_calls :: "syscall list"

text \<open>
  \<open>os_fails i\<close>, \<open>os_hangs i\<close>, \<open>os_errno i\<close>: whether the \<open>i\<close>-th call fails, whether it waits
  forever (where it is one that can), and its error number. \<open>os_resolver i\<close>: the return value
  and the list of the \<open>i\<close>-th call, if it is one of \<open>getaddrinfo\<close>. \<open>os_name i\<close>: the address the
  call reports. \<open>os_datagram i\<close>: the datagram it receives, \<open>os_sent i\<close>: the number of bytes it
  sends. \<open>os_stale\<close>: the content of uninitialised storage. The others are library functions.
\<close>

record os =
  os_endian :: endian
  os_fails :: "nat \<Rightarrow> bool"
  os_hangs :: "nat \<Rightarrow> bool"
  os_errno :: "nat \<Rightarrow> int"
  os_resolver :: "nat \<Rightarrow> int \<times> addrinfo list"
  os_name :: "nat \<Rightarrow> bytes"
  os_datagram :: "nat \<Rightarrow> bytes"
  os_sent :: "nat \<Rightarrow> nat"
  os_stale :: "nat \<Rightarrow> byte"
  strerror :: "int \<Rightarrow> string"
  gai_strerror :: "int \<Rightarrow> string"
  inet_ntop6 :: "bytes \<Rightarrow> bytes"
  inet_addr :: "bytes \<Rightarrow> bytes"

section \<open>Calls\<close>

text \<open>\<open>issue c\<close> makes the call \<open>c\<close> and says which call of the run it is.\<close>

definition issue :: "syscall \<Rightarrow> kernel \<Rightarrow> nat \<times> kernel" where
  "issue c k = (length (k_calls k), k\<lparr>k_calls := k_calls k @ [c]\<rparr>)"

text \<open>POSIX: a new descriptor is the lowest-numbered one that is not open.\<close>

definition lowest_free :: "int list \<Rightarrow> int" where
  "lowest_free ds = hd (filter (\<lambda>d. d \<notin> set ds) (map int [0..<Suc (length ds)]))"

definition new_descriptor :: "os \<Rightarrow> syscall \<Rightarrow> bool \<Rightarrow> kernel \<Rightarrow> int \<times> kernel" where
  "new_descriptor os c ok k = (case issue c k of (i, k) \<Rightarrow>
     if os_fails os i \<or> \<not> ok then (-1, k)
     else (lowest_free (k_open k), k\<lparr>k_open := k_open k @ [lowest_free (k_open k)]\<rparr>))"

definition sys_socket :: "os \<Rightarrow> int \<Rightarrow> int \<Rightarrow> int \<Rightarrow> kernel \<Rightarrow> int \<times> kernel" where
  "sys_socket os domain ty protocol = new_descriptor os (CallSocket domain ty protocol) True"

text \<open>A call on a descriptor fails when that is not open (\<open>EBADF\<close>).\<close>

definition sys_on :: "os \<Rightarrow> int \<Rightarrow> syscall \<Rightarrow> kernel \<Rightarrow> int \<times> kernel" where
  "sys_on os d c k = (case issue c k of (i, k) \<Rightarrow>
     (if os_fails os i \<or> d \<notin> set (k_open k) then -1 else 0, k))"

definition sys_accept :: "os \<Rightarrow> int \<Rightarrow> kernel \<Rightarrow> int \<times> kernel" where
  "sys_accept os d k = new_descriptor os (CallAccept d) (d \<in> set (k_open k)) k"

text \<open>\<open>close\<close> releases the descriptor even when it reports an error.\<close>

definition sys_close :: "int \<Rightarrow> kernel \<Rightarrow> kernel" where
  "sys_close d k = (case issue (CallClose d) k of (i, k) \<Rightarrow> k\<lparr>k_open := removeAll d (k_open k)\<rparr>)"

definition sys_getaddrinfo ::
  "os \<Rightarrow> bytes option \<Rightarrow> bytes option \<Rightarrow> addrinfo \<Rightarrow> kernel \<Rightarrow> (int \<times> addrinfo list) \<times> kernel" where
  "sys_getaddrinfo os host service hints k = (case issue (CallGetaddrinfo host service hints) k of (i, k) \<Rightarrow>
     (os_resolver os i, if fst (os_resolver os i) = 0 then k\<lparr>k_lists := Suc (k_lists k)\<rparr> else k))"

definition sys_freeaddrinfo :: "kernel \<Rightarrow> kernel" where
  "sys_freeaddrinfo k = (case issue CallFreeaddrinfo k of (i, k) \<Rightarrow> k\<lparr>k_lists := k_lists k - 1\<rparr>)"

section \<open>Sequencing\<close>

text \<open>Calls that change a state and may throw.\<close>

definition sbind :: "('s \<Rightarrow> 'a res \<times> 's) \<Rightarrow> ('a \<Rightarrow> 's \<Rightarrow> 'b res \<times> 's) \<Rightarrow> 's \<Rightarrow> 'b res \<times> 's" where
  "sbind m f s = (case m s of (Inl x, s) \<Rightarrow> (Inl x, s) | (Inr a, s) \<Rightarrow> f a s)"

lemma sbind_cases:
  assumes "sbind m f s = (r, s')"
  obtains x where "m s = (Inl x, s')" "r = Inl x"
    | a s1 where "m s = (Inr a, s1)" "f a s1 = (r, s')"
  using assms by (auto simp: sbind_def split: prod.splits sum.splits)

section \<open>Descriptors\<close>

lemma lowest_free:
  "lowest_free ds \<notin> set ds" "0 \<le> lowest_free ds"
proof -
  let ?f = "filter (\<lambda>d. d \<notin> set ds) (map int [0..<Suc (length ds)])"
  have "\<not> int ` {0..<Suc (length ds)} \<subseteq> set ds"
  proof
    assume "int ` {0..<Suc (length ds)} \<subseteq> set ds"
    then have "card (int ` {0..<Suc (length ds)}) \<le> card (set ds)" by (intro card_mono) simp_all
    then show False using card_length [of ds] by (simp add: card_image)
  qed
  then have "?f \<noteq> []" by (auto simp: filter_empty_conv simp del: upt_Suc)
  then have "hd ?f \<in> set ?f" by (rule hd_in_set)
  then show "lowest_free ds \<notin> set ds" "0 \<le> lowest_free ds"
    unfolding lowest_free_def by (auto simp del: upt_Suc)
qed

text \<open>What the calls do to the open descriptors and the resolver's lists.\<close>

named_theorems kernel_simps \<open>effect of the system calls on the state of the kernel\<close>

lemma issue_simps [kernel_simps]:
  "issue c k = (i, k') \<longleftrightarrow> i = length (k_calls k) \<and> k' = k\<lparr>k_calls := k_calls k @ [c]\<rparr>"
  by (auto simp: issue_def)

lemma sys_on_state [kernel_simps]:
  "snd (sys_on os d c k) = k\<lparr>k_calls := k_calls k @ [c]\<rparr>"
  by (simp add: sys_on_def issue_def)

lemma sys_on_result: "fst (sys_on os d c k) \<in> {-1, 0}" "fst (sys_on os d c k) = 0 \<Longrightarrow> d \<in> set (k_open k)"
  by (auto simp: sys_on_def issue_def split: if_splits)

lemma sys_close_state [kernel_simps]:
  "k_open (sys_close d k) = removeAll d (k_open k)" "k_lists (sys_close d k) = k_lists k"
  by (simp_all add: sys_close_def issue_def)

lemma sys_freeaddrinfo_state [kernel_simps]:
  "k_open (sys_freeaddrinfo k) = k_open k" "k_lists (sys_freeaddrinfo k) = k_lists k - 1"
  by (simp_all add: sys_freeaddrinfo_def issue_def)

lemma sys_getaddrinfo_cases:
  assumes "sys_getaddrinfo os host service hints k = ((rc, addrs), k')"
  shows "k_open k' = k_open k" and "k_lists k' = (if rc = 0 then Suc (k_lists k) else k_lists k)"
  using assms by (auto simp: sys_getaddrinfo_def issue_def split: if_splits)

lemma new_descriptor_cases:
  assumes "new_descriptor os c ok k = (d, k')"
  obtains "d = -1" "k_open k' = k_open k" "k_lists k' = k_lists k" "k_calls k' = k_calls k @ [c]"
    | "ok" "0 \<le> d" "d \<notin> set (k_open k)" "k_open k' = k_open k @ [d]" "k_lists k' = k_lists k"
      "k_calls k' = k_calls k @ [c]"
  using assms lowest_free by (auto simp: new_descriptor_def issue_def split: if_splits)

end
