(* ===== verification/Address.thy ===== *)
theory Address
  imports Kernel
begin

text \<open>
  \<open>SocketException\<close>, \<open>getAddressInfo\<close> and \<open>SocketAddress\<close> of \<open>mockServer/PracticalSocket.cpp\<close>.

  A \<open>SocketAddress\<close> holds the bytes of a \<open>sockaddr_storage\<close>, which the members read as a
  \<open>sockaddr\<close>, a \<open>sockaddr_in\<close> or a \<open>sockaddr_in6\<close>: the family in the first two bytes in the
  host's order, the port in the next two in network order, the IPv4 address from byte 4, the
  IPv6 address from byte 8. Bytes that no \<open>memcpy\<close> has written are \<open>os_stale\<close>.
\<close>

section \<open>Exceptions\<close>

definition SocketException_detail :: "string \<Rightarrow> string \<Rightarrow> exn" where
  "SocketException_detail message detail = SocketException (message @ '': '' @ detail)"

abbreviation socket_throw :: "string \<Rightarrow> 'a res" where
  "socket_throw m \<equiv> Inl (Throw (SocketException m))"

section \<open>Addresses\<close>

datatype AddressType = TCP_SOCKET | TCP_SERVER | UDP_SOCKET

record SocketAddress =
  sa_addr :: "nat \<Rightarrow> byte"
  addrLen :: nat

text \<open>The bytes that \<open>getSockaddr()\<close> and \<open>getSockaddrLen()\<close> hand to a system call.\<close>

definition sockaddr_bytes :: "SocketAddress \<Rightarrow> bytes" where
  "sockaddr_bytes a = map (sa_addr a) [0..<addrLen a]"

text \<open>A \<open>short\<close> read from two bytes of memory, and \<open>ntohs\<close>.\<close>

definition short_value :: "endian \<Rightarrow> byte \<Rightarrow> byte \<Rightarrow> 16 word" where
  "short_value e a b =
     (case e of LittleEndian \<Rightarrow> ucast a OR push_bit 8 (ucast b) | BigEndian \<Rightarrow> push_bit 8 (ucast a) OR ucast b)"

definition ntohs :: "endian \<Rightarrow> 16 word \<Rightarrow> 16 word" where
  "ntohs e x = push_bit 8 (ucast (short_memory e x ! 0)) OR ucast (short_memory e x ! 1)"

definition sa_family :: "endian \<Rightarrow> SocketAddress \<Rightarrow> int" where
  "sa_family e a = uint (short_value e (sa_addr a 0) (sa_addr a 1))"

text \<open>The copying constructor: \<open>memcpy\<close> of \<open>addrLenVal\<close> bytes into the storage.\<close>

definition SocketAddress_wrap :: "os \<Rightarrow> bytes \<Rightarrow> nat \<Rightarrow> SocketAddress res" where
  "SocketAddress_wrap os addrVal addrLenVal =
     (if SOCKADDR_STORAGE_SIZE < addrLenVal \<or> length addrVal < addrLenVal then Inl (Undefined OutOfBounds)
      else Inr \<lparr>sa_addr = (\<lambda>i. if i < addrLenVal then addrVal ! i else os_stale os i), addrLen = addrLenVal\<rparr>)"

section \<open>The resolver\<close>

fun criteria :: "AddressType \<Rightarrow> addrinfo" where
  "criteria TCP_SOCKET = \<lparr>ai_flags = 0, ai_family = AF_UNSPEC, ai_socktype = SOCK_STREAM,
     ai_protocol = IPPROTO_TCP, ai_addr = []\<rparr>"
| "criteria TCP_SERVER = \<lparr>ai_flags = AI_PASSIVE, ai_family = AF_UNSPEC, ai_socktype = SOCK_STREAM,
     ai_protocol = IPPROTO_TCP, ai_addr = []\<rparr>"
| "criteria UDP_SOCKET = \<lparr>ai_flags = 0, ai_family = AF_UNSPEC, ai_socktype = SOCK_DGRAM,
     ai_protocol = IPPROTO_UDP, ai_addr = []\<rparr>"

declare criteria.simps [simp del]

definition getAddressInfo ::
  "os \<Rightarrow> bytes option \<Rightarrow> bytes option \<Rightarrow> AddressType \<Rightarrow> kernel \<Rightarrow> addrinfo list res \<times> kernel" where
  "getAddressInfo os host service atype k =
     (case sys_getaddrinfo os host service (criteria atype) k of ((rtnVal, servAddrs), k) \<Rightarrow>
        if rtnVal \<noteq> 0
        then (Inl (Throw (SocketException_detail ''getaddrinfo() failed'' (gai_strerror os rtnVal))), k)
        else (Inr servAddrs, k))"

text \<open>The constructor from host and service: the first address found.\<close>

definition SocketAddress_resolve ::
  "os \<Rightarrow> bytes option \<Rightarrow> bytes option \<Rightarrow> AddressType \<Rightarrow> kernel \<Rightarrow> SocketAddress res \<times> kernel" where
  "SocketAddress_resolve os host service atype =
     sbind (getAddressInfo os host service atype) (\<lambda>servAddrs k.
       case servAddrs of
         [] \<Rightarrow> (socket_throw ''No matching socket address'', k)
       | a # _ \<Rightarrow>
           (case SocketAddress_wrap os (ai_addr a) (length (ai_addr a)) of
              Inl x \<Rightarrow> (Inl x, k)
            | Inr addr \<Rightarrow> (Inr addr, sys_freeaddrinfo k)))"

text \<open>\<open>char service[6]\<close> holds the port as a decimal numeral.\<close>

definition port_service :: "16 word \<Rightarrow> bytes" where
  "port_service port = snprintf_d 6 (unat port)"

definition SocketAddress_of_port ::
  "os \<Rightarrow> bytes option \<Rightarrow> 16 word \<Rightarrow> AddressType \<Rightarrow> kernel \<Rightarrow> SocketAddress res \<times> kernel" where
  "SocketAddress_of_port os host port atype =
     sbind (getAddressInfo os host (Some (port_service port)) atype) (\<lambda>servAddrs k.
       case servAddrs of
         [] \<Rightarrow> (socket_throw ''No matching socket address'', k)
       | a # _ \<Rightarrow>
           (case SocketAddress_wrap os (ai_addr a) (length (ai_addr a)) of
              Inl x \<Rightarrow> (Inl x, k)
            | Inr addr \<Rightarrow> (Inr addr, sys_freeaddrinfo k)))"

primrec copy_addresses :: "os \<Rightarrow> addrinfo list \<Rightarrow> SocketAddress list \<Rightarrow> SocketAddress list res" where
  "copy_addresses os [] addrList = Inr addrList"
| "copy_addresses os (a # as) addrList =
     rbind (SocketAddress_wrap os (ai_addr a) (length (ai_addr a))) (\<lambda>addr.
       copy_addresses os as (addrList @ [addr]))"

definition lookupAddresses ::
  "os \<Rightarrow> bytes option \<Rightarrow> bytes option \<Rightarrow> AddressType \<Rightarrow> kernel \<Rightarrow> SocketAddress list res \<times> kernel" where
  "lookupAddresses os host service atype =
     sbind (getAddressInfo os host service atype) (\<lambda>servAddrs k.
       case copy_addresses os servAddrs [] of
         Inl x \<Rightarrow> (Inl x, k)
       | Inr addrList \<Rightarrow> (Inr addrList, sys_freeaddrinfo k))"

definition lookupAddresses_port ::
  "os \<Rightarrow> bytes option \<Rightarrow> 16 word \<Rightarrow> AddressType \<Rightarrow> kernel \<Rightarrow> SocketAddress list res \<times> kernel" where
  "lookupAddresses_port os host port atype =
     sbind (getAddressInfo os host (Some (port_service port)) atype) (\<lambda>servAddrs k.
       case copy_addresses os servAddrs [] of
         Inl x \<Rightarrow> (Inl x, k)
       | Inr addrList \<Rightarrow> (Inr addrList, sys_freeaddrinfo k))"

section \<open>Reading an address\<close>

text \<open>\<open>inet_ntop\<close> of an IPv4 address is its dotted decimal form.\<close>

fun dotted :: "bytes \<Rightarrow> bytes" where
  "dotted [] = []"
| "dotted [b] = decimal_nat (unat b)"
| "dotted (b # bs) = decimal_nat (unat b) @ ascii ''.'' @ dotted bs"

text \<open>The result is copied into a buffer of \<open>INET6_ADDRSTRLEN\<close> characters, if it fits.\<close>

definition getAddress :: "os \<Rightarrow> SocketAddress \<Rightarrow> bytes res" where
  "getAddress os a =
     (if sa_family (os_endian os) a \<noteq> AF_INET \<and> sa_family (os_endian os) a \<noteq> AF_INET6
      then socket_throw ''Unknown address type''
      else
        let text = (if sa_family (os_endian os) a = AF_INET then dotted (map (sa_addr a) [4..<8])
                    else inet_ntop6 os (map (sa_addr a) [8..<24]))
        in if INET6_ADDRSTRLEN \<le> length text then socket_throw ''Unable to get address'' else Inr text)"

definition getPort :: "os \<Rightarrow> SocketAddress \<Rightarrow> 16 word res" where
  "getPort os a =
     (if sa_family (os_endian os) a = AF_INET \<or> sa_family (os_endian os) a = AF_INET6
      then Inr (ntohs (os_endian os) (short_value (os_endian os) (sa_addr a 2) (sa_addr a 3)))
      else socket_throw ''Unknown address type'')"

section \<open>Facts\<close>

lemma port_service: "port_service p = decimal_nat (unat p)"
proof -
  have "unat p < 2 ^ LENGTH(16)" by (rule unsigned_less)
  then have "unat p < 10 ^ 5" by simp
  then show ?thesis unfolding port_service_def by (rule snprintf_d_fits) simp_all
qed

lemma short_memory_nth:
  "short_memory e x ! 0 = (case e of LittleEndian \<Rightarrow> ucast x | BigEndian \<Rightarrow> ucast (drop_bit 8 x))"
  "short_memory e x ! Suc 0 = (case e of LittleEndian \<Rightarrow> ucast (drop_bit 8 x) | BigEndian \<Rightarrow> ucast x)"
  "length (short_memory e x) = 2"
  by (simp_all add: short_memory_def Let_def split: endian.split)

lemma short_value_memory: "short_value e (short_memory e x ! 0) (short_memory e x ! Suc 0) = x"
  by (cases e; rule bit_word_eqI)
    (auto simp: short_value_def short_memory_nth bit_simps not_less)

lemma ntohs_value: "ntohs e (short_value e a b) = push_bit 8 (ucast a) OR ucast b"
  by (cases e; rule bit_word_eqI)
    (auto simp: ntohs_def short_value_def short_memory_nth bit_simps not_less dest: bit_imp_le_length)

lemma wrap_cases:
  assumes "SocketAddress_wrap os v n = Inr a"
  shows "n \<le> 128" and "n \<le> length v" and "addrLen a = n" and "\<And>i. i < n \<Longrightarrow> sa_addr a i = v ! i"
    and "sockaddr_bytes a = take n v"
  using assms by (auto simp: SocketAddress_wrap_def SOCKADDR_STORAGE_SIZE_def sockaddr_bytes_def
      split: if_splits intro: nth_equalityI)

text \<open>The bytes of a \<open>sockaddr_in\<close> for the given IPv4 address and port.\<close>

definition sockaddr_in :: "endian \<Rightarrow> bytes \<Rightarrow> 16 word \<Rightarrow> bytes" where
  "sockaddr_in e address port =
     short_memory e (word_of_int AF_INET) @ short_memory BigEndian port @ address @ replicate 8 0"

lemma dotted_length: "length bs = 4 \<Longrightarrow> length (dotted bs) \<le> 15"
proof -
  have d: "length (decimal_nat (unat b)) \<le> 3" for b :: byte
  proof -
    have "unat b < 2 ^ LENGTH(8)" by (rule unsigned_less)
    then show ?thesis by (intro decimal_nat_length) simp_all
  qed
  assume "length bs = 4"
  then obtain b1 b2 b3 b4 where "bs = [b1, b2, b3, b4]" by (auto simp: length_Suc_conv numeral_eq_Suc)
  with d [of b1] d [of b2] d [of b3] d [of b4] show ?thesis by simp
qed

lemma wrap_sockaddr_in:
  assumes "length address = 4"
  shows "\<exists>a. SocketAddress_wrap os (sockaddr_in (os_endian os) address port) 16 = Inr a \<and>
    getPort os a = Inr port \<and> getAddress os a = Inr (dotted address)"
proof -
  let ?v = "sockaddr_in (os_endian os) address port"
  have l: "length ?v = 16" using assms by (simp add: sockaddr_in_def short_memory_nth)
  then obtain a where a: "SocketAddress_wrap os ?v 16 = Inr a"
    by (simp add: SocketAddress_wrap_def SOCKADDR_STORAGE_SIZE_def)
  note w = wrap_cases(4) [OF a]
  have f: "sa_family (os_endian os) a = AF_INET"
    using short_value_memory [of "os_endian os" "word_of_int AF_INET"]
    by (simp add: sa_family_def w sockaddr_in_def nth_append AF_INET_def short_memory_nth(3))
  have "getPort os a = Inr port"
    using short_value_memory [of BigEndian port]
    by (simp add: getPort_def f w sockaddr_in_def nth_append ntohs_value short_value_def [of BigEndian] short_memory_nth(3))
  moreover have "map (sa_addr a) [4..<8] = address"
    using assms by (intro nth_equalityI)
      (auto simp: w sockaddr_in_def nth_append short_memory_nth(3) less_Suc_eq numeral_eq_Suc)
  then have "getAddress os a = Inr (dotted address)"
    using dotted_length [OF assms] by (simp add: getAddress_def f INET6_ADDRSTRLEN_def)
  ultimately show ?thesis using a by blast
qed

end
