(* ===== verification/SocketSetup.thy ===== *)
theory SocketSetup
  imports Address
begin

text \<open>
  The classes of \<open>mockServer/PracticalSocket.cpp\<close> up to the point where bytes flow: the
  creation, binding, connecting and closing of \<open>Socket\<close>, \<open>TCPSocket\<close>, \<open>TCPServerSocket\<close> and
  \<open>UDPSocket\<close> objects. A member works on the descriptor of its object and on the kernel; when
  it throws, both keep what it has done to them.

  The locale \<open>tidy_member\<close> is the contract of a member towards the owner of other sockets: the
  object's descriptor is -1 or open, and no other descriptor and no resolver list is touched.
  The interpretations show that every member keeps it.
\<close>

type_synonym skt = "int \<times> kernel"
type_synonym 'a member = "skt \<Rightarrow> 'a res \<times> skt"

section \<open>Socket\<close>

definition Socket_new :: "kernel \<Rightarrow> skt" where
  "Socket_new k = (-1, k)"

definition Socket_shut :: "os \<Rightarrow> skt \<Rightarrow> skt" where
  "Socket_shut os = (\<lambda>(d, k). case sys_on os d (CallShutdown d SHUT_RD) k of (r, k) \<Rightarrow> (-1, sys_close d k))"

definition Socket_destroy :: "os \<Rightarrow> skt \<Rightarrow> skt" where
  "Socket_destroy os = (\<lambda>(d, k). if d \<ge> 0 then Socket_shut os (d, k) else (d, k))"

text \<open>\<open>errno\<close> after the last call.\<close>

definition errno :: "os \<Rightarrow> kernel \<Rightarrow> int" where
  "errno os k = os_errno os (length (k_calls k) - 1)"

definition createSocket :: "os \<Rightarrow> SocketAddress \<Rightarrow> int \<Rightarrow> int \<Rightarrow> unit member" where
  "createSocket os address ty protocol s =
     (case (if fst s \<ge> 0 then Socket_shut os s else s) of (d, k) \<Rightarrow>
        let domain = (if sa_family (os_endian os) address = AF_INET6 then AF_INET6 else AF_INET)
        in case sys_socket os domain ty protocol k of (sockDesc, k) \<Rightarrow>
          if sockDesc < 0
          then (socket_throw (''Can't create socket : '' @ strerror os (errno os k)), (sockDesc, k))
          else (Inr (), (sockDesc, k)))"

text \<open>A call on the object's descriptor whose failure is thrown with the given text.\<close>

definition checked :: "os \<Rightarrow> (int \<Rightarrow> syscall) \<Rightarrow> (kernel \<Rightarrow> string) \<Rightarrow> unit member" where
  "checked os c message = (\<lambda>(d, k). case sys_on os d (c d) k of (r, k) \<Rightarrow>
     if r < 0 then (socket_throw (message k), (d, k)) else (Inr (), (d, k)))"

text \<open>The address the last call has reported, as the caller's \<open>sockaddr_storage\<close> holds it.\<close>

definition reported_address :: "os \<Rightarrow> kernel \<Rightarrow> SocketAddress res" where
  "reported_address os k =
     (let name = os_name os (length (k_calls k) - 1)
      in SocketAddress_wrap os (take SOCKADDR_STORAGE_SIZE name) (length name))"

definition getLocalAddress :: "os \<Rightarrow> SocketAddress member" where
  "getLocalAddress os =
     sbind (checked os CallGetsockname (\<lambda>_. ''Fetch of local address failed (getsockname())''))
       (\<lambda>_ (d, k). (reported_address os k, (d, k)))"

definition getForeignAddress :: "os \<Rightarrow> SocketAddress member" where
  "getForeignAddress os =
     sbind (checked os CallGetpeername (\<lambda>_. ''Fetch of foreign address failed (getpeername())''))
       (\<lambda>_ (d, k). (reported_address os k, (d, k)))"

section \<open>TCPSocket\<close>

text \<open>\<open>TCPSocket(int desc)\<close>: the object for a descriptor that is already connected.\<close>

definition TCPSocket_of :: "int \<Rightarrow> kernel \<Rightarrow> skt" where
  "TCPSocket_of desc k = (desc, k)"

text \<open>
  The loop of the connecting constructor: it goes on to the next address when no socket could
  be made or connected for this one.
\<close>

fun connect_loop :: "os \<Rightarrow> addrinfo list \<Rightarrow> skt \<Rightarrow> skt" where
  "connect_loop os [] s = s"
| "connect_loop os (a # as) (d, k) =
     (if \<not> d < 0 then (d, k)
      else case sys_socket os (ai_family a) (ai_socktype a) (ai_protocol a) k of (d, k) \<Rightarrow>
        if d \<ge> 0
        then (case sys_on os d (CallConnect d (ai_addr a)) k of (r, k) \<Rightarrow>
          if r < 0 then connect_loop os as (-1, sys_close d k) else connect_loop os as (d, k))
        else connect_loop os as (d, k))"

text \<open>The bytes of the \<open>int\<close> 1 that the options are set to.\<close>

definition int_one :: "endian \<Rightarrow> bytes" where
  "int_one e = (case e of LittleEndian \<Rightarrow> [1, 0, 0, 0] | BigEndian \<Rightarrow> [0, 0, 0, 1])"

definition TCPSocket_connected :: "os \<Rightarrow> bytes option \<Rightarrow> 16 word \<Rightarrow> unit member" where
  "TCPSocket_connected os foreignAddress foreignPort = (\<lambda>(d, k).
     case sys_getaddrinfo os foreignAddress (Some (port_service foreignPort)) (criteria TCP_SOCKET) k of
       ((rtnVal, servAddrs), k) \<Rightarrow>
         if rtnVal \<noteq> 0
         then (Inl (Throw (SocketException_detail ''getaddrinfo() failed'' (gai_strerror os rtnVal))), (-1, k))
         else (case connect_loop os servAddrs (-1, k) of (sockDesc, k) \<Rightarrow>
           let k = snd (sys_on os sockDesc (CallSetsockopt sockDesc SOL_SOCKET SO_REUSEADDR (int_one (os_endian os))) k);
               k = snd (sys_on os sockDesc (CallSetsockopt sockDesc SOL_SOCKET MSG_NOSIGNAL (int_one (os_endian os))) k);
               k = sys_freeaddrinfo k
           in if sockDesc = -1 then (socket_throw ''Unable to connect'', (sockDesc, k))
              else (Inr (), (sockDesc, k))))"

definition bind_message :: "os \<Rightarrow> kernel \<Rightarrow> string" where
  "bind_message os k = ''Call to bind() failed :  '' @ strerror os (errno os k)"

definition connect_message :: "os \<Rightarrow> kernel \<Rightarrow> string" where
  "connect_message os k = ''Call to connect() failed :  '' @ strerror os (errno os k)"

definition TCPSocket_bind :: "os \<Rightarrow> SocketAddress \<Rightarrow> unit member" where
  "TCPSocket_bind os localAddress =
     sbind (createSocket os localAddress SOCK_STREAM IPPROTO_TCP) (\<lambda>_.
       checked os (\<lambda>d. CallBind d (sockaddr_bytes localAddress)) (bind_message os))"

definition TCPSocket_connect :: "os \<Rightarrow> SocketAddress \<Rightarrow> unit member" where
  "TCPSocket_connect os foreignAddress =
     sbind (\<lambda>s. if fst s < 0 then createSocket os foreignAddress SOCK_STREAM IPPROTO_TCP s else (Inr (), s)) (\<lambda>_.
       checked os (\<lambda>d. CallConnect d (sockaddr_bytes foreignAddress)) (connect_message os))"

section \<open>TCPServerSocket\<close>

text \<open>Only the first address of the resolver is tried.\<close>

definition findTCPServerSocketDesc :: "os \<Rightarrow> bytes option \<Rightarrow> bytes option \<Rightarrow> kernel \<Rightarrow> int res \<times> kernel" where
  "findTCPServerSocketDesc os localAddr localPort k =
     (case sys_getaddrinfo os localAddr localPort (criteria TCP_SERVER) k of ((result, servAddr), k) \<Rightarrow>
        if result \<noteq> 0
        then (Inl (Throw (SocketException_detail ''getaddrinfo() failed: %s'' (gai_strerror os result))), k)
        else case servAddr of
          [] \<Rightarrow> (Inl (Undefined OutOfBounds), k)
        | a # _ \<Rightarrow>
            (case sys_socket os (ai_family a) (ai_socktype a) (ai_protocol a) k of (desc, k) \<Rightarrow>
               if desc < 0 then (socket_throw ''Can't create socket'', k)
               else case sys_on os desc (CallBind desc (ai_addr a)) k of (result, k) \<Rightarrow>
                 let k = sys_freeaddrinfo k
                 in if result < 0 then (socket_throw ''can't perform bind'', k) else (Inr desc, k)))"

definition setListen :: "os \<Rightarrow> int \<Rightarrow> unit member" where
  "setListen os queueLen =
     checked os (\<lambda>d. CallListen d queueLen) (\<lambda>_. ''Set listening socket failed (listen())'')"

text \<open>
  The listening constructor. When it throws, the base class is already constructed, and its
  destructor runs.
\<close>

definition TCPServerSocket_new :: "os \<Rightarrow> 16 word \<Rightarrow> int \<Rightarrow> kernel \<Rightarrow> unit res \<times> skt" where
  "TCPServerSocket_new os localPort queueLen k =
     (case findTCPServerSocketDesc os None (Some (snprintf_d 1024 (unat localPort))) k of
        (Inl x, k) \<Rightarrow> (Inl x, Socket_destroy os (Socket_new k))
      | (Inr sockDesc, k) \<Rightarrow>
          (case setListen os queueLen (sockDesc, k) of
             (Inl x, s) \<Rightarrow> (Inl x, Socket_destroy os s)
           | (Inr _, s) \<Rightarrow> (Inr (), s)))"

definition TCPServerSocket_bind :: "os \<Rightarrow> SocketAddress \<Rightarrow> unit member" where
  "TCPServerSocket_bind os localAddress =
     sbind (createSocket os localAddress SOCK_STREAM IPPROTO_TCP) (\<lambda>_.
     sbind (checked os (\<lambda>d. CallBind d (sockaddr_bytes localAddress)) (bind_message os)) (\<lambda>_.
     setListen os 5))"

text \<open>\<open>accept\<close> yields the descriptor of the new \<open>TCPSocket\<close>; it may wait forever.\<close>

definition TCPServerSocket_accept :: "os \<Rightarrow> int member" where
  "TCPServerSocket_accept os = (\<lambda>(d, k).
     if os_hangs os (length (k_calls k)) \<and> d \<in> set (k_open k) then (Inl Blocks, (d, k))
     else case sys_accept os d k of (newConnSD, k) \<Rightarrow>
       if newConnSD < 0 then (socket_throw ''Accept failed (accept())'', (d, k))
       else (Inr newConnSD, (d, k)))"

section \<open>Members keep to their own descriptor\<close>

definition owns :: "skt \<Rightarrow> bool" where
  "owns = (\<lambda>(d, k). distinct (k_open k) \<and> (\<forall>x \<in> set (k_open k). 0 \<le> x) \<and> (d = -1 \<or> d \<in> set (k_open k)))"

definition others :: "skt \<Rightarrow> int set" where
  "others = (\<lambda>(d, k). set (k_open k) - {d})"

text \<open>One step on the state: what the contract of a member says of it.\<close>

definition tidy_step :: "skt \<Rightarrow> skt \<Rightarrow> bool" where
  "tidy_step s s' \<longleftrightarrow> (owns s \<longrightarrow> owns s' \<and> others s' = others s \<and> k_lists (snd s') = k_lists (snd s))"

lemma tidy_refl [simp]: "tidy_step s s"
  by (simp add: tidy_step_def)

lemma tidy_trans: "tidy_step s s' \<Longrightarrow> tidy_step s' s'' \<Longrightarrow> tidy_step s s''"
  by (simp add: tidy_step_def)

lemma tidy_call: "sys_on os x c k = (r, k') \<Longrightarrow> tidy_step (d, k) (d, k')"
  using sys_on_state [of os x c k] by (simp add: tidy_step_def owns_def others_def)

lemma tidy_close: "tidy_step (d, k) (-1, sys_close d k)"
  by (auto simp: tidy_step_def owns_def others_def kernel_simps distinct_removeAll)

lemma tidy_shut: "tidy_step s (Socket_shut os s)"
proof (cases s)
  case (Pair d k)
  obtain r k' where c: "sys_on os d (CallShutdown d SHUT_RD) k = (r, k')" by fastforce
  from tidy_trans [OF tidy_call [OF c] tidy_close] show ?thesis by (simp add: Pair Socket_shut_def c)
qed

lemma tidy_destroy: "tidy_step s (Socket_destroy os s)"
  using tidy_shut by (auto simp: Socket_destroy_def split: prod.splits)

lemma tidy_socket:
  assumes "sys_socket os a b c k = (d, k')" and "d0 < 0"
  shows "tidy_step (d0, k) (d, k')"
  using assms(1) unfolding sys_socket_def
  by (cases rule: new_descriptor_cases) (use assms(2) in \<open>auto simp: tidy_step_def owns_def others_def\<close>)

lemma destroy_leaves:
  "owns s \<Longrightarrow> set (k_open (snd (Socket_destroy os s))) = others s \<and> fst (Socket_destroy os s) = -1"
  by (auto simp: owns_def others_def Socket_destroy_def Socket_shut_def kernel_simps sys_on_def split: prod.splits)

locale tidy_member =
  fixes f :: "'a member"
  assumes keeps: "f s = (r, s') \<Longrightarrow> tidy_step s s'"
begin

lemma snd_tidy: "tidy_step s (snd (f s))"
  by (rule keeps [of s "fst (f s)"]) simp

lemma leaves_nothing:
  assumes "owns s"
  shows "set (k_open (snd (Socket_destroy os (snd (f s))))) = others s"
  using destroy_leaves [of "snd (f s)" os] snd_tidy [of s] assms by (simp add: tidy_step_def)

end

lemma tidy_sbind:
  assumes "tidy_member f" and "\<And>a. tidy_member (g a)"
  shows "tidy_member (sbind f g)"
proof
  fix s r s'
  assume "sbind f g s = (r, s')"
  then show "tidy_step s s'"
    by (cases rule: sbind_cases)
      (auto dest: tidy_member.keeps [OF assms(1)] tidy_member.keeps [OF assms(2)] intro: tidy_trans)
qed

lemma tidy_return: "tidy_member (\<lambda>(d, k). (h k, (d, k)))"
  by unfold_locales auto

lemma tidy_checked: "tidy_member (checked os c m)"
  by unfold_locales (auto simp: checked_def split: prod.splits if_splits dest: tidy_call)

text \<open>A connecting socket, before and after it has a descriptor.\<close>

lemma tidy_connect_loop: "tidy_step (d, k) (connect_loop os as (d, k))"
proof (induction as arbitrary: d k)
  case (Cons a as)
  show ?case
  proof (cases "d < 0")
    case True
    obtain d1 k1 where so: "sys_socket os (ai_family a) (ai_socktype a) (ai_protocol a) k = (d1, k1)"
      by fastforce
    obtain r k2 where co: "sys_on os d1 (CallConnect d1 (ai_addr a)) k1 = (r, k2)" by fastforce
    note 1 = tidy_socket [OF so True]
    note 2 = tidy_trans [OF 1 tidy_call [OF co]]
    show ?thesis
      using tidy_trans [OF 1 Cons.IH] tidy_trans [OF 2 Cons.IH]
        tidy_trans [OF tidy_trans [OF 2 tidy_close] Cons.IH]
      by (simp add: so co True)
  qed simp
qed simp

lemma tidy_create: "tidy_member (createSocket os address ty protocol)"
proof
  fix s r s'
  assume c: "createSocket os address ty protocol s = (r, s')"
  let ?s = "if fst s \<ge> 0 then Socket_shut os s else s"
  have 1: "tidy_step s ?s" using tidy_shut by simp
  obtain d k where dk: "?s = (d, k)" by (cases ?s)
  have "d < 0" using arg_cong [OF dk, of fst] by (auto simp: Socket_shut_def split: prod.splits if_splits)
  define dom where "dom = (if sa_family (os_endian os) address = AF_INET6 then AF_INET6 else AF_INET)"
  obtain d1 k1 where so: "sys_socket os dom ty protocol k = (d1, k1)" by fastforce
  have "s' = (d1, k1)"
    using c unfolding createSocket_def dk Let_def dom_def [symmetric] by (auto simp: so split: if_splits)
  with tidy_trans [OF 1] tidy_socket [OF so \<open>d < 0\<close>] show "tidy_step s s'" by (simp add: dk)
qed

section \<open>The members keep the contract\<close>

lemmas tidy_intros = tidy_sbind tidy_checked tidy_return tidy_create

interpretation createSocket: tidy_member "createSocket os address ty protocol" for os address ty protocol
  by (rule tidy_create)

interpretation getLocalAddress: tidy_member "getLocalAddress os" for os
  unfolding getLocalAddress_def by (intro tidy_intros)

interpretation getForeignAddress: tidy_member "getForeignAddress os" for os
  unfolding getForeignAddress_def by (intro tidy_intros)

interpretation TCPSocket_bind: tidy_member "TCPSocket_bind os address" for os address
  unfolding TCPSocket_bind_def by (intro tidy_intros)

lemma tidy_connecting:
  "tidy_member (\<lambda>s. if fst s < 0 then createSocket os address ty protocol s else (Inr (), s))"
  using tidy_member.keeps [OF tidy_create] by unfold_locales (auto split: if_splits)

interpretation TCPSocket_connect: tidy_member "TCPSocket_connect os address" for os address
  unfolding TCPSocket_connect_def by (intro tidy_intros tidy_connecting)

interpretation setListen: tidy_member "setListen os queueLen" for os queueLen
  unfolding setListen_def by (rule tidy_checked)

interpretation TCPServerSocket_bind: tidy_member "TCPServerSocket_bind os address" for os address
  unfolding TCPServerSocket_bind_def by (intro tidy_intros setListen.tidy_member_axioms)

text \<open>The connecting constructor starts from an object without a descriptor.\<close>

lemma TCPSocket_connected_tidy:
  assumes "TCPSocket_connected os host port (-1, k) = (r, s')"
  shows "tidy_step (-1, k) s'"
proof -
  obtain rc as k1 where g: "sys_getaddrinfo os host (Some (port_service port)) (criteria TCP_SOCKET) k = ((rc, as), k1)"
    by (metis surj_pair)
  note k1 = sys_getaddrinfo_cases [OF g]
  show ?thesis
  proof (cases "rc = 0")
    case False
    with assms k1 show ?thesis
      by (auto simp: TCPSocket_connected_def g tidy_step_def owns_def others_def)
  next
    case True
    obtain d k2 where l: "connect_loop os as (-1, k1) = (d, k2)" by fastforce
    have "tidy_step (-1, k1) (d, k2)" using tidy_connect_loop [of "-1" k1 os as] l by simp
    then show ?thesis
      using assms k1 True
      by (auto simp: TCPSocket_connected_def g l tidy_step_def owns_def others_def Let_def kernel_simps
          split: if_splits)
  qed
qed

text \<open>
  The listening constructor: on success the object owns one new descriptor; but when \<open>bind\<close>
  fails, \<open>findTCPServerSocketDesc\<close> throws without closing the descriptor it has made, and no
  object knows it.
\<close>

lemma find_descriptor_cases:
  assumes "findTCPServerSocketDesc os host port k = (r, k')"
  obtains d where "r = Inr d" "0 \<le> d" "d \<notin> set (k_open k)" "k_open k' = k_open k @ [d]" "k_lists k' = k_lists k"
    | x where "r = Inl x" "k_open k' = k_open k \<or> (\<exists>d. 0 \<le> d \<and> d \<notin> set (k_open k) \<and> k_open k' = k_open k @ [d])"
proof -
  obtain rc as k1 where g: "sys_getaddrinfo os host port (criteria TCP_SERVER) k = ((rc, as), k1)"
    by (metis surj_pair)
  note k1 = sys_getaddrinfo_cases [OF g]
  show ?thesis
  proof (cases "rc \<noteq> 0 \<or> as = []")
    case True
    with assms k1 that(2) show ?thesis
      by (cases as) (auto simp: findTCPServerSocketDesc_def g split: if_splits)
  next
    case False
    then obtain a as' where as: "as = a # as'" and rc: "rc = 0" by (cases as) auto
    obtain d k2 where so: "sys_socket os (ai_family a) (ai_socktype a) (ai_protocol a) k1 = (d, k2)" by fastforce
    obtain b k3 where bi: "sys_on os d (CallBind d (ai_addr a)) k2 = (b, k3)" by fastforce
    have k3: "k_open k3 = k_open k2" "k_lists k3 = k_lists k2"
      using sys_on_state [of os d "CallBind d (ai_addr a)" k2] by (simp_all add: bi)
    from so [unfolded sys_socket_def] show ?thesis
    proof (cases rule: new_descriptor_cases)
      case 1
      with assms k1 rc that(2) show ?thesis
        by (auto simp: findTCPServerSocketDesc_def g as so)
    next
      case 2
      then have "r = (if b < 0 then socket_throw ''can't perform bind'' else Inr d)"
        and "k_open k' = k_open k @ [d]" and "k_lists k' = k_lists k"
        using assms k1 rc k3 by (auto simp: findTCPServerSocketDesc_def g as so bi Let_def kernel_simps split: if_splits)
      with 2 k1 that show ?thesis by (auto split: if_splits)
    qed
  qed
qed

lemma server_socket_new_ok:
  assumes "TCPServerSocket_new os port n k = (Inr (), (d, k'))"
  shows "0 \<le> d" and "d \<notin> set (k_open k)" and "k_open k' = k_open k @ [d]" and "k_lists k' = k_lists k"
proof -
  obtain r k1 where f: "findTCPServerSocketDesc os None (Some (snprintf_d 1024 (unat port))) k = (r, k1)"
    by fastforce
  from f have "0 \<le> d \<and> d \<notin> set (k_open k) \<and> k_open k' = k_open k @ [d] \<and> k_lists k' = k_lists k"
  proof (cases rule: find_descriptor_cases)
    case (1 e)
    obtain l k2 where l: "sys_on os e (CallListen e n) k1 = (l, k2)" by fastforce
    then have k2: "k_open k2 = k_open k1" "k_lists k2 = k_lists k1"
      using sys_on_state [of os e "CallListen e n" k1] by simp_all
    from assms 1 k2 show ?thesis
      by (auto simp: TCPServerSocket_new_def f setListen_def checked_def l split: if_splits)
  next
    case (2 x)
    with assms show ?thesis by (simp add: TCPServerSocket_new_def f)
  qed
  then show "0 \<le> d" and "d \<notin> set (k_open k)" and "k_open k' = k_open k @ [d]" and "k_lists k' = k_lists k"
    by blast+
qed

lemma bind_failure_leaks:
  assumes "os_resolver os (length (k_calls k)) = (0, a # as)"
    and "\<not> os_fails os (Suc (length (k_calls k)))" and "os_fails os (Suc (Suc (length (k_calls k))))"
  shows "\<exists>k'. TCPServerSocket_new os port n k = (socket_throw ''can't perform bind'', (-1, k')) \<and>
    k_open k' = k_open k @ [lowest_free (k_open k)]"
proof -
  have "lowest_free (k_open k) \<ge> 0" by (rule lowest_free)
  then have nn: "\<not> lowest_free (k_open k) < 0" by simp
  show ?thesis
    using assms nn by (simp add: TCPServerSocket_new_def findTCPServerSocketDesc_def sys_getaddrinfo_def
        sys_socket_def new_descriptor_def sys_on_def issue_def sys_freeaddrinfo_def Let_def Socket_destroy_def
        Socket_new_def)
qed

end
