(* ===== verification/Server.thy ===== *)
theory Server
  imports SocketSetup Refinement
begin

text \<open>
  \<open>main\<close> of \<open>mockServer/MockServer.cpp\<close>: it makes the listening socket, tries the database
  once, and then accepts connections forever, giving each to a thread of its own that runs
  \<open>clientConnectStart\<close>.

  \<open>served\<close> is the transition system of the whole process: rounds of the accept loop,
  interleaved in any way with threads that return. Its invariant says who owns which
  descriptor.
\<close>

section \<open>State\<close>

definition serverPort :: "16 word" where "serverPort = 54321"

definition SELECT_PROBE :: bytes where
  "SELECT_PROBE = ascii (''SELECT password FROM login WHERE email = '' @ [CHR 0x27] @ ''jonhand93@gmail.com'' @ [CHR 0x27])"

text \<open>\<open>sv_threads\<close>: the descriptors of the sockets given to threads that have not returned.\<close>

record server =
  sv_desc :: int
  sv_kernel :: kernel
  sv_threads :: "int list"

section \<open>main\<close>

text \<open>Whether the database can be reached is printed and otherwise ignored.\<close>

definition probe_database :: "'d dbms \<Rightarrow> 'd \<Rightarrow> 'd" where
  "probe_database db d = (case db_connect db d of (ok, d) \<Rightarrow> if ok then snd (db_query db SELECT_PROBE [] d) else d)"

datatype round = Waiting | AcceptFailed | Started int | Rejected int

text \<open>
  One round of the accept loop; \<open>thr i\<close> says whether \<open>pthread_create\<close> succeeds after \<open>i\<close> system
  calls. Anything thrown is caught inside the loop.
\<close>

definition accept_round :: "os \<Rightarrow> (nat \<Rightarrow> bool) \<Rightarrow> server \<Rightarrow> round \<times> server" where
  "accept_round os thr st =
     (case TCPServerSocket_accept os (sv_desc st, sv_kernel st) of
        (Inl Blocks, d, k) \<Rightarrow> (Waiting, st)
      | (Inl _, d, k) \<Rightarrow> (AcceptFailed, st\<lparr>sv_kernel := k\<rparr>)
      | (Inr sock, d, k) \<Rightarrow>
          if thr (length (k_calls k))
          then (Started sock, st\<lparr>sv_kernel := k, sv_threads := sv_threads st @ [sock]\<rparr>)
          else (Rejected sock, st\<lparr>sv_kernel := snd (Socket_destroy os (TCPSocket_of sock k))\<rparr>))"

text \<open>The loop has no exit: it runs out of the rounds given to it, or waits.\<close>

primrec accept_loop :: "os \<Rightarrow> (nat \<Rightarrow> bool) \<Rightarrow> nat \<Rightarrow> server \<Rightarrow> int flow \<times> server" where
  "accept_loop os thr 0 st = (OutOfFuel, st)"
| "accept_loop os thr (Suc fuel) st =
     (case accept_round os thr st of
        (Waiting, st) \<Rightarrow> (Stopped Blocks, st)
      | (_, st) \<Rightarrow> accept_loop os thr fuel st)"

text \<open>\<open>return 0\<close> follows every handler, also after the listening socket could not be made.\<close>

definition server_main ::
  "os \<Rightarrow> (nat \<Rightarrow> bool) \<Rightarrow> 'd dbms \<Rightarrow> nat \<Rightarrow> kernel \<times> 'd \<Rightarrow> int flow \<times> server \<times> 'd" where
  "server_main os thr db fuel = (\<lambda>(k, d).
     case TCPServerSocket_new os serverPort 5 k of
       (Inl (Throw e), desc, k) \<Rightarrow> (Next 0, \<lparr>sv_desc = desc, sv_kernel = k, sv_threads = []\<rparr>, d)
     | (Inl x, desc, k) \<Rightarrow> (Stopped x, \<lparr>sv_desc = desc, sv_kernel = k, sv_threads = []\<rparr>, d)
     | (Inr _, desc, k) \<Rightarrow>
         (case accept_loop os thr fuel \<lparr>sv_desc = desc, sv_kernel = k, sv_threads = []\<rparr> of
            (r, st) \<Rightarrow> (r, st, probe_database db d)))"

section \<open>The process\<close>

text \<open>The descriptors a thread has closed, closed in the kernel.\<close>

definition close_descriptors :: "os \<Rightarrow> int list \<Rightarrow> kernel \<Rightarrow> kernel" where
  "close_descriptors os ds k = fold (\<lambda>d k. snd (Socket_shut os (d, k))) ds k"

inductive served :: "os \<Rightarrow> (nat \<Rightarrow> bool) \<Rightarrow> 'd env \<Rightarrow> kernel \<Rightarrow> server \<Rightarrow> bool"
  for os :: os and thr :: "nat \<Rightarrow> bool" and env :: "'d env" and k0 :: kernel
where
  listening: "TCPServerSocket_new os serverPort 5 k0 = (Inr (), (d, k)) \<Longrightarrow>
    served os thr env k0 \<lparr>sv_desc = d, sv_kernel = k, sv_threads = []\<rparr>"
| accepting: "served os thr env k0 st \<Longrightarrow> accept_round os thr st = (ev, st') \<Longrightarrow> served os thr env k0 st'"
| returning: "served os thr env k0 st \<Longrightarrow> d \<in> set (sv_threads st) \<Longrightarrow> fresh_session d w \<Longrightarrow>
    clientConnectStart env fuel w = (Next (), w') \<Longrightarrow>
    served os thr env k0 (st\<lparr>sv_threads := remove1 d (sv_threads st),
      sv_kernel := close_descriptors os (closes (w_sock w')) (sv_kernel st)\<rparr>)"

section \<open>Rounds\<close>

lemma shut_open: "k_open (snd (Socket_shut os (d, k))) = removeAll d (k_open k)"
  "k_lists (snd (Socket_shut os (d, k))) = k_lists k"
  by (auto simp: Socket_shut_def kernel_simps sys_on_def split: prod.splits)

lemma accept_cases:
  assumes "TCPServerSocket_accept os (d, k) = (r, s)"
  obtains "r = Inl Blocks" "s = (d, k)" "os_hangs os (length (k_calls k))"
    | k' where "r = socket_throw ''Accept failed (accept())''" "s = (d, k')" "k_open k' = k_open k"
        "k_lists k' = k_lists k"
    | c k' where "r = Inr c" "s = (d, k')" "0 \<le> c" "c \<notin> set (k_open k)" "d \<in> set (k_open k)"
        "k_open k' = k_open k @ [c]" "k_lists k' = k_lists k"
proof (cases "os_hangs os (length (k_calls k)) \<and> d \<in> set (k_open k)")
  case True
  with assms that(1) show ?thesis by (simp add: TCPServerSocket_accept_def)
next
  case False
  obtain c k' where a: "sys_accept os d k = (c, k')" by fastforce
  from a [unfolded sys_accept_def] show ?thesis
    by (cases rule: new_descriptor_cases)
      (use assms False a that in \<open>auto simp: TCPServerSocket_accept_def split: if_splits\<close>)
qed

text \<open>What one round can do to the server.\<close>

lemma accept_round_cases:
  assumes "accept_round os thr st = (ev, st')"
  obtains "ev = Waiting" "st' = st"
    | k where "ev = AcceptFailed" "st' = st\<lparr>sv_kernel := k\<rparr>" "k_open k = k_open (sv_kernel st)"
        "k_lists k = k_lists (sv_kernel st)"
    | c k where "ev = Started c" "st' = st\<lparr>sv_kernel := k, sv_threads := sv_threads st @ [c]\<rparr>" "0 \<le> c"
        "c \<notin> set (k_open (sv_kernel st))" "k_open k = k_open (sv_kernel st) @ [c]"
        "k_lists k = k_lists (sv_kernel st)"
    | c k where "ev = Rejected c" "st' = st\<lparr>sv_kernel := k\<rparr>" "k_open k = k_open (sv_kernel st)"
        "k_lists k = k_lists (sv_kernel st)"
proof -
  obtain r s where a: "TCPServerSocket_accept os (sv_desc st, sv_kernel st) = (r, s)" by (metis surj_pair)
  from a show ?thesis
  proof (cases rule: accept_cases)
    case (3 c k')
    then have "k_open (snd (Socket_destroy os (c, k'))) = k_open (sv_kernel st)"
      "k_lists (snd (Socket_destroy os (c, k'))) = k_lists (sv_kernel st)"
      by (simp_all add: Socket_destroy_def shut_open)
    with 3 a assms that(3,4) show ?thesis by (auto simp: accept_round_def TCPSocket_of_def split: if_splits)
  qed (use a assms that in \<open>auto simp: accept_round_def\<close>)
qed

lemma accept_loop_result: "fst (accept_loop os thr n st) \<in> {OutOfFuel, Stopped Blocks}"
proof (induction n arbitrary: st)
  case (Suc n)
  obtain ev st' where "accept_round os thr st = (ev, st')" by fastforce
  with Suc.IH [of st'] show ?case by (auto split: round.split)
qed simp

lemma accept_loop_served:
  "served os thr env k0 st \<Longrightarrow> accept_loop os thr n st = (r, st') \<Longrightarrow> served os thr env k0 st'"
proof (induction n arbitrary: st)
  case (Suc n)
  obtain ev st1 where a: "accept_round os thr st = (ev, st1)" by fastforce
  from accepting [OF Suc.prems(1) a] Suc a show ?case by (auto split: round.splits)
qed simp

section \<open>Who owns which descriptor\<close>

definition server_inv :: "kernel \<Rightarrow> server \<Rightarrow> bool" where
  "server_inv k0 st \<longleftrightarrow>
     distinct (k_open (sv_kernel st)) \<and> distinct (sv_desc st # sv_threads st) \<and>
     set (k_open (sv_kernel st)) = set (k_open k0) \<union> set (sv_desc st # sv_threads st) \<and>
     set (k_open k0) \<inter> set (sv_desc st # sv_threads st) = {} \<and>
     k_lists (sv_kernel st) = k_lists k0"

lemma served_inv:
  assumes "served os thr env k0 st" and "env_good env" and "distinct (k_open k0)"
  shows "server_inv k0 st"
  using assms(1)
proof (induction rule: served.induct)
  case (listening d k)
  from server_socket_new_ok [OF listening] assms(3) show ?case by (auto simp: server_inv_def)
next
  case (accepting st ev st')
  from accepting(2) show ?case
    by (cases rule: accept_round_cases) (use accepting.IH in \<open>auto simp: server_inv_def\<close>)
next
  case (returning st d w fuel w')
  from client_refines [OF assms(2) returning(3,4)]
  have "closes (w_sock w') = [d]" by (auto simp: in_phase_def)
  then have "k_open (close_descriptors os (closes (w_sock w')) (sv_kernel st)) = removeAll d (k_open (sv_kernel st))"
    "k_lists (close_descriptors os (closes (w_sock w')) (sv_kernel st)) = k_lists (sv_kernel st)"
    by (simp_all add: close_descriptors_def shut_open)
  with returning.IH returning(2) show ?case
    by (auto simp: server_inv_def distinct_removeAll distinct_remove1 set_remove1_eq)
qed

lemma main_result:
  assumes "server_main os thr db fuel (k, d) = (r, st, d')"
  shows "case r of
      Next c \<Rightarrow> c = 0 \<and> (\<exists>e. fst (TCPServerSocket_new os serverPort 5 k) = Inl (Throw e))
    | Stopped x \<Rightarrow> x = Blocks \<and> served os thr env k st \<or> fst (TCPServerSocket_new os serverPort 5 k) = Inl x
    | OutOfFuel \<Rightarrow> served os thr env k st
    | Returned \<Rightarrow> False"
proof -
  obtain l desc k1 where n: "TCPServerSocket_new os serverPort 5 k = (l, desc, k1)" by (metis surj_pair)
  show ?thesis
  proof (cases l)
    case (Inl x)
    with assms n show ?thesis by (cases x) (auto simp: server_main_def)
  next
    case (Inr u)
    let ?st = "\<lparr>sv_desc = desc, sv_kernel = k1, sv_threads = []\<rparr>"
    have s: "served os thr env k ?st" using n Inr by (intro listening) simp
    from assms n Inr have l: "accept_loop os thr fuel ?st = (r, st)"
      by (auto simp: server_main_def split: prod.splits)
    from accept_loop_served [OF s l] accept_loop_result [of os thr fuel ?st] l show ?thesis by auto
  qed
qed

end
