(* ===== verification/Rounds.thy ===== *)
theory Rounds
  imports Honest
begin

text \<open>
  Rounds of the chat loop in which everything works: a poll is answered with every message
  the query yields, in order, and a posted message is stored and filed.
\<close>

section \<open>A poll\<close>

text \<open>A row of the poll query: text, receiver, sender, time.\<close>

definition row_ok :: "'d env \<Rightarrow> bytes \<Rightarrow> bytes list \<Rightarrow> bool" where
  "row_ok env key row \<longleftrightarrow> 4 \<le> length row \<and> length (row ! 0) \<le> 500 \<and>
     validUsername (row ! 2) \<and> length (row ! 2) < 2 ^ 28 \<and>
     length (fst (env_encrypt env key ivString (row ! 0))) < 2 ^ 28"

definition reply :: "'d env \<Rightarrow> bytes \<Rightarrow> SPChatPoll \<Rightarrow> bytes list \<Rightarrow> SPChatMessage" where
  "reply env key p row = MPollResponse \<lparr>pr_username = row ! 2,
     pr_msgList = [\<lparr>mm_sender = row ! 2, mm_receiver = pl_username p,
       mm_message = fst (env_encrypt env key ivString (row ! 0)),
       mm_decryptMsgLen = word_of_nat (length (row ! 0)), mm_msgNum = 1, mm_totalMsg = 1, mm_time = pl_time p\<rparr>],
     pr_listNum = 1, pr_totalList = 1\<rparr>"

lemma fetch_rows_ok:
  "list_all (\<lambda>row. 4 \<le> length row) rows \<Longrightarrow> fetch_rows f rows =
     (\<lparr>messageDb = messageDb f @ map (\<lambda>row. row ! 0) rows, senderDb = senderDb f @ map (\<lambda>row. row ! 2) rows,
       timeDb = timeDb f @ map (\<lambda>row. row ! 3) rows\<rparr>, True)"
  by (induction rows arbitrary: f) (simp_all add: getString_def Let_def)

definition fetched_from :: "bytes list list \<Rightarrow> fetched" where
  "fetched_from rows = \<lparr>messageDb = map (\<lambda>row. row ! 0) rows, senderDb = map (\<lambda>row. row ! 2) rows,
     timeDb = map (\<lambda>row. row ! 3) rows\<rparr>"

lemma poll_answer_reply:
  assumes key: "length key = 16" and i: "i < length rows" and row: "row_ok env key (rows ! i)"
    and p: "validUsername (pl_username p)" "validPositiveNum (pl_time p)" and s: "validPositiveNum stale"
  shows "poll_answer env key p (fetched_from rows) stale i = Inr (reply env key p (rows ! i))"
proof -
  have one: "validPositiveNum (1 :: cint)" by (simp add: validPositiveNum_def)
  have n: "sint (word_of_nat (length (rows ! i ! 0)) :: clong) \<le> MAX_MESSAGE_LENGTH"
    using row by (simp add: row_ok_def sint_word_of_nat64 MAX_MESSAGE_LENGTH_def)
  have "SPChatMsgMessage_new stale (rows ! i ! 2) (pl_username p)
      (fst (env_encrypt env key ivString (rows ! i ! 0))) (word_of_nat (length (rows ! i ! 0))) 1 1 (pl_time p)
    = Inr \<lparr>mm_sender = rows ! i ! 2, mm_receiver = pl_username p,
       mm_message = fst (env_encrypt env key ivString (rows ! i ! 0)),
       mm_decryptMsgLen = word_of_nat (length (rows ! i ! 0)), mm_msgNum = 1, mm_totalMsg = 1, mm_time = pl_time p\<rparr>"
    using row p s one n by (simp add: mm_new_iff row_ok_def)
  then show ?thesis
    using row p one i by (simp add: poll_answer_def fetched_from_def rd_in aes_defined [OF key] pl_getTime_def
        SPChatPollResponse_new_def pr_setUsername_def pr_setListNum_def pr_setTotalList_def pr_setMsgList_def
        pr_uninit_def reply_def row_ok_def)
qed

lemma reply_sendable:
  assumes row: "row_ok env key row" and p: "validUsername (pl_username p)" "length (pl_username p) < 2 ^ 28"
      "validPositiveNum (pl_time p)"
  shows "msg_sendable (reply env key p row)" and "length (encode e [] (reply env key p row)) < 2 ^ 31"
proof -
  have one: "validPositiveNum (1 :: cint)" by (simp add: validPositiveNum_def)
  have n: "sint (word_of_nat (length (row ! 0)) :: clong) \<le> MAX_MESSAGE_LENGTH"
    using row by (simp add: row_ok_def sint_word_of_nat64 MAX_MESSAGE_LENGTH_def)
  show "msg_sendable (reply env key p row)"
    using row p one n by (simp add: reply_def pr_valid_def mm_valid_def row_ok_def ok_string_def)
  have "length (pr_encodeMiddle e [] m) = 16 + length (pr_username m) +
      length (concat (map (encodeMessage e []) (pr_msgList m)))" for m
    by (simp add: pr_middle encodeMsgList_append [of e "[]"])
  then show "length (encode e [] (reply env key p row)) < 2 ^ 31"
    using row p by (simp add: encode_frame reply_def length_encodeMessage row_ok_def)
qed

lemma leads_answers:
  assumes key: "length key = 16" and rows: "list_all (row_ok env key) rows"
    and p: "validUsername (pl_username p)" "length (pl_username p) < 2 ^ 28" "validPositiveNum (pl_time p)"
    and s: "\<And>t i. validPositiveNum (env_stale env t i)"
  shows "i \<le> length rows \<Longrightarrow> leads (inp, tr, c, d)
    (answer_loop env key p (fetched_from rows) [i..<length rows]) ()
    (inp, tr @ map (\<lambda>row. Sent (reply env key p row)) (drop i rows), c, d)"
proof (induction "length rows - i" arbitrary: i tr)
  case 0
  then show ?case by (simp add: leads_ret)
next
  case (Suc m)
  then have i: "i < length rows" by simp
  have row: "row_ok env key (rows ! i)" using rows i by (simp add: list_all_length)
  have IH: "leads (inp, tr @ [Sent (reply env key p (rows ! i))], c, d)
      (answer_loop env key p (fetched_from rows) [Suc i..<length rows]) ()
      (inp, (tr @ [Sent (reply env key p (rows ! i))]) @
        map (\<lambda>row. Sent (reply env key p row)) (drop (Suc i) rows), c, d)"
    by (rule Suc.hyps(1)) (use Suc.hyps(2) i in auto)
  have "leads (inp, tr, c, d) (abind (lift_res (poll_answer env key p (fetched_from rows) x i)) (\<lambda>m.
      abind (send_message env m) (\<lambda>_. answer_loop env key p (fetched_from rows) [Suc i..<length rows]))) ()
      (inp, tr @ map (\<lambda>row. Sent (reply env key p row)) (drop i rows), c, d)"
    if "validPositiveNum x" for x
    by (rule leads_bind [OF leads_lift [OF poll_answer_reply [OF key i row p(1,3) that]]],
        rule leads_bind [OF leads_send [OF reply_sendable [OF row p]]])
      (use IH i in \<open>simp add: Cons_nth_drop_Suc [symmetric]\<close>)
  then show ?case
    using i s unfolding leads_def by (simp add: upt_conv_Cons del: lift_abind)
qed

lemma leads_poll:
  assumes key: "length key = 16" and rows: "list_all (row_ok env key) rows"
    and p: "validUsername (pl_username p)" "length (pl_username p) < 2 ^ 28" "validPositiveNum (pl_time p)"
    and s: "\<And>t i. validPositiveNum (env_stale env t i)"
    and db: "db_connect (env_dbms env) d = (True, d1)"
      "db_query (env_dbms env) SELECT_MESSAGES [seconds_string (pl_time p), pl_username p] d1 = ((rows, ok), d2)"
  shows "leads (inp, tr, c, d) (handle_poll env (pl_username p) key p) ()
    (inp, tr @ Query SELECT_MESSAGES [seconds_string (pl_time p), pl_username p] rows #
       map (\<lambda>row. Sent (reply env key p row)) rows, c, d2)"
  unfolding leads_def
proof (intro allI impI)
  let ?q = "Query SELECT_MESSAGES [seconds_string (pl_time p), pl_username p] rows"
  fix w assume w: "stands (inp, tr, c, d) w"
  let ?w = "log_event ?q (w\<lparr>w_db := d2\<rparr>)"
  have cols: "list_all (\<lambda>row. 4 \<le> length row) rows" using rows by (auto simp: row_ok_def list_all_iff)
  have f: "fetch_messages env (pl_time p) (pl_username p) w = (fetched_from rows, ?w)"
    using db w fetch_rows_ok [OF cols] by (simp add: fetch_messages_def sql_connect_def sql_query_def stands_def
        fetched_from_def nothing_fetched_def log_event_def)
  have st: "stands (inp, tr @ [?q], c, d2) ?w" using w by (simp add: stands_def log_event_def)
  from leadsD [OF leads_answers [OF key rows p s, of 0 inp "tr @ [?q]" c d2, OF le0] st]
  show "\<exists>w'. handle_poll env (pl_username p) key p w = (Next (), w') \<and>
      stands (inp, tr @ ?q # map (\<lambda>row. Sent (reply env key p row)) rows, c, d2) w'"
    using p by (simp add: handle_poll_def pl_getTime_def f, simp add: fetched_from_def)
qed

section \<open>A posted message\<close>

text \<open>A connector on which every statement of the storing block works.\<close>

definition storing_works ::
  "'d env \<Rightarrow> bytes \<Rightarrow> SPChatMsgMessage \<Rightarrow> bytes list list \<Rightarrow> bytes list list \<Rightarrow> bytes list list \<Rightarrow> 'd \<Rightarrow> 'd \<Rightarrow> bool" where
  "storing_works env t m r1 r2 r3 d d' \<longleftrightarrow> (\<exists>d1 d2 d3 d4 d5. let db = env_dbms env in
     db_connect db d = (True, d1) \<and> db_update db INSERT_MESSAGE [t] d1 = (True, d2) \<and>
     db_query db SELECT_USER_ID [mm_sender m] d2 = ((r1, True), d3) \<and> snd (last_string [] r1) \<and>
     db_query db SELECT_USER_ID [mm_receiver m] d3 = ((r2, True), d4) \<and> snd (last_string [] r2) \<and>
     db_query db SELECT_MESSAGE_ID [t] d4 = ((r3, True), d5) \<and> snd (last_string [] r3) \<and>
     db_update db INSERT_TRANSACTION [fst (last_string [] r1), fst (last_string [] r2),
       fst (last_string [] r3), seconds_string (mm_time m)] d5 = (True, d'))"

definition storing_trace ::
  "bytes \<Rightarrow> SPChatMsgMessage \<Rightarrow> bytes list list \<Rightarrow> bytes list list \<Rightarrow> bytes list list \<Rightarrow> event list" where
  "storing_trace t m r1 r2 r3 =
     [Update INSERT_MESSAGE [t], Query SELECT_USER_ID [mm_sender m] r1,
      Query SELECT_USER_ID [mm_receiver m] r2, Query SELECT_MESSAGE_ID [t] r3,
      Update INSERT_TRANSACTION [fst (last_string [] r1), fst (last_string [] r2),
        fst (last_string [] r3), seconds_string (mm_time m)]]"

lemma store_message_ok:
  assumes "storing_works env t m r1 r2 r3 d d'" and "stands (i, tr, c, d) w"
  shows "stands (i, tr @ storing_trace t m r1 r2 r3, c, d')
    (store_message env t (mm_sender m) (mm_receiver m) (mm_time m) w)"
proof -
  have sel: "select_id env sql p w0 = (Some (fst (last_string [] rows)), log_event (Query sql [p] rows) (w0\<lparr>w_db := e\<rparr>))"
    if "db_query (env_dbms env) sql [p] (w_db w0) = ((rows, True), e)" "snd (last_string [] rows)"
    for sql p rows e and w0 :: "'a world"
    using that by (simp add: select_id_def sql_query_def split_beta)
  from assms show ?thesis
    by (auto simp: storing_works_def storing_trace_def Let_def stands_def store_message_def sql_connect_def
        sql_update_def sel log_event_def)
qed

lemma leads_post:
  assumes key: "length key = 16" and ms: "pr_msgList pr = m # ms"
    and db: "storing_works env (posted_text env key (m # ms)) m r1 r2 r3 d d'"
  shows "leads (i, tr, c, d) (handle_post env (mm_sender m) key pr) ()
    (i, tr @ storing_trace (posted_text env key (m # ms)) m r1 r2 r3, c, d')"
  unfolding leads_def
proof (intro allI impI)
  fix w assume w: "stands (i, tr, c, d) w"
  have "decrypt_loop env key [] (pr_msgList pr) = Inr (posted_text env key (m # ms))"
    by (simp add: decrypt_loop_eq [OF key] ms del: decrypt_loop.simps)
  moreover have "rd (pr_msgList pr) 0 = Inr m" by (simp add: rd_def ms)
  ultimately show "\<exists>w'. handle_post env (mm_sender m) key pr w = (Next (), w') \<and>
      stands (i, tr @ storing_trace (posted_text env key (m # ms)) m r1 r2 r3, c, d') w'"
    using store_message_ok [OF db w] by (simp add: handle_post_def)
qed

end
