(* ===== verification/ChatStore.thy ===== *)
theory ChatStore
  imports Rounds
begin

text \<open>
  From one client's post to another client's poll. The locale \<open>chat_database\<close> is the contract
  of the MySQL server for the statements of \<open>mockServer/MockServer.cpp\<close>, stated over the three
  tables they use; inside it, the storing block and the poll query are shown to be a write and
  a read of the receiver's inbox. The interpretation is on tables kept in memory.
\<close>

section \<open>The contract\<close>

text \<open>
  A parameter compared with a number counts as the \<open>number\<close> its digits denote.
  \<open>uid\<close>: the \<open>user_id\<close> of an email in \<open>login\<close>. \<open>texts\<close>: identifier and text of the rows of
  \<open>messages\<close>. \<open>filed\<close>: the rows of \<open>transactions\<close> (sender, receiver, message, and the argument
  of \<open>from_unixtime\<close>). \<open>inbox\<close> is the join that the poll query computes.
\<close>

type_synonym transaction = "bytes \<times> bytes \<times> bytes \<times> bytes"

definition inbox ::
  "(bytes \<Rightarrow> bytes option) \<Rightarrow> (bytes \<times> bytes) set \<Rightarrow> transaction set \<Rightarrow> bytes \<Rightarrow> nat \<Rightarrow> (bytes \<times> bytes) set" where
  "inbox uid texts filed u n = {(t, e). \<exists>s r m x. (s, r, m, x) \<in> filed \<and> (m, t) \<in> texts \<and>
     uid u = Some r \<and> uid e = Some s \<and> n < number x}"

lemma last_string_rows:
  "rows \<noteq> [] \<Longrightarrow> set rows \<subseteq> {[i] | i. P i} \<Longrightarrow> snd (last_string x rows) \<and> P (fst (last_string x rows))"
proof -
  have "snd (last_string x rows) \<and> (rows \<noteq> [] \<longrightarrow> P (fst (last_string x rows)))"
    if "set rows \<subseteq> {[i] | i. P i}" for x and rows :: "bytes list list"
    using that
  proof (induction rows arbitrary: x)
    case (Cons row rows)
    then obtain i where i: "row = [i]" "P i" by auto
    with Cons show ?case by (cases rows) (auto simp: getString_def)
  qed simp
  then show "rows \<noteq> [] \<Longrightarrow> set rows \<subseteq> {[i] | i. P i} \<Longrightarrow> snd (last_string x rows) \<and> P (fst (last_string x rows))"
    by blast
qed

locale chat_database =
  fixes db :: "'d dbms"
    and good :: "'d \<Rightarrow> bool"
    and uid :: "'d \<Rightarrow> bytes \<Rightarrow> bytes option"
    and texts :: "'d \<Rightarrow> (bytes \<times> bytes) set"
    and filed :: "'d \<Rightarrow> transaction set"
  assumes connect: "good d \<Longrightarrow> \<exists>d'. db_connect db d = (True, d') \<and>
      good d' \<and> uid d' = uid d \<and> texts d' = texts d \<and> filed d' = filed d"
    and insert_message: "good d \<Longrightarrow> \<exists>d' i. db_update db INSERT_MESSAGE [t] d = (True, d') \<and>
      good d' \<and> uid d' = uid d \<and> texts d' = insert (i, t) (texts d) \<and> filed d' = filed d"
    and select_user: "good d \<Longrightarrow> uid d u = Some i \<Longrightarrow> \<exists>d'. db_query db SELECT_USER_ID [u] d = (([[i]], True), d') \<and>
      good d' \<and> uid d' = uid d \<and> texts d' = texts d \<and> filed d' = filed d"
    and select_message: "good d \<Longrightarrow> \<exists>d' rows. db_query db SELECT_MESSAGE_ID [t] d = ((rows, True), d') \<and>
      set rows = {[i] | i. (i, t) \<in> texts d} \<and>
      good d' \<and> uid d' = uid d \<and> texts d' = texts d \<and> filed d' = filed d"
    and insert_transaction: "good d \<Longrightarrow> \<exists>d'. db_update db INSERT_TRANSACTION [s, r, m, x] d = (True, d') \<and>
      good d' \<and> uid d' = uid d \<and> texts d' = texts d \<and> filed d' = insert (s, r, m, x) (filed d)"
    and select_messages: "good d \<Longrightarrow> \<exists>d' rows. db_query db SELECT_MESSAGES [n, u] d = ((rows, True), d') \<and>
      (\<forall>row \<in> set rows. length row = 4 \<and> row ! 1 = u) \<and>
      (\<lambda>row. (row ! 0, row ! 2)) ` set rows = inbox (uid d) (texts d) (filed d) u (number n) \<and>
      good d' \<and> uid d' = uid d \<and> texts d' = texts d \<and> filed d' = filed d"
begin

text \<open>The storing block files the text for the receiver, with the time in seconds.\<close>

lemma store_files:
  assumes "env_dbms env = db" and "good d" and "uid d (mm_sender m) = Some s" and "uid d (mm_receiver m) = Some r"
  shows "\<exists>r1 r2 r3 d'. storing_works env t m r1 r2 r3 d d' \<and> good d' \<and> uid d' = uid d \<and>
    (\<exists>i. texts d' = insert (i, t) (texts d)) \<and>
    (\<exists>k. (k, t) \<in> texts d' \<and> filed d' = insert (s, r, k, seconds_string (mm_time m)) (filed d))"
proof -
  obtain d1 where d1: "db_connect db d = (True, d1)" "good d1" "uid d1 = uid d" "texts d1 = texts d" "filed d1 = filed d"
    using connect [OF assms(2)] by blast
  obtain d2 i where d2: "db_update db INSERT_MESSAGE [t] d1 = (True, d2)" "good d2" "uid d2 = uid d"
    "texts d2 = insert (i, t) (texts d)" "filed d2 = filed d"
    using insert_message [OF d1(2), of t] d1 by auto
  obtain d3 where d3: "db_query db SELECT_USER_ID [mm_sender m] d2 = (([[s]], True), d3)" "good d3" "uid d3 = uid d"
    "texts d3 = texts d2" "filed d3 = filed d"
    using select_user [OF d2(2), of "mm_sender m" s] d2 assms(3) by auto
  obtain d4 where d4: "db_query db SELECT_USER_ID [mm_receiver m] d3 = (([[r]], True), d4)" "good d4" "uid d4 = uid d"
    "texts d4 = texts d2" "filed d4 = filed d"
    using select_user [OF d3(2), of "mm_receiver m" r] d3 assms(4) by auto
  obtain d5 rows where d5: "db_query db SELECT_MESSAGE_ID [t] d4 = ((rows, True), d5)"
    "set rows = {[i] | i. (i, t) \<in> texts d2}" "good d5" "uid d5 = uid d" "texts d5 = texts d2" "filed d5 = filed d"
    using select_message [OF d4(2), of t] d4 by auto
  have "rows \<noteq> []" using d5(2) d2(4) by auto
  from last_string_rows [OF this equalityD1 [OF d5(2)], of "[]"] obtain k where
    k: "last_string [] rows = (k, True)" "(k, t) \<in> texts d2" by (cases "last_string [] rows") auto
  obtain d6 where d6: "db_update db INSERT_TRANSACTION [s, r, k, seconds_string (mm_time m)] d5 = (True, d6)"
    "good d6" "uid d6 = uid d" "texts d6 = texts d2" "filed d6 = insert (s, r, k, seconds_string (mm_time m)) (filed d)"
    using insert_transaction [OF d5(3), of s r k "seconds_string (mm_time m)"] d5 by auto
  have "storing_works env t m [[s]] [[r]] rows d d6"
    unfolding storing_works_def Let_def assms(1)
    using d1(1) d2(1) d3(1) d4(1) d5(1) d6(1) k(1) by (auto simp: getString_def)
  with d6 d2(4) k(2) show ?thesis by blast
qed

lemma poll_reads:
  assumes "env_dbms env = db" and "good d"
  shows "\<exists>d1 rows d2. db_connect (env_dbms env) d = (True, d1) \<and>
    db_query (env_dbms env) SELECT_MESSAGES [n, u] d1 = ((rows, True), d2) \<and>
    (\<forall>row \<in> set rows. length row = 4 \<and> row ! 1 = u) \<and>
    (\<lambda>row. (row ! 0, row ! 2)) ` set rows = inbox (uid d) (texts d) (filed d) u (number n)"
proof -
  obtain d1 where d1: "db_connect db d = (True, d1)" "good d1" "uid d1 = uid d" "texts d1 = texts d" "filed d1 = filed d"
    using connect [OF assms(2)] by blast
  from select_messages [OF d1(2), of n u] d1 show ?thesis unfolding assms(1) by auto
qed

end

section \<open>A store that others use too\<close>

text \<open>
  What one thread can rely on when the database changes under it: no user, text or transaction
  is lost, and a query's answer lies between what was there before and what is there after.
  All texts are \<open>okay\<close>, if one only adds such.
\<close>

definition grown ::
  "('d \<Rightarrow> bool) \<Rightarrow> ('d \<Rightarrow> bytes \<Rightarrow> bytes option) \<Rightarrow> ('d \<Rightarrow> (bytes \<times> bytes) set) \<Rightarrow> ('d \<Rightarrow> transaction set) \<Rightarrow> 'd \<Rightarrow> 'd \<Rightarrow> bool" where
  "grown good uid texts filed d d' \<longleftrightarrow> good d' \<and> uid d' = uid d \<and> texts d \<subseteq> texts d' \<and> filed d \<subseteq> filed d'"

lemma grown_refl: "good d \<Longrightarrow> grown good uid texts filed d d"
  by (simp add: grown_def)

lemma grown_trans: "grown good uid texts filed d d1 \<Longrightarrow> grown good uid texts filed d1 d2 \<Longrightarrow> grown good uid texts filed d d2"
  by (auto simp: grown_def)

lemma inbox_mono: "texts \<subseteq> texts' \<Longrightarrow> filed \<subseteq> filed' \<Longrightarrow> inbox uid texts filed u n \<subseteq> inbox uid texts' filed' u n"
  unfolding inbox_def by blast

locale shared_store =
  fixes db :: "'d dbms"
    and good :: "'d \<Rightarrow> bool"
    and uid :: "'d \<Rightarrow> bytes \<Rightarrow> bytes option"
    and texts :: "'d \<Rightarrow> (bytes \<times> bytes) set"
    and filed :: "'d \<Rightarrow> transaction set"
    and okay :: "bytes \<Rightarrow> bool"
  assumes all_okay: "good d \<Longrightarrow> (i, t) \<in> texts d \<Longrightarrow> okay t"
    and connects: "good d \<Longrightarrow> \<exists>d'. db_connect db d = (True, d') \<and> grown good uid texts filed d d'"
    and message_added: "good d \<Longrightarrow> okay t \<Longrightarrow> \<exists>d' i. db_update db INSERT_MESSAGE [t] d = (True, d') \<and>
      grown good uid texts filed d d' \<and> (i, t) \<in> texts d'"
    and user_found: "good d \<Longrightarrow> uid d u = Some i \<Longrightarrow> \<exists>d'. db_query db SELECT_USER_ID [u] d = (([[i]], True), d') \<and>
      grown good uid texts filed d d'"
    and message_found: "good d \<Longrightarrow> \<exists>d' rows. db_query db SELECT_MESSAGE_ID [t] d = ((rows, True), d') \<and>
      grown good uid texts filed d d' \<and> {[i] | i. (i, t) \<in> texts d} \<subseteq> set rows \<and> set rows \<subseteq> {[i] | i. (i, t) \<in> texts d'}"
    and transaction_added: "good d \<Longrightarrow> \<exists>d'. db_update db INSERT_TRANSACTION [s, r, m, x] d = (True, d') \<and>
      grown good uid texts filed d d' \<and> (s, r, m, x) \<in> filed d'"
    and messages_found: "good d \<Longrightarrow> \<exists>d' rows. db_query db SELECT_MESSAGES [n, u] d = ((rows, True), d') \<and>
      grown good uid texts filed d d' \<and> (\<forall>row \<in> set rows. length row = 4 \<and> row ! 1 = u) \<and>
      inbox (uid d) (texts d) (filed d) u (number n) \<subseteq> (\<lambda>row. (row ! 0, row ! 2)) ` set rows \<and>
      (\<lambda>row. (row ! 0, row ! 2)) ` set rows \<subseteq> inbox (uid d') (texts d') (filed d') u (number n)"
begin

abbreviation grows :: "'d \<Rightarrow> 'd \<Rightarrow> bool" where
  "grows \<equiv> grown good uid texts filed"

lemma growsD: "grows d d' \<Longrightarrow> good d' \<and> uid d' = uid d \<and> texts d \<subseteq> texts d' \<and> filed d \<subseteq> filed d'"
  by (simp add: grown_def)

lemma post_files:
  assumes "env_dbms env = db" and "good d" and "uid d (mm_sender m) = Some s" and "uid d (mm_receiver m) = Some r" and "okay t"
  shows "\<exists>r1 r2 r3 d' k. storing_works env t m r1 r2 r3 d d' \<and> grows d d' \<and>
    (k, t) \<in> texts d' \<and> (s, r, k, seconds_string (mm_time m)) \<in> filed d'"
proof -
  obtain d1 where d1: "db_connect db d = (True, d1)" "grows d d1" using connects [OF assms(2)] by blast
  obtain d2 i where d2: "db_update db INSERT_MESSAGE [t] d1 = (True, d2)" "grows d1 d2" "(i, t) \<in> texts d2"
    using message_added [of d1 t] growsD [OF d1(2)] assms(5) by blast
  obtain d3 where d3: "db_query db SELECT_USER_ID [mm_sender m] d2 = (([[s]], True), d3)" "grows d2 d3"
    using user_found [of d2 "mm_sender m" s] growsD [OF d1(2)] growsD [OF d2(2)] assms(3) by auto
  obtain d4 where d4: "db_query db SELECT_USER_ID [mm_receiver m] d3 = (([[r]], True), d4)" "grows d3 d4"
    using user_found [of d3 "mm_receiver m" r] growsD [OF d1(2)] growsD [OF d2(2)] growsD [OF d3(2)] assms(4) by auto
  obtain d5 rows where d5: "db_query db SELECT_MESSAGE_ID [t] d4 = ((rows, True), d5)" "grows d4 d5"
    "{[i] | i. (i, t) \<in> texts d4} \<subseteq> set rows" "set rows \<subseteq> {[i] | i. (i, t) \<in> texts d5}"
    using message_found [of d4 t] growsD [OF d4(2)] by blast
  have "(i, t) \<in> texts d4" using d2(3) growsD [OF d3(2)] growsD [OF d4(2)] by blast
  then have "rows \<noteq> []" using d5(3) by auto
  from last_string_rows [OF this d5(4), of "[]"] obtain k where
    k: "last_string [] rows = (k, True)" "(k, t) \<in> texts d5" by (cases "last_string [] rows") auto
  obtain d6 where d6: "db_update db INSERT_TRANSACTION [s, r, k, seconds_string (mm_time m)] d5 = (True, d6)"
    "grows d5 d6" "(s, r, k, seconds_string (mm_time m)) \<in> filed d6"
    using transaction_added [of d5 s r k "seconds_string (mm_time m)"] growsD [OF d5(2)] by blast
  have "storing_works env t m [[s]] [[r]] rows d d6"
    unfolding storing_works_def Let_def assms(1)
    using d1(1) d2(1) d3(1) d4(1) d5(1) d6(1) k(1) by (auto simp: getString_def)
  moreover have "grows d d6"
    using grown_trans [OF grown_trans [OF grown_trans [OF grown_trans [OF grown_trans [OF d1(2) d2(2)] d3(2)] d4(2)] d5(2)] d6(2)] .
  moreover have "(k, t) \<in> texts d6" using k(2) growsD [OF d6(2)] by blast
  ultimately show ?thesis using d6(3) by blast
qed

lemma poll_finds:
  assumes "env_dbms env = db" and "good d"
  shows "\<exists>d1 rows d2. db_connect (env_dbms env) d = (True, d1) \<and>
    db_query (env_dbms env) SELECT_MESSAGES [n, u] d1 = ((rows, True), d2) \<and>
    (\<forall>row \<in> set rows. length row = 4 \<and> row ! 1 = u \<and> okay (row ! 0) \<and> uid d (row ! 2) \<noteq> None) \<and>
    inbox (uid d) (texts d) (filed d) u (number n) \<subseteq> (\<lambda>row. (row ! 0, row ! 2)) ` set rows"
proof -
  obtain d1 where d1: "db_connect db d = (True, d1)" "grows d d1" using connects [OF assms(2)] by blast
  obtain d2 rows where d2: "db_query db SELECT_MESSAGES [n, u] d1 = ((rows, True), d2)" "grows d1 d2"
    "\<forall>row \<in> set rows. length row = 4 \<and> row ! 1 = u"
    "inbox (uid d1) (texts d1) (filed d1) u (number n) \<subseteq> (\<lambda>row. (row ! 0, row ! 2)) ` set rows"
    "(\<lambda>row. (row ! 0, row ! 2)) ` set rows \<subseteq> inbox (uid d2) (texts d2) (filed d2) u (number n)"
    using messages_found [of d1 n u] growsD [OF d1(2)] by blast
  have "okay (row ! 0) \<and> uid d (row ! 2) \<noteq> None" if "row \<in> set rows" for row
  proof -
    have "(row ! 0, row ! 2) \<in> inbox (uid d2) (texts d2) (filed d2) u (number n)" using d2(5) that by blast
    then obtain m x where "(m, row ! 0) \<in> texts d2" "uid d2 (row ! 2) = Some x" unfolding inbox_def by blast
    then show ?thesis using all_okay [of d2 m] growsD [OF d2(2)] growsD [OF d1(2)] by simp
  qed
  moreover have "inbox (uid d) (texts d) (filed d) u (number n) \<subseteq> (\<lambda>row. (row ! 0, row ! 2)) ` set rows"
    using d2(4) inbox_mono [of "texts d" "texts d1" "filed d" "filed d1" "uid d" u "number n"] growsD [OF d1(2)] by auto
  ultimately show ?thesis using d1(1) d2(1,3) unfolding assms(1) by blast
qed

end

text \<open>A database that only one thread uses is such a store.\<close>

definition all_good :: "('d \<Rightarrow> bool) \<Rightarrow> ('d \<Rightarrow> (bytes \<times> bytes) set) \<Rightarrow> (bytes \<Rightarrow> bool) \<Rightarrow> 'd \<Rightarrow> bool" where
  "all_good good texts okay d \<longleftrightarrow> good d \<and> (\<forall>(i, t) \<in> texts d. okay t)"

lemma alone_store:
  assumes "chat_database db good uid texts filed"
  shows "shared_store db (all_good good texts okay) uid texts filed okay"
  unfolding all_good_def
proof (unfold_locales, goal_cases)
  case (1 d i t)
  then show ?case by blast
next
  case (2 d)
  then show ?case using chat_database.connect [OF assms, of d] by (fastforce simp: grown_def)
next
  case (3 d t)
  then show ?case using chat_database.insert_message [OF assms, of d t] by (fastforce simp: grown_def)
next
  case (4 d u i)
  then show ?case using chat_database.select_user [OF assms, of d u i] by (fastforce simp: grown_def)
next
  case (5 d t)
  then show ?case using chat_database.select_message [OF assms, of d t] by (fastforce simp: grown_def)
next
  case (6 d s r m x)
  then show ?case using chat_database.insert_transaction [OF assms, of d s r m x] by (fastforce simp: grown_def)
next
  case (7 d n u)
  then show ?case using chat_database.select_messages [OF assms, of d n u] by (fastforce simp: grown_def)
qed

section \<open>Post and poll\<close>

text \<open>What the poll handler needs of the stored texts and of the senders.\<close>

definition deliverable :: "'d env \<Rightarrow> bytes \<Rightarrow> bytes \<Rightarrow> bool" where
  "deliverable env key t \<longleftrightarrow> length t \<le> 500 \<and> length (fst (env_encrypt env key ivString t)) < 2 ^ 28"

lemma seconds_number: "0 \<le> sint t \<Longrightarrow> number (seconds_string t) = nat (sint t div 1000)"
  using seconds_string_value [of t] unfolding number_def by blast

lemma reply_decrypts:
  assumes "cbc_inverse (env_encrypt env) (env_decrypt env)" and "length key = 16"
  shows "\<exists>e. reply env key p row = MPollResponse \<lparr>pr_username = row ! 2, pr_msgList = [e], pr_listNum = 1, pr_totalList = 1\<rparr> \<and>
    mm_sender e = row ! 2 \<and> mm_receiver e = pl_username p \<and>
    aesDecrypt (env_decrypt env) (mm_message e) key ivString [] = Inr (row ! 0)"
  using assms by (simp add: reply_def aes_defined cbc_inverse_def)

lemma post_then_poll_reply:
  assumes db: "shared_store (env_dbms env) good uid texts filed okay" "env_dbms env' = env_dbms env" "good d"
    and users: "uid d (mm_sender m) = Some s" "uid d (mm_receiver m) = Some r"
      "\<forall>u. uid d u \<noteq> None \<longrightarrow> validUsername u \<and> length u < 2 ^ 28"
    and keys: "length key = 16" "length key' = 16"
    and post: "pr_msgList pr = m # ms" "posted_text env key (m # ms) = t"
    and fits: "okay t" "\<forall>x. okay x \<longrightarrow> deliverable env' key' x"
    and poll: "pl_username p = mm_receiver m" "0 \<le> sint (pl_time p)" "sint (pl_time p) div 1000 < sint (mm_time m) div 1000"
    and stale: "\<And>j i. validPositiveNum (env_stale env' j i)"
    and w: "stands (inp, tr, c, d) w"
  shows "\<exists>w' d'. handle_post env (mm_sender m) key pr w = (Next (), w') \<and> w_db w' = d' \<and> grown good uid texts filed d d' \<and>
    (\<forall>inp2 tr2 c2 v. stands (inp2, tr2, c2, d') v \<longrightarrow>
      (\<exists>v' row. handle_poll env' (mm_receiver m) key' p v = (Next (), v') \<and>
        row ! 0 = t \<and> row ! 2 = mm_sender m \<and> row_ok env' key' row \<and>
        Sent (reply env' key' p row) \<in> set (drop (length tr2) (w_trace v'))))"
proof -
  obtain r1 r2 r3 d' k where st: "storing_works env t m r1 r2 r3 d d'" "grown good uid texts filed d d'"
    "(k, t) \<in> texts d'" "(s, r, k, seconds_string (mm_time m)) \<in> filed d'"
    using shared_store.post_files [OF db(1) refl db(3) users(1,2) fits(1)] by blast
  have d': "good d'" "uid d' = uid d" using st(2) by (simp_all add: grown_def)
  obtain w' where w': "handle_post env (mm_sender m) key pr w = (Next (), w')" "w_db w' = d'"
    using leadsD [OF leads_post [OF keys(1) post(1) st(1) [folded post(2)]] w] by (auto simp: stands_def)
  have "shared_store (env_dbms env') good uid texts filed okay" using db(1,2) by simp
  from shared_store.poll_finds [OF this refl d'(1), of "seconds_string (pl_time p)" "pl_username p"]
  obtain d1 rows d2 where q: "db_connect (env_dbms env') d' = (True, d1)"
    "db_query (env_dbms env') SELECT_MESSAGES [seconds_string (pl_time p), pl_username p] d1 = ((rows, True), d2)"
    and cols: "\<forall>row \<in> set rows. length row = 4 \<and> row ! 1 = pl_username p \<and> okay (row ! 0) \<and> uid d' (row ! 2) \<noteq> None"
    and rows: "inbox (uid d') (texts d') (filed d') (pl_username p) (number (seconds_string (pl_time p)))
      \<subseteq> (\<lambda>row. (row ! 0, row ! 2)) ` set rows" by blast
  have row_ok: "row_ok env' key' row" if "row \<in> set rows" for row
    using cols [rule_format, OF that] users(3) [rule_format, of "row ! 2"] fits(2) d'(2)
    by (auto simp: row_ok_def deliverable_def)
  then have oks: "list_all (row_ok env' key') rows" by (simp add: list_all_iff)
  have sec: "0 \<le> sint (pl_time p) div 1000" using poll(2) by (simp add: pos_imp_zdiv_nonneg_iff)
  then have "0 \<le> sint (mm_time m) div 1000" using poll(3) by linarith
  then have "0 \<le> sint (mm_time m)" by (simp add: pos_imp_zdiv_nonneg_iff)
  then have "number (seconds_string (pl_time p)) < number (seconds_string (mm_time m))"
    using poll(2,3) sec by (simp only: seconds_number nat_less_eq_zless)
  then have "(t, mm_sender m) \<in> inbox (uid d') (texts d') (filed d') (pl_username p) (number (seconds_string (pl_time p)))"
    using st(3,4) d'(2) users(1,2) poll(1) unfolding inbox_def by auto
  with rows have "(t, mm_sender m) \<in> (\<lambda>row. (row ! 0, row ! 2)) ` set rows" by blast
  then obtain row where "(t, mm_sender m) = (row ! 0, row ! 2)" and "row \<in> set rows" by (rule imageE)
  then have row: "row \<in> set rows" "row ! 0 = t" "row ! 2 = mm_sender m" by (simp_all only: prod.inject)
  have u: "validUsername (pl_username p)" "length (pl_username p) < 2 ^ 28" "validPositiveNum (pl_time p)"
    using users(2) users(3) [rule_format, of "mm_receiver m"] poll(1,2) by (simp_all add: validPositiveNum_def)
  have "\<exists>v' row. handle_poll env' (mm_receiver m) key' p v = (Next (), v') \<and>
        row ! 0 = t \<and> row ! 2 = mm_sender m \<and> row_ok env' key' row \<and>
        Sent (reply env' key' p row) \<in> set (drop (length tr2) (w_trace v'))" if v: "stands (inp2, tr2, c2, d') v" for inp2 tr2 c2 v
  proof -
    from leadsD [OF leads_poll [OF keys(2) oks u stale q] v] obtain v' where
      v': "handle_poll env' (pl_username p) key' p v = (Next (), v')"
        "w_trace v' = tr2 @ Query SELECT_MESSAGES [seconds_string (pl_time p), pl_username p] rows #
          map (\<lambda>row. Sent (reply env' key' p row)) rows" by (auto simp: stands_def)
    have "Sent (reply env' key' p row) \<in> set (drop (length tr2) (w_trace v'))" using row(1) v'(2) by auto
    with v'(1) row(2,3) row_ok [OF row(1)] poll(1) show ?thesis by auto
  qed
  with w' st(2) show ?thesis by blast
qed

lemma post_then_poll:
  assumes db: "chat_database (env_dbms env) good uid texts filed" "env_dbms env' = env_dbms env" "good d"
    and users: "uid d (mm_sender m) = Some s" "uid d (mm_receiver m) = Some r"
      "\<And>u. uid d u \<noteq> None \<Longrightarrow> validUsername u \<and> length u < 2 ^ 28"
    and keys: "length key = 16" "length key' = 16" "cbc_inverse (env_encrypt env') (env_decrypt env')"
    and post: "pr_msgList pr = m # ms" "posted_text env key (m # ms) = t"
    and fits: "deliverable env' key' t" "\<And>i x. (i, x) \<in> texts d \<Longrightarrow> deliverable env' key' x"
    and poll: "pl_username p = mm_receiver m" "0 \<le> sint (pl_time p)" "sint (pl_time p) div 1000 < sint (mm_time m) div 1000"
    and stale: "\<And>j i. validPositiveNum (env_stale env' j i)"
    and w: "stands (inp, tr, c, d) w"
  shows "\<exists>w' d'. handle_post env (mm_sender m) key pr w = (Next (), w') \<and> w_db w' = d' \<and>
    (\<forall>inp2 tr2 c2 v. stands (inp2, tr2, c2, d') v \<longrightarrow>
      (\<exists>v' e. handle_poll env' (mm_receiver m) key' p v = (Next (), v') \<and>
        Sent (MPollResponse \<lparr>pr_username = mm_sender m, pr_msgList = [e], pr_listNum = 1, pr_totalList = 1\<rparr>) \<in> set (drop (length tr2) (w_trace v')) \<and>
        mm_sender e = mm_sender m \<and> mm_receiver e = mm_receiver m \<and>
        aesDecrypt (env_decrypt env') (mm_message e) key' ivString [] = Inr t))"
proof -
  let ?okay = "deliverable env' key'"
  have all: "\<forall>u. uid d u \<noteq> None \<longrightarrow> validUsername u \<and> length u < 2 ^ 28" "all_good good texts ?okay d"
    using db(3) users(3) fits(2) unfolding all_good_def by blast+
  have okay: "\<forall>x. ?okay x \<longrightarrow> deliverable env' key' x" by blast
  from post_then_poll_reply [OF alone_store [OF db(1), of ?okay] db(2) all(2) users(1,2) all(1) keys(1,2) post fits(1) okay poll stale w]
  obtain w' where
    w': "handle_post env (mm_sender m) key pr w = (Next (), w')"
    and polls: "\<And>inp2 tr2 c2 v. stands (inp2, tr2, c2, w_db w') v \<Longrightarrow>
      \<exists>v' row. handle_poll env' (mm_receiver m) key' p v = (Next (), v') \<and>
        row ! 0 = t \<and> row ! 2 = mm_sender m \<and> row_ok env' key' row \<and>
        Sent (reply env' key' p row) \<in> set (drop (length tr2) (w_trace v'))" by blast
  have "\<exists>v' e. handle_poll env' (mm_receiver m) key' p v = (Next (), v') \<and>
      Sent (MPollResponse \<lparr>pr_username = mm_sender m, pr_msgList = [e], pr_listNum = 1, pr_totalList = 1\<rparr>) \<in> set (drop (length tr2) (w_trace v')) \<and>
      mm_sender e = mm_sender m \<and> mm_receiver e = mm_receiver m \<and>
      aesDecrypt (env_decrypt env') (mm_message e) key' ivString [] = Inr t"
    if v: "stands (inp2, tr2, c2, w_db w') v" for inp2 tr2 c2 v
  proof -
    from polls [OF v] obtain v' row where r: "handle_poll env' (mm_receiver m) key' p v = (Next (), v')"
      "row ! 0 = t" "row ! 2 = mm_sender m" "Sent (reply env' key' p row) \<in> set (drop (length tr2) (w_trace v'))" by blast
    from reply_decrypts [OF keys(3,2), of p row] r poll(1) show ?thesis by metis
  qed
  with w' show ?thesis by blast
qed

text \<open>
  The poll query compares whole seconds, strictly: a message filed in the second of the time
  polled for, or before it, is not fetched; the rows are those of the transactions without it.
\<close>

lemma filed_too_early:
  "number x \<le> n \<Longrightarrow> inbox uid texts (insert (s, r, k, x) filed) u n = inbox uid texts filed u n"
  by (auto simp: inbox_def)

lemma post_then_late_poll:
  assumes db: "chat_database (env_dbms env) good uid texts filed" "env_dbms env' = env_dbms env" "good d"
    and users: "uid d (mm_sender m) = Some s" "uid d (mm_receiver m) = Some r"
    and key: "length key = 16" and post: "pr_msgList pr = m # ms"
    and times: "0 \<le> sint (mm_time m)" "sint (mm_time m) div 1000 \<le> sint p div 1000"
    and w: "stands (inp, tr, c, d) w"
  shows "\<exists>w' i. handle_post env (mm_sender m) key pr w = (Next (), w') \<and>
    (\<forall>v. w_db v = w_db w' \<longrightarrow> (\<exists>f v'. fetch_messages env' p u v = (f, v') \<and>
      set (zip (messageDb f) (senderDb f))
        = inbox (uid d) (insert (i, posted_text env key (m # ms)) (texts d)) (filed d) u (number (seconds_string p))))"
proof -
  let ?t = "posted_text env key (m # ms)"
  obtain r1 r2 r3 d' i k where st: "storing_works env ?t m r1 r2 r3 d d'" "good d'" "uid d' = uid d"
    "texts d' = insert (i, ?t) (texts d)" "filed d' = insert (s, r, k, seconds_string (mm_time m)) (filed d)"
    using chat_database.store_files [OF db(1) refl db(3) users, of ?t] by blast
  obtain w' where w': "handle_post env (mm_sender m) key pr w = (Next (), w')" "w_db w' = d'"
    using leadsD [OF leads_post [OF key post st(1)] w] by (auto simp: stands_def)
  have sec: "0 \<le> sint (mm_time m) div 1000" using times(1) by (simp add: pos_imp_zdiv_nonneg_iff)
  then have "0 \<le> sint p div 1000" using times(2) by linarith
  then have "0 \<le> sint p" by (simp add: pos_imp_zdiv_nonneg_iff)
  with times sec have late: "number (seconds_string (mm_time m)) \<le> number (seconds_string p)"
    by (simp add: seconds_number)
  have "\<exists>f v'. fetch_messages env' p u v = (f, v') \<and> set (zip (messageDb f) (senderDb f))
      = inbox (uid d) (insert (i, ?t) (texts d)) (filed d) u (number (seconds_string p))" if v: "w_db v = d'" for v
  proof -
    have "chat_database (env_dbms env') good uid texts filed" using db(1,2) by simp
    from chat_database.poll_reads [OF this refl st(2), of "seconds_string p" u] obtain d1 rows d2 where
      q: "db_connect (env_dbms env') d' = (True, d1)"
        "db_query (env_dbms env') SELECT_MESSAGES [seconds_string p, u] d1 = ((rows, True), d2)"
        "\<forall>row \<in> set rows. length row = 4 \<and> row ! 1 = u"
        "(\<lambda>row. (row ! 0, row ! 2)) ` set rows = inbox (uid d') (texts d') (filed d') u (number (seconds_string p))" by blast
    have f: "fst (fetch_rows nothing_fetched rows) = \<lparr>messageDb = map (\<lambda>row. row ! 0) rows, senderDb = map (\<lambda>row. row ! 2) rows,
        timeDb = map (\<lambda>row. row ! 3) rows\<rparr>"
      using q(3) by (subst fetch_rows_ok) (auto simp: list_all_iff nothing_fetched_def)
    have z: "set (zip (map (\<lambda>row. row ! 0) rows) (map (\<lambda>row. row ! 2) rows)) = (\<lambda>row. (row ! 0, row ! 2)) ` set rows"
      by (simp add: zip_map_map zip_same_conv_map comp_def image_image)
    show ?thesis
      using q(1,2) v z [unfolded q(4) st(3,4,5) filed_too_early [OF late]]
      by (simp add: fetch_messages_def sql_connect_def sql_query_def f)
  qed
  with w' show ?thesis by auto
qed

section \<open>Tables in memory\<close>

text \<open>
  The statements evaluated on lists: an auto-increment identifier for a new message, and the
  join of the poll query. The contract holds as long as no two users share an email.
\<close>

lemma sql_distinct [simp]:
  "SELECT_MESSAGES \<noteq> SELECT_PASSWORD" "SELECT_USER_ID \<noteq> SELECT_PASSWORD" "SELECT_MESSAGE_ID \<noteq> SELECT_PASSWORD"
  "SELECT_USER_ID \<noteq> SELECT_MESSAGES" "SELECT_MESSAGE_ID \<noteq> SELECT_MESSAGES"
  "SELECT_MESSAGE_ID \<noteq> SELECT_USER_ID" "SELECT_MESSAGES \<noteq> SELECT_USER_ID" "SELECT_MESSAGES \<noteq> SELECT_MESSAGE_ID"
  "INSERT_TRANSACTION \<noteq> INSERT_MESSAGE"
  by (simp_all add: sql_defs ascii_def)

record tables =
  t_login :: "(bytes \<times> bytes \<times> bytes) list"
  t_messages :: "(bytes \<times> bytes) list"
  t_transactions :: "transaction list"

definition table_query :: "bytes \<Rightarrow> bytes list \<Rightarrow> tables \<Rightarrow> bytes list list" where
  "table_query sql ps d =
     (if sql = SELECT_PASSWORD then [[pw]. (i, e, pw) \<leftarrow> t_login d, e = ps ! 0]
      else if sql = SELECT_USER_ID then [[i]. (i, e, pw) \<leftarrow> t_login d, e = ps ! 0]
      else if sql = SELECT_MESSAGE_ID then [[i]. (i, t) \<leftarrow> t_messages d, t = ps ! 0]
      else if sql = SELECT_MESSAGES then
        [[t, y, z, x]. (i, t) \<leftarrow> t_messages d, (s, r, m, x) \<leftarrow> t_transactions d, m = i,
           (yi, y, ypw) \<leftarrow> t_login d, yi = r, (zi, z, zpw) \<leftarrow> t_login d, zi = s,
           number (ps ! 0) < number x, y = ps ! 1]
      else [])"

definition table_update :: "bytes \<Rightarrow> bytes list \<Rightarrow> tables \<Rightarrow> tables" where
  "table_update sql ps d =
     (if sql = INSERT_MESSAGE
      then d\<lparr>t_messages := t_messages d @ [(decimal_nat (Suc (length (t_messages d))), ps ! 0)]\<rparr>
      else if sql = INSERT_TRANSACTION
      then d\<lparr>t_transactions := t_transactions d @ [(ps ! 0, ps ! 1, ps ! 2, ps ! 3)]\<rparr>
      else d)"

definition table_dbms :: "tables dbms" where
  "table_dbms = \<lparr>db_connect = \<lambda>d. (True, d), db_query = \<lambda>sql ps d. ((table_query sql ps d, True), d),
     db_update = \<lambda>sql ps d. (True, table_update sql ps d)\<rparr>"

definition emails_unique :: "tables \<Rightarrow> bool" where
  "emails_unique d \<longleftrightarrow> distinct (map (\<lambda>(i, e, pw). e) (t_login d))"

definition table_uid :: "tables \<Rightarrow> bytes \<Rightarrow> bytes option" where
  "table_uid d = map_of (map (\<lambda>(i, e, pw). (e, i)) (t_login d))"

lemma table_uid_iff:
  assumes "emails_unique d"
  shows "table_uid d u = Some i \<longleftrightarrow> (\<exists>pw. (i, u, pw) \<in> set (t_login d))"
proof -
  have "distinct (map fst (map (\<lambda>(i, e, pw). (e, i)) (t_login d)))"
    using assms by (simp add: emails_unique_def comp_def case_prod_unfold)
  then show ?thesis unfolding table_uid_def by (subst map_of_eq_Some_iff) force+
qed

lemma unique_row:
  fixes xs :: "('i \<times> 'e \<times> 'p) list"
  shows "distinct (map (\<lambda>(i, e, pw). e) xs) \<Longrightarrow> (i, u, pw) \<in> set xs \<Longrightarrow> [[j]. (j, e, q) \<leftarrow> xs, e = u] = [[i]]"
proof (induction xs)
  case (Cons x xs)
  have none: "[[j]. (j, e, q) \<leftarrow> ys, e = u] = []" if "u \<notin> (\<lambda>(i, e, pw). e) ` set ys" for ys :: "('i \<times> 'e \<times> 'p) list"
    using that by (induction ys) (auto split: prod.splits)
  show ?case
  proof (cases "x = (i, u, pw)")
    case True
    with Cons.prems(1) none [of xs] show ?thesis by auto
  next
    case False
    then have m: "(i, u, pw) \<in> set xs" using Cons.prems(2) by auto
    obtain j e q where x: "x = (j, e, q)" by (cases x)
    have "e \<noteq> u" using Cons.prems(1) m by (force simp: x)
    with Cons.IH [OF _ m] Cons.prems(1) show ?thesis by (simp add: x)
  qed
qed simp

lemma poll_rows:
  "set (table_query SELECT_MESSAGES [n, u] d) = {[t, u, z, x] | t z x. \<exists>i s r pw zpw.
     (i, t) \<in> set (t_messages d) \<and> (s, r, i, x) \<in> set (t_transactions d) \<and> (r, u, pw) \<in> set (t_login d) \<and>
     (s, z, zpw) \<in> set (t_login d) \<and> number n < number x}"
  by (simp add: table_query_def) fastforce

lemma poll_inbox:
  assumes "emails_unique d"
  shows "(\<lambda>row. (row ! 0, row ! 2)) ` set (table_query SELECT_MESSAGES [n, u] d)
    = inbox (table_uid d) (set (t_messages d)) (set (t_transactions d)) u (number n)" (is "?f ` ?rows = ?inbox")
proof (intro set_eqI iffI)
  fix te assume "te \<in> ?f ` ?rows"
  then obtain row where "te = ?f row" "row \<in> ?rows" by (rule imageE)
  then show "te \<in> ?inbox" unfolding poll_rows inbox_def table_uid_iff [OF assms] by auto blast
next
  fix te assume "te \<in> ?inbox"
  then obtain t e s r m x pw epw where te: "te = (t, e)" and "(s, r, m, x) \<in> set (t_transactions d)"
    "(m, t) \<in> set (t_messages d)" "(r, u, pw) \<in> set (t_login d)" "(s, e, epw) \<in> set (t_login d)" "number n < number x"
    unfolding inbox_def table_uid_iff [OF assms] by auto
  then have "[t, u, e, x] \<in> ?rows" unfolding poll_rows by blast
  then show "te \<in> ?f ` ?rows" by (rule rev_image_eqI) (simp add: te)
qed

interpretation tables: chat_database table_dbms emails_unique table_uid
  "\<lambda>d. set (t_messages d)" "\<lambda>d. set (t_transactions d)"
proof (unfold_locales, goal_cases)
  case (1 d)
  then show ?case by (simp add: table_dbms_def)
next
  case (2 d t)
  then show ?case
    by (auto simp: table_dbms_def table_update_def emails_unique_def table_uid_def intro: exI [of _ "decimal_nat (Suc (length (t_messages d)))"])
next
  case (3 d u i)
  then obtain pw where "(i, u, pw) \<in> set (t_login d)" by (auto simp: table_uid_iff)
  with 3 have "table_query SELECT_USER_ID [u] d = [[i]]"
    by (simp add: table_query_def emails_unique_def unique_row)
  with 3 show ?case by (simp add: table_dbms_def)
next
  case (4 d t)
  have "set (table_query SELECT_MESSAGE_ID [t] d) = {[i] | i. (i, t) \<in> set (t_messages d)}"
    by (auto simp: table_query_def)
  with 4 show ?case by (simp add: table_dbms_def)
next
  case (5 d s r m x)
  then show ?case by (simp add: table_dbms_def table_update_def emails_unique_def table_uid_def)
next
  case (6 d n u)
  have "\<forall>row \<in> set (table_query SELECT_MESSAGES [n, u] d). length row = 4 \<and> row ! 1 = u"
    unfolding poll_rows by auto
  with poll_inbox [OF 6] 6 show ?case by (simp add: table_dbms_def)
qed

end
