(* ===== verification/Interop.thy ===== *)
theory Interop
  imports ClientTurns Server ChatStore
begin

text \<open>
  The two programs together: what the Java client writes is what the C++ server reads and the
  other way round. First the whole login, then a chat message on its way from one client's
  send button to another client's window.
\<close>

section \<open>The login\<close>

text \<open>
  The libraries of both sides agree: the same digest, and the server's key, which the client
  can read, undoes the client's RSA encryption of its symmetric key.
\<close>

definition keys_agree :: "'d env \<Rightarrow> ('k, 'c) jlib \<Rightarrow> bytes \<Rightarrow> SPChatLogin \<Rightarrow> bytes \<Rightarrow> bool" where
  "keys_agree env lib key kl wk \<longleftrightarrow>
     jv_digest lib = env_sha env \<and> server_key_login env = Inr kl \<and>
     (\<exists>pub. jv_parse lib (justKey (string_of (lg_key kl))) = Some pub \<and> jv_wrap lib pub key = Some wk) \<and>
     length wk = 128 \<and> env_rsa env wk = Some key"

text \<open>A host with room for the frames of a login, on which the two memory errors are harmless.\<close>

definition host_ready :: "'d env \<Rightarrow> nat \<Rightarrow> bool" where
  "host_ready env n \<longleftrightarrow> env_good env \<and> host_good (env_host env) \<and> host_endian (env_host env) = LittleEndian \<and>
     340 \<le> max_vla (env_host env) \<and> 16 + int n \<le> max_vla (env_host env) \<and> env_stmt_null env \<and> env_spare env n"

text \<open>The password of the user \<open>u\<close> in the table \<open>login\<close>.\<close>

definition password_stored :: "'d env \<Rightarrow> bytes \<Rightarrow> bytes \<Rightarrow> bytes list list \<Rightarrow> 'd \<Rightarrow> 'd \<Rightarrow> 'd \<Rightarrow> bool" where
  "password_stored env u pw rows d d1 d2 \<longleftrightarrow> db_connect (env_dbms env) d = (True, d1) \<and>
     db_query (env_dbms env) SELECT_PASSWORD [u] d1 = ((rows, True), d2) \<and> last_string [] rows = (pw, True)"

lemma login_receivable:
  assumes h: "host_ready env n" and u: "good_name u"
  shows "receivable env (MLogin (login_of u NO_KEY []))"
    and "is_ascii h' \<Longrightarrow> length h' = 64 \<Longrightarrow> receivable env (MResponse (response_of u h' x))"
    and "length (b k) = 216 \<Longrightarrow> list_all (\<lambda>c. c < 128) (b k) \<Longrightarrow>
      receivable env (MLogin (login_of u ASYMMETRIC_KEY (getBytes (calculateKey (b k)))))"
    and "payload_fits (env_host env) (int (length (getBytes u) + 133))"
proof -
  note d = good_nameD [OF u]
  have fits: "payload_fits (env_host env) (int m)" if "m \<le> 340" for m
    using h that by (simp add: payload_fits_def host_ready_def)
  show "payload_fits (env_host env) (int (length (getBytes u) + 133))" by (rule fits) (use d in simp)
  have "length (encodeMiddle LittleEndian [] (MLogin (login_of u NO_KEY []))) \<le> 340" using d by (simp add: lg_middle login_of_def key_consts)
  then show "receivable env (MLogin (login_of u NO_KEY []))"
    using fits login_frame_none(3) [OF u login_new [OF u, of NONE None]] by (simp add: receivable_def)
  assume r: "is_ascii h'" "length h' = 64"
  have "length (encodeMiddle LittleEndian [] (MResponse (response_of u h' x))) \<le> 340" using d r by (simp add: rs_middle response_of_def)
  then show "receivable env (MResponse (response_of u h' x))" using fits response_frame(2) [OF u r] by (simp add: receivable_def)
next
  note d = good_nameD [OF u]
  assume k: "length (b k) = 216" "list_all (\<lambda>c. c < 128) (b k)"
  have "length (encodeMiddle LittleEndian [] (MLogin (login_of u ASYMMETRIC_KEY (getBytes (calculateKey (b k)))))) \<le> 340"
    using d calculateKey_pem [OF k] by (simp add: lg_middle login_of_def key_consts)
  moreover obtain m where m: "LoginMessage_new b (len u) u ASYMMETRIC (Some k) = Inr m"
    using login_new [OF u, of ASYMMETRIC "Some k" b] by simp
  ultimately show "receivable env (MLogin (login_of u ASYMMETRIC_KEY (getBytes (calculateKey (b k)))))"
    using h login_frame_key(3) [where b = b and k = k, OF u m k] by (simp add: receivable_def payload_fits_def host_ready_def)
qed

lemma client_knows_password:
  assumes h: "host_ready env (length pw)" and p: "password_stored env (getBytes u) (map ucast pw) rows d d1 d2" "pw \<noteq> []"
    and dg: "jv_digest lib = env_sha env"
  shows "knows_password env (getBytes u) (response_of u (hash_of lib (challenge_of env) nonce pw) nonce) rows d d1 d2"
proof -
  have "length (env_sha env x) = 32" for x using h by (simp add: host_ready_def env_good_def)
  then have "getBytes (hash_of lib (challenge_of env) nonce pw) = hex (env_sha env (challenge_of env @ to_bytes 8 nonce @ map ucast pw))"
    unfolding hash_of_def dg by (rule format_digest(3))
  then show ?thesis
    using h p by (simp add: knows_password_def password_stored_def host_ready_def response_of_def)
qed

text \<open>The server on the client's frames: it waits in the chat loop, and has sent what the client read.\<close>

lemma server_handshake:
  fixes lib :: "('k, 'c) jlib" and env :: "'d env"
  assumes h: "host_ready env (length pw)" and f: "fresh_client lib cl" and u: "good_name u" and pw: "pw \<noteq> []"
    and k: "keys_agree env lib (bc_symmetricKey cl) kl wk" and p: "password_stored env (getBytes u) (map ucast pw) rows d d1 d2"
    and now: "env_now env 1 \<le> env_now env 0 + 1000"
    and w: "stands (handshake_output lib cl u pw (challenge_of env) wk, [], 0, d) w" "out (w_sock w) = []"
  shows "\<exists>w' tr. clientConnectStart env (Suc n) w = (Stopped Blocks, w') \<and> w_trace w' = tr \<and>
    (\<exists>l r l2. tr = handshake_trace env l r rows l2 kl (symmetric_login (getBytes u) wk)) \<and>
    out (w_sock w') = handshake_input (challenge_of env) kl"
proof -
  note f' = f [unfolded fresh_client_def] and k' = k [unfolded keys_agree_def] and h' = h [unfolded host_ready_def]
  let ?x = "jv_nonce lib (bc_nonces cl)"
  let ?l = "login_of u NO_KEY []" and ?r = "response_of u (hash_of lib (challenge_of env) ?x pw) ?x"
  let ?l2 = "login_of u ASYMMETRIC_KEY (getBytes (calculateKey (jv_base64 lib (bc_localPublicKey cl))))"
  let ?sl = "symmetric_login (getBytes u) wk"
  have hash: "is_ascii (hash_of lib c x pw)" "length (hash_of lib c x pw) = 64" for c x
    unfolding hash_of_def using f' by (auto intro!: format_digest)
  have un: "lg_username ?l = getBytes u" by (simp add: login_of_def)
  have kn: "knows_password env (lg_username ?l) ?r rows d d1 d2"
    unfolding un by (rule client_knows_password [OF h p pw]) (use k' in simp)
  have s: "stands (encode LittleEndian [] (MLogin ?l) @ encode LittleEndian [] (MResponse ?r) @ encode LittleEndian [] (MLogin ?l2) @
      symmetric_frame (getBytes u) wk @ [], [], 0, d) w"
    using w(1) by (simp add: handshake_output_def)
  have good: "env_good env" "host_good (env_host env)" using h' by simp_all
  have rec: "receivable env (MLogin ?l)" "receivable env (MResponse ?r)" "receivable env (MLogin ?l2)"
    using login_receivable [OF h u] hash f' by auto
  have key: "server_key_login env = Inr kl" "length wk = 128" "env_rsa env wk = Some (bc_symmetricKey cl)" "length (bc_symmetricKey cl) = 16"
    using k' f' by simp_all
  from reaches_chat [OF good rec kn key(1) good_nameD(2) [OF u] key(2) login_receivable(4) [OF h u] key(3,4) s, of "Suc n"]
  obtain w1 where w1: "session env (Suc n) w = chat_loop env (getBytes u) (bc_symmetricKey cl) (env_now env 0 + 1000) (Suc n) w1"
    "stands ([], handshake_trace env ?l ?r rows ?l2 kl ?sl, Suc 0, d2) w1" unfolding un by blast
  have "env_now env (Suc 0) \<le> env_now env 0 + 1000" using now by simp
  from loop_waits [OF w1(2) this, of "getBytes u" "bc_symmetricKey cl" n] w1(1) client_of_session obtain w' where
    w': "clientConnectStart env (Suc n) w = (Stopped Blocks, w')" "w_trace w' = handshake_trace env ?l ?r rows ?l2 kl ?sl" by metis
  have "send_plan (w_sock w) = []" "w_trace w = []" using w(1) by (simp_all add: stands_def)
  from thread_output [OF w'(1) this] have o: "out (w_sock w') = sent_bytes env (handshake_trace env ?l ?r rows ?l2 kl ?sl)"
    using w(2) w'(2) by simp
  have le: "host_endian (env_host env) = LittleEndian" using h' by simp
  have c: "sent_frame env (MChallenge \<lparr>ch_challenge = challenge_of env\<rparr>) = encode LittleEndian [] (MChallenge \<lparr>ch_challenge = challenge_of env\<rparr>)"
    using sent_frame_whole [of "MChallenge \<lparr>ch_challenge = challenge_of env\<rparr>" env] le
    by (simp add: ch_valid_def CHALLENGE_LENGTH_def challenge_of_def encode_frame ch_encodeMiddle_def)
  have a: "sent_frame env (server_ack err) = encode LittleEndian [] (server_ack err)" for err
    using sent_frame_whole [OF ack_sendable length_ack, of env err] le by simp
  note kl = server_key_login_cases [OF key(1)]
  have "lg_sendable kl" using kl by (simp add: lg_sendable_def lg_valid_def key_consts validUsername_def ok_string_def)
  moreover have "length (encode (host_endian (env_host env)) [] (MLogin kl)) < 2 ^ 31"
    using kl by (simp add: encode_frame lg_middle pem_key_def key_consts)
  ultimately have b: "sent_frame env (MLogin kl) = encode LittleEndian [] (MLogin kl)"
    using sent_frame_whole [of "MLogin kl" env] le by simp
  have "out (w_sock w') = handshake_input (challenge_of env) kl"
    unfolding o handshake_trace_def handshake_input_def by (simp add: a b c)
  with w' show ?thesis by blast
qed

section \<open>A message on its way\<close>

text \<open>A poll thread whose time has come writes a poll from the time of its last one.\<close>

lemma poll_turn_ok:
  fixes cl :: "('k, 'c) client" and lib :: "('k, 'c) jlib"
  assumes u: "bc_username cl = Some u" "good_name u" and i: "i < length (bc_pollers cl)"
    and t: "0 \<le> sint (bc_pollers cl ! i)" "sint (bc_pollers cl ! i + WAIT_TIME) < sint (jv_now lib (bc_clock cl))"
      "sint (bc_pollers cl ! i) \<le> sint (jv_now lib (Suc (bc_clock cl)))"
    and s: "send_plan (bc_sock cl) = []"
  shows "poll_turn lib i cl = (Inr (), (written (encode LittleEndian [] (MPoll (poll_of u (bc_pollers cl ! i)))) cl)
    \<lparr>bc_clock := bc_clock cl + 3, bc_pollers := (bc_pollers cl)[i := jv_now lib (bc_clock cl + 2)]\<rparr>)"
proof -
  from poll_frame(1) [OF u(2) t(1,3)] obtain m where
    m: "PollMessage_new (jv_now lib (Suc (bc_clock cl))) (len u) u (bc_pollers cl ! i) = Inr m" "None \<notin> set (jp_encode m)"
      "writes (jp_encode m) = encode LittleEndian [] (MPoll (poll_of u (bc_pollers cl ! i)))" by blast
  let ?cl = "cl\<lparr>bc_clock := Suc (Suc (bc_clock cl))\<rparr>"
  have "send_plan (bc_sock ?cl) = []" using s by simp
  from send_writes_ok [OF this m(2)] show ?thesis
    using u(1) t(2) m(1,3)
    by (simp add: poll_turn_def Let_def tick_def jbind_def pollServer_def catch_babble_def jlift_def written_def)
qed

text \<open>Bytes cut into blocks.\<close>

lemma blocks_exist: "length xs = 16 * n \<Longrightarrow> \<exists>bs. length bs = n \<and> list_all (\<lambda>b. length b = 16) bs \<and> concat bs = xs"
proof (induction n arbitrary: xs)
  case (Suc n)
  then have "length (drop 16 xs) = 16 * n" by simp
  from Suc.IH [OF this] obtain bs where bs: "length bs = n" "list_all (\<lambda>b. length b = 16) bs" "concat bs = drop 16 xs" by blast
  have "length (take 16 xs # bs) = Suc n \<and> list_all (\<lambda>b. length b = 16) (take 16 xs # bs) \<and> concat (take 16 xs # bs) = xs"
    using Suc.prems bs by simp
  then show ?case by blast
qed simp

text \<open>
  The answer to a poll, read by the client of the user it is addressed to: the window shows
  the sender, the text and the date. The frame has arrived in one segment.
\<close>

lemma turn_answer:
  fixes cl :: "('k, 'c) client" and lib :: "('k, 'c) jlib" and env :: "'d env"
  assumes inp: "at_once (encode LittleEndian [] (reply env key (poll_of r t) row) @ rest) (bc_sock cl)"
    and row: "row_ok env key row" "row ! 0 = getBytes msg" "row ! 2 = getBytes u" and msg: "is_ascii msg"
    and u: "good_name u" and r: "good_name r" "bc_username cl = Some r"
    and c: "cbc_cipher (jv_cipher lib) (jv_init lib) (\<lambda>k iv p. fst (env_encrypt env k iv p))"
      "bc_cipherIn cl = Some (fresh_cipher lib False cl)" "bc_symmetricKey cl = key" "length key = 16"
    and t: "0 \<le> sint t" "sint t \<le> sint (jv_now lib (bc_clock cl))"
  shows "\<exists>q. at_once rest (bc_sock (unread_in q cl)) \<and> reader_turn lib cl = (Ready, (unread_in q cl)\<lparr>bc_clock := Suc (bc_clock cl),
    bc_incoming := bc_incoming cl @ jstr ''From: '' @ u @ jv_newline lib @ msg @ jv_newline lib @ jv_date lib t @ jv_newline lib\<rparr>)"
proof -
  note du = good_nameD [OF u] and dr = good_nameD [OF r(1)]
  let ?c = "fst (env_encrypt env key ivString (getBytes msg))"
  let ?m = "\<lparr>mm_sender = getBytes u, mm_receiver = getBytes r, mm_message = ?c, mm_decryptMsgLen = word_of_nat (length msg),
    mm_msgNum = 1, mm_totalMsg = 1, mm_time = t\<rparr>"
  let ?p = "\<lparr>pr_username = getBytes u, pr_msgList = [?m], pr_listNum = 1, pr_totalList = 1\<rparr>"
  have rp: "reply env key (poll_of r t) row = MPollResponse ?p" using row(2,3) msg by (simp add: reply_def poll_of_def)
  have small: "length msg \<le> 500" "length ?c < 2 ^ 28" using row msg by (simp_all add: row_ok_def)
  let ?n = "pr_getPayloadLength ?p"
  let ?f = "fresh_cipher lib False cl"
  have le: "length (pr_encodeMiddle LittleEndian [] ?p) < 2 ^ 31"
    using small du dr by (simp add: pr_middle encodeMsgList_append [of _ "[]"] length_encodeMessage)
  have "sint ?n = int (length (pr_encodeMiddle LittleEndian [] ?p))"
    unfolding pr_payload_length [where e = LittleEndian] using le by (intro sint_word_of_nat64) simp
  then have n: "0 \<le> sint ?n" by simp
  have e: "encode LittleEndian [] (MPollResponse ?p) = frame_header LittleEndian 6 ?n @ pr_encodeMiddle LittleEndian [] ?p"
    by (simp add: encode_frame type_consts)
  have "at_once (frame_header LittleEndian 6 ?n @ (pr_encodeMiddle LittleEndian [] ?p @ rest)) (bc_sock cl)"
    using inp by (simp add: rp e)
  from turn_frame [OF segment.frame_source_axioms this n, of lib] obtain q where
    q: "reader_turn lib cl = turn_result (handle_type lib 6 (unread_in q cl))"
      "at_once (pr_encodeMiddle LittleEndian [] ?p @ rest) (bc_sock (unread_in q cl))" by blast
  note cb = cbc_cipherD [where p = "getBytes msg", OF c(1) c(4) SYM_IV_server(2), unfolded SYM_IV_server(1)]
  from blocks_exist [OF cb(2)] obtain bs where
    bs: "length bs = Suc (length (getBytes msg) div 16)" "list_all (\<lambda>b. length b = 16) bs" "concat bs = ?c" by blast
  have f: "?f = jv_init lib False key ivString" using c(3) by (simp add: fresh_cipher_def SYM_IV_server)
  have rd: "readable (jv_cipher lib) (jv_now lib) (?f, bc_clock cl) ?m (getBytes msg) ?f"
    using small du dr t cb(3) [OF bs(2,3)] bs msg unfolding readable_def f
    by (auto simp: sint_word_of_nat64 intro: exI [of _ bs])
  from segment.take_answer [OF rd, of "getBytes u"] q(2) du obtain q' where
    q': "PollResponseMessage_read (jv_cipher lib) (jv_now lib) (bc_sock (unread_in q cl), ?f, bc_clock cl) =
      (Inr \<lparr>jq_messageLen = 0, jq_usernameLength = word_of_nat (length u), jq_username = string_of (getBytes u),
        jq_messageListSize = 1, jq_listNumber = 1, jq_totalLists = 1, jq_newMessages = [read_of ?m (getBytes msg)]\<rparr>,
       ((bc_sock (unread_in q cl))\<lparr>inq := q'\<rparr>, ?f, Suc (bc_clock cl)))"
      "at_once rest ((bc_sock (unread_in q cl))\<lparr>inq := q'\<rparr>)"
    by (auto simp: takes_in_def)
  have s: "string_of (getBytes u) = u" "string_of (getBytes r) = r" "string_of (getBytes msg) = msg"
    using du(1) dr(1) msg by (simp_all add: string_of_getBytes)
  have "handle_type lib 6 (unread_in q cl) = (Inr (), (unread_in q' cl)\<lparr>bc_clock := Suc (bc_clock cl),
    bc_incoming := bc_incoming cl @ jstr ''From: '' @ u @ jv_newline lib @ msg @ jv_newline lib @ jv_date lib t @ jv_newline lib\<rparr>)"
    using q'(1) c(2) r(2) s
    by (simp add: handle_type_def getMessageType_def handlePollResponse_def unread_in_def shown_message_def read_of_def)
  with q(1) q'(2) show ?thesis by (auto simp: unread_in_def)
qed

section \<open>From button to window\<close>

text \<open>A client that sends under the key of its thread, and one that reads under the key of its thread.\<close>

definition sends_as :: "'d env \<Rightarrow> bytes \<Rightarrow> ('k, 'c) jlib \<Rightarrow> jstring \<Rightarrow> ('k, 'c) client \<Rightarrow> bool" where
  "sends_as env key lib u cl \<longleftrightarrow>
     can_send lib (\<lambda>p. fst (env_encrypt env key ivString p)) cl \<and> bc_cipherOut cl \<in> {None, Some (fresh_cipher lib True cl)} \<and>
     bc_outMsgs cl = [] \<and> bc_username cl = Some u \<and> good_name u \<and> length key = 16 \<and>
     cbc_inverse (env_encrypt env) (env_decrypt env) \<and> host_good (env_host env) \<and> 10000 \<le> max_vla (env_host env)"

definition reads_as :: "'d env \<Rightarrow> bytes \<Rightarrow> ('k, 'c) jlib \<Rightarrow> jstring \<Rightarrow> ('k, 'c) client \<Rightarrow> bool" where
  "reads_as env key lib r cl \<longleftrightarrow>
     cbc_cipher (jv_cipher lib) (jv_init lib) (\<lambda>k iv p. fst (env_encrypt env k iv p)) \<and>
     bc_cipherIn cl = Some (fresh_cipher lib False cl) \<and> bc_symmetricKey cl = key \<and> length key = 16 \<and>
     bc_username cl = Some r \<and> good_name r"

definition shown_text :: "('k, 'c) jlib \<Rightarrow> jstring \<Rightarrow> jstring \<Rightarrow> clong \<Rightarrow> jstring" where
  "shown_text lib u msg t = jstr ''From: '' @ u @ jv_newline lib @ msg @ jv_newline lib @ jv_date lib t @ jv_newline lib"

text \<open>The post of one recipient is a message the server's thread can receive and files under the first element.\<close>

lemma post_receivable:
  assumes s: "sends_as env key lib u cl" and r: "good_name r" and msg: "is_ascii msg" "0 < length msg" "length msg \<le> 500"
  shows "receivable env (MPollResponse (post_of (jv_now lib) (\<lambda>p. fst (env_encrypt env key ivString p)) u msg r k))"
    and "\<exists>m ms. pr_msgList (post_of (jv_now lib) (\<lambda>p. fst (env_encrypt env key ivString p)) u msg r k) = m # ms \<and>
      mm_sender m = getBytes u \<and> mm_receiver m = getBytes r \<and> mm_time m = jv_now lib k \<and>
      posted_text env key (m # ms) = getBytes msg"
proof -
  let ?enc = "\<lambda>p. fst (env_encrypt env key ivString p)"
  let ?post = "post_of (jv_now lib) ?enc u msg r k"
  note s' = s [unfolded sends_as_def]
  have u: "good_name u" and can: "can_send lib ?enc cl" using s' by simp_all
  have e: "\<And>p. length p \<le> 15 \<Longrightarrow> length (?enc p) = 16" by (rule can_send_encoded [OF can])
  have l: "length msg < 2 ^ 31" using msg(3) by simp
  have c: "clock_runs (jv_now lib)" using can by (simp add: can_send_def)
  have "piece_count msg \<le> 34" using msg(3) by (simp add: piece_count_def)
  with post_length [where enc = ?enc and now = "jv_now lib" and k = k, OF u r l e]
  have "length (encodeMiddle LittleEndian [] (MPollResponse ?post)) \<le> 10000" by simp
  then have "payload_fits (env_host env) (int (length (encodeMiddle LittleEndian [] (MPollResponse ?post))))"
    using s' by (simp add: payload_fits_def)
  then show "receivable env (MPollResponse ?post)"
    using post_valid [where enc = ?enc, OF u r l c e] by (simp add: receivable_def)
  have "fst (env_decrypt env key ivString (?enc p)) = p" for p using s' by (simp add: cbc_inverse_def)
  from posted_text_elements [where enc = ?enc, OF this msg(1)] have t: "posted_text env key (pr_msgList ?post) = getBytes msg" .
  have "piece_numbers msg = 1 # [2..<Suc (piece_count msg)]"
    using piece_count_pos [OF msg(2)] by (simp add: piece_numbers_def upt_conv_Cons numeral_2_eq_2 del: upt_Suc)
  with t show "\<exists>m ms. pr_msgList ?post = m # ms \<and> mm_sender m = getBytes u \<and> mm_receiver m = getBytes r \<and> mm_time m = jv_now lib k \<and>
      posted_text env key (m # ms) = getBytes msg"
    by (simp add: post_of_def element_of_def)
qed

text \<open>One round of a server thread's chat loop, behind the look at the clock.\<close>

definition serve_one :: "'d env \<Rightarrow> bytes \<Rightarrow> bytes \<Rightarrow> ('d, unit) act" where
  "serve_one env u key = abind (receive env) (handle_message env u key)"

text \<open>The bytes of a reply among those a round for a poll has sent.\<close>

lemma poll_bytes:
  assumes v: "stands (encode LittleEndian [] (MPoll p) @ i, tr, c, d) v" and rec: "receivable env (MPoll p)"
    and host: "host_good (env_host env)" "host_endian (env_host env) = LittleEndian"
    and row: "row_ok env key row" "validUsername (pl_username p)" "length (pl_username p) < 2 ^ 28" "validPositiveNum (pl_time p)"
    and v1: "receive env v = (Next (MPoll p), v1)" "stands (i, tr @ [Recv (MPoll p)], c, d) v1"
    and v2: "handle_poll env u key p v1 = (Next (), v2)"
      "Sent (reply env key p row) \<in> set (drop (length (tr @ [Recv (MPoll p)])) (w_trace v2))"
  shows "\<exists>before behind. out (w_sock v2) = out (w_sock v) @ before @ encode LittleEndian [] (reply env key p row) @ behind"
proof -
  have "wired env v1 v2" using wire.keepsD [OF wire.poll_kept v2(1)] .
  moreover have t1: "send_plan (w_sock v1) = []" "w_trace v1 = tr @ [Recv (MPoll p)]" using v1(2) by (simp_all add: stands_def)
  ultimately obtain es where es: "w_trace v2 = w_trace v1 @ es" "out (w_sock v2) = out (w_sock v1) @ sent_bytes env es"
    by (auto simp: wired_def)
  have "Sent (reply env key p row) \<in> set es" using v2(2) es(1) t1(2) by simp
  then obtain es1 es2 where es12: "es = es1 @ Sent (reply env key p row) # es2" by (meson split_list)
  have "sent_frame env (reply env key p row) = encode LittleEndian [] (reply env key p row)"
    using sent_frame_whole [of "reply env key p row" env] reply_sendable [OF row] host(2) by simp
  then have "out (w_sock v2) = out (w_sock v1) @ sent_bytes env es1 @ encode LittleEndian [] (reply env key p row) @ sent_bytes env es2"
    by (simp add: es(2) es12)
  moreover have "out (w_sock v1) = out (w_sock v)"
    using wired_receive [OF v1(1)] v t1 by (auto simp: wired_def stands_def)
  ultimately show ?thesis by auto
qed

text \<open>
  \<open>window_shows\<close>: a client of the user \<open>r\<close> that reads the frame \<open>answer\<close> shows the text \<open>msg\<close> from
  \<open>u\<close>. \<open>poll_shows\<close>: on the database \<open>d\<close>, the thread of \<open>r\<close> answers a poll of the time \<open>t\<close> with such
  a frame, among others.
\<close>

definition window_shows :: "'d env \<Rightarrow> bytes \<Rightarrow> ('k, 'c) jlib \<Rightarrow> jstring \<Rightarrow> jstring \<Rightarrow> jstring \<Rightarrow> clong \<Rightarrow> bytes \<Rightarrow> bool" where
  "window_shows env key lib r u msg t answer \<longleftrightarrow>
     (\<forall>b rest. reads_as env key lib r b \<and> sint t \<le> sint (jv_now lib (bc_clock b)) \<and> at_once (answer @ rest) (bc_sock b) \<longrightarrow>
       (\<exists>b'. reader_turn lib b = (Ready, b') \<and> bc_incoming b' = bc_incoming b @ shown_text lib u msg t))"

definition poll_shows :: "'d env \<Rightarrow> bytes \<Rightarrow> ('k, 'c) jlib \<Rightarrow> jstring \<Rightarrow> jstring \<Rightarrow> jstring \<Rightarrow> clong \<Rightarrow> 'd \<Rightarrow> bool" where
  "poll_shows env key lib r u msg t d \<longleftrightarrow>
     (\<forall>i tr c v. stands (encode LittleEndian [] (MPoll (poll_of r t)) @ i, tr, c, d) v \<longrightarrow>
       (\<exists>v' before answer behind. serve_one env (getBytes r) key v = (Next (), v') \<and>
         out (w_sock v') = out (w_sock v) @ before @ answer @ behind \<and> window_shows env key lib r u msg t answer))"

lemma reply_shown:
  assumes "row_ok env key row" "row ! 0 = getBytes msg" "row ! 2 = getBytes u" and "good_name u" "is_ascii msg" "0 \<le> sint t"
  shows "window_shows env key lib r u msg t (encode LittleEndian [] (reply env key (poll_of r t) row))"
  unfolding window_shows_def
proof (intro allI impI, elim conjE)
  fix b rest
  assume b: "reads_as env key lib r b" "sint t \<le> sint (jv_now lib (bc_clock b))"
    "at_once (encode LittleEndian [] (reply env key (poll_of r t) row) @ rest) (bc_sock b)"
  from turn_answer [OF b(3) assms(1,2,3,5,4), of lib] b(1,2) assms(6)
  show "\<exists>b'. reader_turn lib b = (Ready, b') \<and> bc_incoming b' = bc_incoming b @ shown_text lib u msg t"
    by (auto simp: shown_text_def reads_as_def)
qed

lemma reply_reaches_window:
  fixes env :: "'d env" and lib :: "('k, 'c) jlib"
  assumes h: "\<forall>inp tr c v. stands (inp, tr, c, d) v \<longrightarrow> (\<exists>v' row. handle_poll env (getBytes r) key (poll_of r t) v = (Next (), v') \<and>
        row ! 0 = getBytes msg \<and> row ! 2 = getBytes u \<and> row_ok env key row \<and>
        Sent (reply env key (poll_of r t) row) \<in> set (drop (length tr) (w_trace v')))"
    and r: "good_name r" and u: "good_name u" and msg: "is_ascii msg" and t: "0 \<le> sint t"
    and host: "host_good (env_host env)" "host_endian (env_host env) = LittleEndian" "100 \<le> max_vla (env_host env)"
  shows "poll_shows env key lib r u msg t d"
  unfolding poll_shows_def
proof (intro allI impI)
  fix i tr c and v :: "'d world"
  assume v: "stands (encode LittleEndian [] (MPoll (poll_of r t)) @ i, tr, c, d) v"
  have rec: "receivable env (MPoll (poll_of r t))"
    using good_nameD [OF r] t host(3)
    by (simp add: receivable_def poll_of_def pl_valid_def validPositiveNum_def payload_fits_def pl_middle)
  from leadsD [OF leads_receive [OF rec host(1)] v] obtain v1 where v1: "receive env v = (Next (MPoll (poll_of r t)), v1)"
    "stands (i, tr @ [Recv (MPoll (poll_of r t))], c, d) v1" by blast
  from h [rule_format, OF v1(2)] obtain v2 row where v2: "handle_poll env (getBytes r) key (poll_of r t) v1 = (Next (), v2)"
    "row ! 0 = getBytes msg" "row ! 2 = getBytes u" "row_ok env key row"
    "Sent (reply env key (poll_of r t) row) \<in> set (drop (length (tr @ [Recv (MPoll (poll_of r t))])) (w_trace v2))" by blast
  have served: "serve_one env (getBytes r) key v = (Next (), v2)"
    using v1(1) v2(1) by (simp add: serve_one_def abind_def handle_message_def)
  have rp: "validUsername (pl_username (poll_of r t))" "length (pl_username (poll_of r t)) < 2 ^ 28" "validPositiveNum (pl_time (poll_of r t))"
    using good_nameD [OF r] t by (simp_all add: poll_of_def validPositiveNum_def)
  from poll_bytes [OF v rec host(1,2) v2(4) rp v1 v2(1,5)] reply_shown [OF v2(4,2,3) u msg t, of lib r] served
  show "\<exists>v' before answer behind. serve_one env (getBytes r) key v = (Next (), v') \<and>
      out (w_sock v') = out (w_sock v) @ before @ answer @ behind \<and> window_shows env key lib r u msg t answer" by blast
qed

lemma text_travels:
  fixes envA envB :: "'d env" and libA :: "('k, 'c) jlib" and libB :: "('j, 'e) jlib"
  assumes db: "shared_store (env_dbms envA) good uid texts filed okay" "env_dbms envB = env_dbms envA" "good d"
    and users: "uid d (getBytes u) = Some su" "uid d (getBytes r) = Some sr"
      "\<forall>x. uid d x \<noteq> None \<longrightarrow> validUsername x \<and> length x < 2 ^ 28"
    and a: "sends_as envA keyA libA u a" "bc_recipients a = [r]" and r: "good_name r" "length keyB = 16"
    and msg: "is_ascii msg" "0 < length msg" "length msg \<le> 500"
    and fits: "okay (getBytes msg)" "\<forall>x. okay x \<longrightarrow> deliverable envB keyB x"
    and t: "0 \<le> sint t" "sint t div 1000 < sint (jv_now libA (bc_clock a + 2 * piece_count msg)) div 1000"
    and host: "host_good (env_host envB)" "host_endian (env_host envB) = LittleEndian" "100 \<le> max_vla (env_host envB)"
      "\<And>j i. validPositiveNum (env_stale envB j i)"
  shows "\<exists>a' post. send_text libA msg a = (Inr (), a') \<and> out (bc_sock a') = out (bc_sock a) @ post \<and>
    (\<forall>i tr c w. stands (post @ i, tr, c, d) w \<longrightarrow>
      (\<exists>w'. serve_one envA (getBytes u) keyA w = (Next (), w') \<and> poll_shows envB keyB libB r u msg t (w_db w')))"
proof -
  let ?enc = "\<lambda>p. fst (env_encrypt envA keyA ivString p)"
  let ?k = "bc_clock a + 2 * piece_count msg"
  let ?post = "post_of (jv_now libA) ?enc u msg r ?k"
  note a' = a(1) [unfolded sends_as_def]
  have g: "group_header (bc_recipients a) @ msg = msg" by (simp add: a(2) group_header_def)
  have l: "length msg < 7500" "length (group_header (bc_recipients a) @ msg) < 2 ^ 31" "bc_recipients a \<noteq> []"
    "list_all good_name (bc_recipients a)" using msg(3) r(1) a(2) unfolding g by simp_all
  from send_text_ok [where enc = ?enc and msg = msg, OF _ _ l(3,4) msg(2) l(1,2) _ _ _ g [symmetric]] a'
  obtain a2 where a2: "send_text libA msg a = (Inr (), a2)"
    "out (bc_sock a2) = out (bc_sock a) @ encode LittleEndian [] (MPollResponse ?post)"
    by (simp add: a(2) frames_of_def)
  from post_receivable [OF a(1) r(1) msg, of ?k] obtain m ms where
    p: "receivable envA (MPollResponse ?post)" "pr_msgList ?post = m # ms" "mm_sender m = getBytes u" "mm_receiver m = getBytes r"
      "mm_time m = jv_now libA ?k" "posted_text envA keyA (m # ms) = getBytes msg" by blast
  have A: "\<exists>w1. receive envA w = (Next (MPollResponse ?post), w1) \<and> stands (i, tr @ [Recv (MPollResponse ?post)], c, d) w1"
    if "stands (encode LittleEndian [] (MPollResponse ?post) @ i, tr, c, d) w" for i tr c and w :: "'d world"
    using leadsD [OF leads_receive [OF p(1)] that] a' by simp
  have su: "uid d (mm_sender m) = Some su" "uid d (mm_receiver m) = Some sr" using users p(3,4) by simp_all
  have keyA: "length keyA = 16" using a' by simp
  have poll: "pl_username (poll_of r t) = mm_receiver m" "0 \<le> sint (pl_time (poll_of r t))"
    "sint (pl_time (poll_of r t)) div 1000 < sint (mm_time m) div 1000" using t p(4,5) by (simp_all add: poll_of_def)
  have stale: "\<And>j i. validPositiveNum (env_stale envB j i)" using host(4) .
  have "\<exists>w'. serve_one envA (getBytes u) keyA w = (Next (), w') \<and> poll_shows envB keyB libB r u msg t (w_db w')"
    if w: "stands (encode LittleEndian [] (MPollResponse ?post) @ i, tr, c, d) w" for i tr c and w :: "'d world"
  proof -
    from A [OF w] obtain w1 where w1: "receive envA w = (Next (MPollResponse ?post), w1)"
      "stands (i, tr @ [Recv (MPollResponse ?post)], c, d) w1" by blast
    from post_then_poll_reply [OF db su users(3) keyA r(2) p(2,6) fits poll stale w1(2)] obtain w2 where
      w2: "handle_post envA (mm_sender m) keyA ?post w1 = (Next (), w2)"
      and polls: "\<forall>inp2 tr2 c2 v. stands (inp2, tr2, c2, w_db w2) v \<longrightarrow> (\<exists>v' row. handle_poll envB (mm_receiver m) keyB (poll_of r t) v = (Next (), v') \<and>
        row ! 0 = getBytes msg \<and> row ! 2 = mm_sender m \<and> row_ok envB keyB row \<and>
        Sent (reply envB keyB (poll_of r t) row) \<in> set (drop (length tr2) (w_trace v')))" by auto
    have "serve_one envA (getBytes u) keyA w = (Next (), w2)"
      using w1(1) w2 p(3) by (simp add: serve_one_def abind_def handle_message_def)
    moreover have "good_name u" using a' by simp
    ultimately show ?thesis
      using reply_reaches_window [OF polls [unfolded p(3,4)] r(1) _ msg(1) t(1) host(1-3)] by blast
  qed
  with a2 show ?thesis by blast
qed

text \<open>The \<open>i\<close>-th poll thread of the client of \<open>r\<close> last polled at the time \<open>t\<close>, and its time has come.\<close>

definition polls_at :: "('k, 'c) jlib \<Rightarrow> jstring \<Rightarrow> clong \<Rightarrow> nat \<Rightarrow> ('k, 'c) client \<Rightarrow> bool" where
  "polls_at lib r t i cl \<longleftrightarrow> bc_username cl = Some r \<and> i < length (bc_pollers cl) \<and> bc_pollers cl ! i = t \<and>
     sint (t + WAIT_TIME) < sint (jv_now lib (bc_clock cl)) \<and> sint t \<le> sint (jv_now lib (Suc (bc_clock cl))) \<and>
     send_plan (bc_sock cl) = []"

lemma poll_written:
  fixes cl :: "('k, 'c) client"
  assumes "polls_at lib r t i cl" and "good_name r" and "0 \<le> sint t"
  shows "\<exists>cl'. poll_turn lib i cl = (Inr (), cl') \<and> out (bc_sock cl') = out (bc_sock cl) @ encode LittleEndian [] (MPoll (poll_of r t)) \<and>
    bc_pollers cl' = (bc_pollers cl)[i := jv_now lib (bc_clock cl + 2)]"
  using poll_turn_ok [of cl r i lib] assms by (simp add: polls_at_def written_def)

end
