(* ===== verification/ShortRead.thy ===== *)
theory ShortRead
  imports Interop
begin

text \<open>
  An answer that does not arrive in one piece. \<open>MsgMessage(InputStream, Cipher)\<close> calls
  \<open>ds.read(chunk)\<close> and does not look at how many bytes it got: when the stream is cut inside a
  block of the cipher text, the client decrypts the front of the block with zeros behind it and
  reads the rest of the block as the length of the text.
\<close>

section \<open>A stream cut in two\<close>

text \<open>The last \<open>t\<close> bytes to come are a segment of their own, as long as more than these are unread.\<close>

definition cut_before :: "nat \<Rightarrow> bytes \<Rightarrow> sock \<Rightarrow> bool" where
  "cut_before t bs s \<longleftrightarrow> pending s = bs \<and>
     (t < length bs \<longrightarrow> inq s = [take (length bs - t) bs, drop (length bs - t) bs])"

interpretation cut: frame_source "cut_before t" for t
proof
  fix bs :: bytes and n assume n: "length bs = n"
  show "takes (cut_before t) (readFully n) bs bs"
    unfolding takes_def
  proof (intro allI impI)
    fix s rest assume s: "cut_before t (bs @ rest) s"
    then have "readFully n s = (Inr bs, s\<lparr>inq := drop_bytes n (inq s)\<rparr>)"
      using n by (simp add: cut_before_def readFully_def)
    moreover have "cut_before t rest (s\<lparr>inq := drop_bytes n (inq s)\<rparr>)"
      using s n by (auto simp: cut_before_def pending_def)
    ultimately show "\<exists>q. readFully n s = (Inr bs, s\<lparr>inq := q\<rparr>) \<and> cut_before t rest (s\<lparr>inq := q\<rparr>)" by blast
  qed
qed

text \<open>One call of \<open>read\<close> at the cut.\<close>

lemma read_cut:
  assumes s: "cut_before (length b + length rest) (a @ b @ rest) s" and l: "0 < length a" "length a < length chunk"
  shows "read_chunk chunk s = (Inr (a @ drop (length a) chunk), s\<lparr>inq := [[], b @ rest]\<rparr>)"
  using s l by (auto simp: cut_before_def read_chunk_def read_some_def kernel_recv_def jbind_def jret_def)

section \<open>Readers that throw\<close>

text \<open>\<open>fails at m p bs\<close>: with the bytes \<open>bs\<close> to come, \<open>m\<close> throws the client's exception.\<close>

definition fails :: "(bytes \<Rightarrow> sock \<Rightarrow> bool) \<Rightarrow> ('c input \<Rightarrow> 'a jres \<times> 'c input) \<Rightarrow> 'c \<times> nat \<Rightarrow> bytes \<Rightarrow> bool" where
  "fails at m p bs \<longleftrightarrow> (\<forall>s. at bs s \<longrightarrow> (\<exists>s'. m (s, p) = (babble_throw, s')))"

lemma fails_first: "fails at m p bs \<Longrightarrow> fails at (jbind m f) p bs"
  unfolding fails_def jbind_def by fastforce

lemma fails_later:
  assumes "takes_in at m p bs a p1" and "fails at (f a) p1 bs'"
  shows "fails at (jbind m f) p (bs @ bs')"
  unfolding fails_def
proof (intro allI impI)
  fix s assume "at (bs @ bs') s"
  with assms(1) obtain q where q: "m (s, p) = (Inr a, (s\<lparr>inq := q\<rparr>, p1))" "at bs' (s\<lparr>inq := q\<rparr>)"
    by (auto simp: takes_in_def)
  with assms(2) obtain s' where "f a (s\<lparr>inq := q\<rparr>, p1) = (babble_throw, s')" by (auto simp: fails_def)
  with q show "\<exists>s'. jbind m f (s, p) = (babble_throw, s')" by (intro exI [of _ s']) (simp add: jbind_def)
qed

lemma fails_lift: "r = Inr b \<Longrightarrow> fails at (f b) p bs \<Longrightarrow> fails at (jbind (jlift r) f) p bs"
  by (simp add: fails_def)

lemma fails_rethrow: "fails at m p bs \<Longrightarrow> fails at (rethrow_io m) p bs"
  by (fastforce simp: fails_def rethrow_io_def)

context frame_source
begin

lemma fails_nat:
  assumes "0 \<le> sint n" and "sint n \<le> b" and "fails at (f n) p bs"
  shows "fails at (jbind (on_sock (readInt b)) f) p (encodeInt LittleEndian [] n @ bs)"
  by (rule fails_later [where a = n and f = f, OF takes_in_sock [OF take_readInt [OF assms(1,2)]] assms(3)])

lemma fails_name:
  assumes "length u \<le> 64" and "fails at (f (word_of_nat (length u)) (string_of u)) p bs"
  shows "fails at (jbind (on_sock (readInt MAX_UNAME_LEN)) (\<lambda>n. jbind (on_sock (readStr n)) (\<lambda>u.
    jbind (jlift (check_name n u)) (\<lambda>_. f n u)))) p (encodeString LittleEndian [] u @ bs)"
proof -
  let ?n = "word_of_nat (length u) :: cint"
  have n: "sint ?n = int (length u)" using assms(1) by (intro sint_word_of_nat32) simp
  have "check_name ?n (string_of u) = Inr ()" using n assms(1) by (simp add: check_name_def MAX_UNAME_LEN_def)
  with assms(2) have "fails at (jbind (jlift (check_name ?n (string_of u))) (\<lambda>_. f ?n (string_of u))) p bs"
    by (intro fails_lift)
  with takes_in_sock [OF take_readStr [OF n]]
  have "fails at (jbind (on_sock (readStr ?n)) (\<lambda>u. jbind (jlift (check_name ?n u)) (\<lambda>_. f ?n u))) p (u @ bs)"
    by (rule fails_later [where a = "string_of u"])
  moreover have "0 \<le> sint ?n" "sint ?n \<le> MAX_UNAME_LEN" using n assms(1) by (simp_all add: MAX_UNAME_LEN_def)
  ultimately show ?thesis unfolding encodeString_def append_Nil append_assoc by (intro fails_nat)
qed

end

section \<open>The block that was cut\<close>

text \<open>What decryption makes of the front of the block is not by chance as long as what follows says.\<close>

definition garbled :: "'c cipher \<Rightarrow> 'c \<Rightarrow> bytes \<Rightarrow> bytes \<Rightarrow> bool" where
  "garbled ops c front behind \<longleftrightarrow> (\<forall>p c'. c_doFinal ops c (front @ replicate (16 - length front) 0) = (Some p, c') \<longrightarrow>
     sint (from_bytes (take 8 behind) :: clong) \<noteq> int (length p))"

lemma cut_block_fails:
  assumes a: "0 < length a" "length a < 16" and b: "length b = 16 - length a" and rest: "8 \<le> length rest"
    and g: "garbled ops c a (b @ rest)"
    and f: "\<And>bs. f bs = jbind (on_sock readLong) (\<lambda>n. jbind (jlift (babble_if (int (length (string_of bs)) \<noteq> sint n \<or> M < sint n))) (h bs n))"
  shows "fails (cut_before (length b + length rest)) (jbind (decrypt_chunks ops 16 (replicate BLOCK_SIZE 0)) f) (c, k) (a @ b @ rest)"
  unfolding fails_def
proof (intro allI impI)
  fix s assume s: "cut_before (length b + length rest) (a @ b @ rest) s"
  let ?chunk = "a @ replicate (16 - length a) 0" and ?s = "s\<lparr>inq := [[], b @ rest]\<rparr>"
  have "read_chunk (replicate 16 0) s = (Inr ?chunk, ?s)" using read_cut [OF s a(1), of "replicate 16 0"] a(2) by simp
  then have d: "decrypt_chunks ops 16 (replicate BLOCK_SIZE 0) (s, c, k) = on_cipher (padding_to_babble (doFinal ops ?chunk)) (?s, c, k)"
    by (simp add: decrypt_chunks.simps [of ops 16] BLOCK_SIZE_def on_sock_def jbind_def)
  obtain p c' where p: "c_doFinal ops c ?chunk = (p, c')" by (cases "c_doFinal ops c ?chunk")
  show "\<exists>s'. jbind (decrypt_chunks ops 16 (replicate BLOCK_SIZE 0)) f (s, c, k) = (babble_throw, s')"
  proof (cases p)
    case None
    then show ?thesis using d p by (simp add: jbind_def on_cipher_def padding_to_babble_def doFinal_def)
  next
    case (Some x)
    have "pending ?s = b @ rest" by (simp add: pending_def)
    then have l: "pending ?s = take 8 (b @ rest) @ drop 8 (b @ rest)" "length (take 8 (b @ rest)) = 8"
      using rest by (simp_all only: append_take_drop_id) simp
    from readFully_front [OF l] obtain q where "readFully 8 ?s = (Inr (take 8 (b @ rest)), ?s\<lparr>inq := q\<rparr>)" by blast
    then have "readLong ?s = (Inr (from_bytes (take 8 (b @ rest))), ?s\<lparr>inq := q\<rparr>)"
      by (simp add: readLong_def rethrow_io_def ds_readLong_def jbind_def jret_def)
    moreover have "int (length x) \<noteq> sint (from_bytes (take 8 (b @ rest)) :: clong)"
      using g p Some unfolding garbled_def by metis
    moreover have "decrypt_chunks ops 16 (replicate BLOCK_SIZE 0) (s, c, k) = (Inr x, (?s, c', k))"
      using d p Some by (simp add: on_cipher_def padding_to_babble_def doFinal_def)
    ultimately show ?thesis by (simp add: jbind_def f on_sock_def jlift_def)
  qed
qed

text \<open>The fields of a chat message behind its cipher text.\<close>

definition behind_text :: "SPChatMsgMessage \<Rightarrow> bytes" where
  "behind_text m = encodeLong LittleEndian [] (mm_decryptMsgLen m) @ encodeInt LittleEndian [] (mm_msgNum m) @
     encodeInt LittleEndian [] (mm_totalMsg m) @ encodeLong LittleEndian [] (mm_time m)"

lemma cut_message_fails:
  assumes "length (mm_sender m) \<le> 64" and "length (mm_receiver m) \<le> 64" and m: "mm_message m = a @ b"
    and a: "0 < length a" "length a < 16" and b: "length b = 16 - length a" and g: "garbled ops c a (b @ behind_text m)"
  shows "fails (cut_before (length b + 24)) (MsgMessage_read ops now) (c, k) (encodeMessage LittleEndian [] m)"
proof -
  have l: "length (mm_message m) = 16" "sint (word_of_nat (length (mm_message m)) :: cint) = 16" using m a b by simp_all
  have t: "length (behind_text m) = 24" by (simp add: behind_text_def)
  have e: "encodeMessage LittleEndian [] m = encodeString LittleEndian [] (mm_sender m) @ encodeString LittleEndian [] (mm_receiver m) @
      encodeInt LittleEndian [] (word_of_nat (length (mm_message m))) @ a @ b @ behind_text m"
    unfolding encodeMessage_parts behind_text_def m
    by (simp only: append_Nil encodeString_def [of _ _ "a @ b"] append_assoc)
  show ?thesis
    unfolding MsgMessage_read_def e
    apply (rule cut.fails_name [OF assms(1)], rule cut.fails_name [OF assms(2)])
    apply (rule cut.fails_nat, use l in simp, use l in simp)
    apply (unfold l(2) t [symmetric], simp only: nat_numeral)
    apply (rule cut_block_fails [OF a b _ g], use t in simp)
    apply (unfold Let_def, rule refl)
    done
qed

text \<open>So does the answer to a poll, and with it the turn of the reader thread.\<close>

lemma cut_answer_fails:
  assumes "fails (cut_before t) (MsgMessage_read ops now) p (encodeMessage LittleEndian [] m)" and "length u \<le> 64"
  shows "fails (cut_before t) (PollResponseMessage_read ops now) p
    (pr_encodeMiddle LittleEndian [] \<lparr>pr_username = u, pr_msgList = [m], pr_listNum = 1, pr_totalList = 1\<rparr>)"
proof -
  have e: "pr_encodeMiddle LittleEndian [] \<lparr>pr_username = u, pr_msgList = [m], pr_listNum = 1, pr_totalList = 1\<rparr>
    = encodeString LittleEndian [] u @ encodeInt LittleEndian [] 1 @ encodeInt LittleEndian [] 1 @ encodeInt LittleEndian [] 1 @
      encodeMessage LittleEndian [] m"
    by (simp add: pr_middle encodeMsgList_append [of _ "[]"])
  have n: "nat (sint (1 :: cint)) = Suc 0" by simp
  have "fails (cut_before t) (read_messages ops now (nat (sint (1 :: cint)))) p (encodeMessage LittleEndian [] m)"
    unfolding n read_messages.simps by (rule fails_first [OF fails_rethrow [OF assms(1)]])
  note last = fails_first [OF this]
  show ?thesis
    unfolding PollResponseMessage_read_def e
    apply (intro cut.fails_name [OF assms(2)] cut.fails_nat)
         apply (simp_all add: MAX_LISTS_def)
    apply (rule fails_lift [where b = "()"], simp)
    apply (rule cut.fails_nat)
      apply (simp, simp)
    apply (rule last)
    done
qed

lemma turn_cut_answer:
  fixes cl :: "('k, 'c) client" and lib :: "('k, 'c) jlib"
  defines "p \<equiv> \<lambda>u m. \<lparr>pr_username = u, pr_msgList = [m], pr_listNum = 1, pr_totalList = 1\<rparr>"
  assumes inp: "cut_before t (encode LittleEndian [] (MPollResponse (p u m))) (bc_sock cl)"
    and f: "fails (cut_before t) (MsgMessage_read (jv_cipher lib) (jv_now lib)) (c, bc_clock cl) (encodeMessage LittleEndian [] m)"
    and u: "length u \<le> 64" and c: "bc_cipherIn cl = Some c"
    and l: "length (pr_encodeMiddle LittleEndian [] (p u m)) < 2 ^ 31"
  shows "\<exists>cl'. reader_turn lib cl = (Stuck, cl') \<and> bc_incoming cl' = bc_incoming cl"
proof -
  let ?n = "pr_getPayloadLength (p u m)"
  have "sint ?n = int (length (pr_encodeMiddle LittleEndian [] (p u m)))"
    unfolding pr_payload_length [where e = LittleEndian] using l by (intro sint_word_of_nat64) simp
  then have n: "0 \<le> sint ?n" by simp
  have "cut_before t (frame_header LittleEndian 6 ?n @ pr_encodeMiddle LittleEndian [] (p u m)) (bc_sock cl)"
    using inp by (simp add: encode_frame type_consts)
  from turn_frame [OF cut.frame_source_axioms this n, of lib] obtain q where
    q: "reader_turn lib cl = turn_result (handle_type lib 6 (unread_in q cl))"
      "cut_before t (pr_encodeMiddle LittleEndian [] (p u m)) (bc_sock (unread_in q cl))" by blast
  from cut_answer_fails [OF f u] q(2) obtain s' where
    s': "PollResponseMessage_read (jv_cipher lib) (jv_now lib) (bc_sock (unread_in q cl), c, bc_clock cl) = (babble_throw, s')"
    unfolding fails_def p_def by blast
  obtain s c' k where "s' = (s, c', k)" by (cases s')
  with s' q(1) c show ?thesis
    by (auto simp: handle_type_def getMessageType_def handlePollResponse_def turn_result_def unread_in_def)
qed

text \<open>The answer of the server to a poll, for a text of one block.\<close>

lemma encodeMessage_behind: "\<exists>pre. encodeMessage LittleEndian [] m = pre @ mm_message m @ behind_text m"
  unfolding encodeMessage_parts behind_text_def by (simp add: encodeString_def)

lemma split_answer_stuck:
  fixes cl :: "('k, 'c) client" and lib :: "('k, 'c) jlib" and env :: "'d env"
  assumes row: "row_ok env key row" "row ! 0 = getBytes msg" "row ! 2 = getBytes u" and msg: "is_ascii msg" "length msg < 16"
    and u: "good_name u" and cl: "reads_as env key lib r cl"
    and inp: "inq (bc_sock cl) = [front, back]" "front @ back = encode LittleEndian [] (reply env key (poll_of r t) row)"
    and cut: "24 < length back" "length back < 40"
    and g: "garbled (jv_cipher lib) (fresh_cipher lib False cl)
      (take (40 - length back) (fst (env_encrypt env key ivString (getBytes msg)))) back"
  shows "\<exists>cl'. reader_turn lib cl = (Stuck, cl') \<and> bc_incoming cl' = bc_incoming cl"
proof -
  note cl' = cl [unfolded reads_as_def]
  let ?c = "fst (env_encrypt env key ivString (getBytes msg))" and ?j = "40 - length back"
  let ?a = "take ?j ?c" and ?b = "drop ?j ?c"
  let ?m = "\<lparr>mm_sender = getBytes u, mm_receiver = getBytes r, mm_message = ?c, mm_decryptMsgLen = word_of_nat (length msg),
    mm_msgNum = 1, mm_totalMsg = 1, mm_time = t\<rparr>"
  let ?p = "\<lparr>pr_username = getBytes u, pr_msgList = [?m], pr_listNum = 1, pr_totalList = 1\<rparr>"
  have names: "length (getBytes u) \<le> 64" "length (getBytes r) \<le> 64" using good_nameD [OF u] cl' good_nameD [of r] by simp_all
  have ops: "cbc_cipher (jv_cipher lib) (jv_init lib) (\<lambda>k iv p. fst (env_encrypt env k iv p))" "length key = 16"
    using cl' by simp_all
  have c16: "length ?c = 16"
    using cbc_cipherD(2) [OF ops SYM_IV_server(2), of "getBytes msg"] SYM_IV_server(1) msg by simp
  have ab: "length ?a = ?j" "length ?b = length back - 24" "0 < length ?a" "length ?a < 16" "length ?b = 16 - length ?a"
    using cut c16 by simp_all
  have rp: "reply env key (poll_of r t) row = MPollResponse ?p" using row(2,3) msg by (simp add: reply_def poll_of_def)
  obtain pre where "encodeMessage LittleEndian [] ?m = pre @ ?c @ behind_text ?m" using encodeMessage_behind [of ?m] by auto
  then have m: "encodeMessage LittleEndian [] ?m = (pre @ ?a) @ (?b @ behind_text ?m)"
    using append_take_drop_id [of ?j ?c] by (metis append_assoc)
  have "\<exists>X. encode LittleEndian [] (MPollResponse ?p) = X @ (?b @ behind_text ?m)"
    using m by (auto simp: encode_frame pr_middle encodeMsgList_append [of _ "[]"] simp flip: append_assoc)
  then obtain X where "front @ back = X @ (?b @ behind_text ?m)" using inp(2) rp by auto
  moreover have "length back = length (?b @ behind_text ?m)" using ab(2) cut by (simp add: behind_text_def)
  ultimately have behind: "back = ?b @ behind_text ?m" by simp
  note g' = subst [where P = "garbled (jv_cipher lib) (fresh_cipher lib False cl) ?a", OF behind g]
  have t: "length ?b + 24 = length back" using ab(2) cut(1) by simp
  have "mm_message ?m = ?a @ ?b" by simp
  from cut_message_fails [OF _ _ this ab(3-5) g', of "jv_now lib" "bc_clock cl"] names g
  have "fails (cut_before (length back)) (MsgMessage_read (jv_cipher lib) (jv_now lib)) (fresh_cipher lib False cl, bc_clock cl)
    (encodeMessage LittleEndian [] ?m)" unfolding t by simp
  moreover have "cut_before (length back) (encode LittleEndian [] (MPollResponse ?p)) (bc_sock cl)"
    using inp unfolding rp [symmetric] cut_before_def by (simp add: pending_def flip: inp(2))
  moreover have "length (pr_encodeMiddle LittleEndian [] ?p) < 2 ^ 31"
    using names c16 by (simp add: pr_middle encodeMsgList_append [of _ "[]"] length_encodeMessage)
  ultimately show ?thesis using turn_cut_answer [of "length back" "getBytes u" ?m cl lib] cl' names by simp
qed

text \<open>The last bytes of an answer are those of its cipher text and of the four fields behind it.\<close>

lemma answer_ends:
  "\<exists>front behind. encode LittleEndian [] (reply env key p row) = front @ fst (env_encrypt env key ivString (row ! 0)) @ behind \<and>
    length behind = 24"
proof -
  let ?m = "\<lparr>mm_sender = row ! 2, mm_receiver = pl_username p, mm_message = fst (env_encrypt env key ivString (row ! 0)),
    mm_decryptMsgLen = word_of_nat (length (row ! 0)), mm_msgNum = 1, mm_totalMsg = 1, mm_time = pl_time p\<rparr>"
  obtain pre where "encodeMessage LittleEndian [] ?m = pre @ mm_message ?m @ behind_text ?m" using encodeMessage_behind by blast
  moreover have "length (behind_text ?m) = 24" by (simp add: behind_text_def)
  ultimately show ?thesis
    unfolding reply_def encode_frame by (auto simp: pr_middle encodeMsgList_append [of _ "[]"] simp flip: append_assoc)
qed

end
