(* ===== verification/Sharing.thy ===== *)
theory Sharing
  imports ChatStore Output
begin

text \<open>
  The client threads at one database, by rely and guarantee. The guarantee: whatever its client
  sends, a thread changes the database only by executing the statements of the three blocks.
  The rely: \<open>among peers db\<close> is the database as one thread sees it while the others execute
  statements of their own before each of its statements, \<open>peers n\<close> before the \<open>n\<close>-th; every
  statement is one step, since the blocks open no transaction and the server commits each
  statement by itself. If the others guarantee what every thread does, such a database
  is a \<open>shared_store\<close>, for which post and poll have been shown to work.
\<close>

section \<open>What a thread does to the database\<close>

definition executes :: "'d env \<Rightarrow> 'd world \<Rightarrow> 'd world \<Rightarrow> bool" where
  "executes env w w' \<longleftrightarrow> (\<exists>sts. list_all thread_statement sts \<and> w_db w' = fold (execute (env_dbms env)) sts (w_db w))"

lemma executes_none: "w_db w' = w_db w \<Longrightarrow> executes env w w'"
  unfolding executes_def by (intro exI [of _ "[]"]) simp

lemma executes_one: "thread_statement st \<Longrightarrow> w_db w' = execute (env_dbms env) st (w_db w) \<Longrightarrow> executes env w w'"
  unfolding executes_def by (intro exI [of _ "[st]"]) simp

lemma executes_trans:
  assumes "executes env w w1" and "executes env w1 w2"
  shows "executes env w w2"
proof -
  obtain s1 s2 where "list_all thread_statement s1" "w_db w1 = fold (execute (env_dbms env)) s1 (w_db w)"
    "list_all thread_statement s2" "w_db w2 = fold (execute (env_dbms env)) s2 (w_db w1)"
    using assms unfolding executes_def by blast
  then show ?thesis unfolding executes_def by (intro exI [of _ "s1 @ s2"]) simp
qed

interpretation statements: kept_relation env "executes env" for env :: "'d env"
proof
  fix w w1 w2 :: "'d world" and x y c sql ps z and ok :: bool
  show "executes env w w" by (simp add: executes_none)
  show "executes env w w1 \<Longrightarrow> executes env w1 w2 \<Longrightarrow> executes env w w2" by (rule executes_trans)
  show "receive env w = (x, w1) \<Longrightarrow> executes env w w1"
    by (rule executes_none) (auto simp: receive_def log_event_def Let_def split: prod.splits sum.splits)
  show "send_message env m w = (y, w1) \<Longrightarrow> executes env w w1" for m
    by (rule executes_none) (auto simp: send_message_def log_event_def split: if_splits prod.splits sum.splits)
  show "executes env w (w\<lparr>w_clock := c\<rparr>)" by (simp add: executes_none)
  show "executes env w (delete_sock w)"
    by (rule executes_none) (simp add: delete_sock_def log_event_def)
  show "sql_connect env w = (ok, w1) \<Longrightarrow> executes env w w1"
    by (rule executes_one [of Connecting]) (auto simp: thread_statement.simps sql_connect_def split: prod.splits)
  show "thread_statement (Querying sql ps) \<Longrightarrow> sql_query env sql ps w = (z, w1) \<Longrightarrow> executes env w w1"
    by (rule executes_one) (auto simp: sql_query_def log_event_def split: prod.splits)
  show "thread_statement (Updating sql ps) \<Longrightarrow> sql_update env sql ps w = (ok, w1) \<Longrightarrow> executes env w w1"
    by (rule executes_one) (auto simp: sql_update_def log_event_def split: prod.splits)
qed

section \<open>A database whose queries only read\<close>

locale quiet_database = chat_database +
  assumes asks: "good d \<Longrightarrow> thread_statement (Querying sql ps) \<Longrightarrow> db_query db sql ps d = (x, d') \<Longrightarrow>
    good d' \<and> uid d' = uid d \<and> texts d' = texts d \<and> filed d' = filed d"
begin

text \<open>The effect of one statement: nothing is lost, and only an inserted text is new.\<close>

lemma statement_effect:
  assumes "good d" and "thread_statement st"
  shows "grown good uid texts filed d (execute db st d) \<and>
    (\<forall>(i, t) \<in> texts (execute db st d). (i, t) \<in> texts d \<or> st = Updating INSERT_MESSAGE [t])"
proof (cases st)
  case Connecting
  with connect [OF assms(1)] show ?thesis by (auto simp: grown_def)
next
  case (Querying sql ps)
  with asks [OF assms(1), of sql ps] assms(2) show ?thesis by (cases "db_query db sql ps d") (auto simp: grown_def)
next
  case (Updating sql ps)
  with assms(2) consider t where "sql = INSERT_MESSAGE" "ps = [t]" | s r m x where "sql = INSERT_TRANSACTION" "ps = [s, r, m, x]"
    by (auto simp: thread_statement.simps length_Suc_conv eval_nat_numeral)
  then show ?thesis
  proof cases
    case (1 t)
    with insert_message [OF assms(1), of t] show ?thesis unfolding Updating by (auto simp: grown_def)
  next
    case (2 s r m x)
    with insert_transaction [OF assms(1), of s r m x] show ?thesis unfolding Updating by (auto simp: grown_def)
  qed
qed

lemma statements_grow: "good d \<Longrightarrow> list_all thread_statement sts \<Longrightarrow> grown good uid texts filed d (fold (execute db) sts d)"
proof (induction sts arbitrary: d)
  case (Cons st sts)
  then have "grown good uid texts filed d (execute db st d)" using statement_effect [of d st] by simp
  with Cons show ?case using grown_trans [of good uid texts filed d "execute db st d"] by (simp add: grown_def)
qed (simp add: grown_refl)

end

text \<open>The guarantee of the threads, on such a database.\<close>

lemma thread_grows:
  assumes "quiet_database (env_dbms env) good uid texts filed" and "good (w_db w)" and "clientConnectStart env n w = (r, w')"
  shows "\<exists>sts. list_all thread_statement sts \<and> w_db w' = fold (execute (env_dbms env)) sts (w_db w) \<and>
    grown good uid texts filed (w_db w) (w_db w')"
  using statements.thread_kept [OF assms(3)] quiet_database.statements_grow [OF assms(1,2)]
  unfolding executes_def by metis

section \<open>The database among other threads\<close>

text \<open>Others whose texts the receiver can be sent: the poll handler can answer with each of them.\<close>

definition polite :: "(bytes \<Rightarrow> bool) \<Rightarrow> statement \<Rightarrow> bool" where
  "polite okay st \<longleftrightarrow> thread_statement st \<and> (\<forall>t. st = Updating INSERT_MESSAGE [t] \<longrightarrow> okay t)"

definition others_act :: "(nat \<Rightarrow> statement list) \<Rightarrow> 'd dbms \<Rightarrow> 'd \<times> nat \<Rightarrow> 'd" where
  "others_act peers db dn = fold (execute db) (peers (snd dn)) (fst dn)"

definition among :: "(nat \<Rightarrow> statement list) \<Rightarrow> 'd dbms \<Rightarrow> ('d \<times> nat) dbms" where
  "among peers db = \<lparr>
     db_connect = \<lambda>dn. case db_connect db (others_act peers db dn) of (ok, d) \<Rightarrow> (ok, (d, Suc (snd dn))),
     db_query = \<lambda>sql ps dn. case db_query db sql ps (others_act peers db dn) of (x, d) \<Rightarrow> (x, (d, Suc (snd dn))),
     db_update = \<lambda>sql ps dn. case db_update db sql ps (others_act peers db dn) of (ok, d) \<Rightarrow> (ok, (d, Suc (snd dn)))\<rparr>"

lemma polite_effect:
  assumes "quiet_database db good uid texts filed" and "all_good good texts okay d" and "polite okay st"
  shows "grown (all_good good texts okay) uid texts filed d (execute db st d)"
  using quiet_database.statement_effect [OF assms(1), of d st] assms(2,3) unfolding all_good_def polite_def grown_def by fast

lemma others_grow:
  assumes "quiet_database db good uid texts filed" and "all_good good texts okay d" and "list_all (polite okay) sts"
  shows "grown (all_good good texts okay) uid texts filed d (fold (execute db) sts d)"
  using assms(2,3)
proof (induction sts arbitrary: d)
  case (Cons st sts)
  then have g: "grown (all_good good texts okay) uid texts filed d (execute db st d)" using polite_effect [OF assms(1)] by simp
  with Cons show ?case using grown_trans [OF g] by (simp add: grown_def)
qed (simp add: grown_refl)

text \<open>One statement of the thread itself, behind those of the others.\<close>

lemma among_simps:
  "db_connect (among peers db) dn = (fst (db_connect db (others_act peers db dn)), (snd (db_connect db (others_act peers db dn)), Suc (snd dn)))"
  "db_query (among peers db) sql ps dn = (fst (db_query db sql ps (others_act peers db dn)), (snd (db_query db sql ps (others_act peers db dn)), Suc (snd dn)))"
  "db_update (among peers db) sql ps dn = (fst (db_update db sql ps (others_act peers db dn)), (snd (db_update db sql ps (others_act peers db dn)), Suc (snd dn)))"
  by (simp_all add: among_def case_prod_unfold)

definition here :: "('d \<Rightarrow> 'x) \<Rightarrow> 'd \<times> nat \<Rightarrow> 'x" where
  "here f dn = f (fst dn)"

lemma grown_here: "grown (here good) (here uid) (here texts) (here filed) dn (d', n) = grown good uid texts filed (fst dn) d'"
  by (simp add: grown_def here_def)

lemma crowded_store:
  assumes db: "quiet_database db good uid texts filed" and polite: "\<And>n. list_all (polite okay) (peers n)"
  shows "shared_store (among peers db) (here (all_good good texts okay)) (here uid) (here texts) (here filed) okay"
proof -
  let ?grows = "grown (all_good good texts okay) uid texts filed"
  have chat: "chat_database db good uid texts filed" using db by (simp add: quiet_database_def)
  have before: "?grows (fst dn) (others_act peers db dn)" "all_good good texts okay (others_act peers db dn)"
    "good (others_act peers db dn)" "uid (others_act peers db dn) = uid (fst dn)"
    "texts (fst dn) \<subseteq> texts (others_act peers db dn)" "filed (fst dn) \<subseteq> filed (others_act peers db dn)"
    if "here (all_good good texts okay) dn" for dn
  proof -
    have "?grows (fst dn) (others_act peers db dn)"
      unfolding others_act_def using others_grow [OF db _ polite] that by (simp add: here_def)
    then show "?grows (fst dn) (others_act peers db dn)" "all_good good texts okay (others_act peers db dn)"
      "good (others_act peers db dn)" "uid (others_act peers db dn) = uid (fst dn)"
      "texts (fst dn) \<subseteq> texts (others_act peers db dn)" "filed (fst dn) \<subseteq> filed (others_act peers db dn)"
      by (simp_all add: grown_def all_good_def)
  qed
  have kept: "?grows d d'" if "all_good good texts okay d" "good d' \<and> uid d' = uid d \<and> texts d' = texts d \<and> filed d' = filed d" for d d'
    using that by (simp add: grown_def all_good_def)
  show ?thesis
  proof (unfold_locales, goal_cases)
    case (1 dn i t)
    then show ?case by (auto simp: here_def all_good_def)
  next
    case (2 dn)
    let ?d = "others_act peers db dn"
    note b = before [OF 2]
    obtain d' where d': "db_connect db ?d = (True, d')" "?grows ?d d'"
      using chat_database.connect [OF chat, of ?d] kept b by blast
    show ?case using grown_trans [OF b(1) d'(2)] d'(1) by (simp add: among_simps grown_here)
  next
    case (3 dn t)
    let ?d = "others_act peers db dn"
    note b = before [OF 3(1)]
    obtain d' i where d': "db_update db INSERT_MESSAGE [t] ?d = (True, d')"
      "good d' \<and> uid d' = uid ?d \<and> texts d' = insert (i, t) (texts ?d) \<and> filed d' = filed ?d"
      using chat_database.insert_message [OF chat, of ?d t] b by blast
    then have "?grows ?d d'" "(i, t) \<in> texts d'" using b 3(2) by (auto simp: grown_def all_good_def)
    with grown_trans [OF b(1)] d'(1) show ?case by (auto simp: among_simps grown_here here_def)
  next
    case (4 dn u i)
    let ?d = "others_act peers db dn"
    note b = before [OF 4(1)]
    have "uid ?d u = Some i" using 4(2) b by (simp add: here_def)
    then obtain d' where d': "db_query db SELECT_USER_ID [u] ?d = (([[i]], True), d')" "?grows ?d d'"
      using chat_database.select_user [OF chat, of ?d u i] kept b by blast
    show ?case using grown_trans [OF b(1) d'(2)] d'(1) by (simp add: among_simps grown_here)
  next
    case (5 dn t)
    let ?d = "others_act peers db dn"
    note b = before [OF 5]
    obtain d' rows where d': "db_query db SELECT_MESSAGE_ID [t] ?d = ((rows, True), d')" "set rows = {[i] | i. (i, t) \<in> texts ?d}"
      "good d' \<and> uid d' = uid ?d \<and> texts d' = texts ?d \<and> filed d' = filed ?d"
      using chat_database.select_message [OF chat, of ?d t] b by blast
    have "?grows ?d d'" using kept d'(3) b by blast
    with grown_trans [OF b(1)] d' b show ?case by (auto simp: among_simps grown_here here_def)
  next
    case (6 dn s r m x)
    let ?d = "others_act peers db dn"
    note b = before [OF 6]
    obtain d' where d': "db_update db INSERT_TRANSACTION [s, r, m, x] ?d = (True, d')"
      "good d' \<and> uid d' = uid ?d \<and> texts d' = texts ?d \<and> filed d' = insert (s, r, m, x) (filed ?d)"
      using chat_database.insert_transaction [OF chat, of ?d s r m x] b by blast
    then have "?grows ?d d'" using b by (auto simp: grown_def all_good_def)
    with grown_trans [OF b(1)] d' show ?case by (auto simp: among_simps grown_here here_def)
  next
    case (7 dn n u)
    let ?d = "others_act peers db dn"
    note b = before [OF 7]
    obtain d' rows where d': "db_query db SELECT_MESSAGES [n, u] ?d = ((rows, True), d')"
      "\<forall>row \<in> set rows. length row = 4 \<and> row ! 1 = u"
      "(\<lambda>row. (row ! 0, row ! 2)) ` set rows = inbox (uid ?d) (texts ?d) (filed ?d) u (number n)"
      "good d' \<and> uid d' = uid ?d \<and> texts d' = texts ?d \<and> filed d' = filed ?d"
      using chat_database.select_messages [OF chat, of ?d n u] b by blast
    have k: "?grows ?d d'" using kept d'(4) b by blast
    have "inbox (uid (fst dn)) (texts (fst dn)) (filed (fst dn)) u (number n) \<subseteq> (\<lambda>row. (row ! 0, row ! 2)) ` set rows"
      unfolding d'(3) using b inbox_mono by metis
    moreover have "(\<lambda>row. (row ! 0, row ! 2)) ` set rows = inbox (uid d') (texts d') (filed d') u (number n)"
      unfolding d'(3) using d'(4) by metis
    ultimately show ?case using grown_trans [OF b(1) k] d'(1,2) by (simp add: among_simps grown_here here_def)
  qed
qed

section \<open>Tables in memory\<close>

interpretation tables_read: quiet_database table_dbms emails_unique table_uid
  "\<lambda>d. set (t_messages d)" "\<lambda>d. set (t_transactions d)"
  by unfold_locales (auto simp: table_dbms_def)

text \<open>The tables, used by one thread alone and among others.\<close>

interpretation tables_alone: shared_store table_dbms "all_good emails_unique (\<lambda>d. set (t_messages d)) okay" table_uid
  "\<lambda>d. set (t_messages d)" "\<lambda>d. set (t_transactions d)" okay for okay
  by (rule alone_store [OF tables.chat_database_axioms])

interpretation tables_among: shared_store "among (\<lambda>n. filter (polite okay) (peers n)) table_dbms"
  "here (all_good emails_unique (\<lambda>d. set (t_messages d)) okay)" "here table_uid"
  "here (\<lambda>d. set (t_messages d))" "here (\<lambda>d. set (t_transactions d))" okay for okay peers
  by (rule crowded_store [OF tables_read.quiet_database_axioms]) (simp add: list_all_iff)

end
