(* ===== verification/JavaObjects.thy ===== *)
theory JavaObjects
  imports ServerFrames
begin

text \<open>
  The members of the client's message classes that the client itself does not call
  (\<open>BabbleOnClient2_newest/src/main/java/protocol\<close>): the constructors of the other direction,
  the setters, and the encoders that refuse.
\<close>

section \<open>BabbleOnMessage\<close>

text \<open>\<open>checkType\<close> sets the type when it differs and tells whether it was right.\<close>

definition checkType :: "MessageType \<Rightarrow> byte \<Rightarrow> bool \<times> byte" where
  "checkType m messageType = (messageType = ordinal m, ordinal m)"

definition setMessageType :: "byte \<Rightarrow> byte \<Rightarrow> byte" where
  "setMessageType type messageType = type"

section \<open>Challenge, response and poll\<close>

definition CHALLENGE_LEN :: nat where "CHALLENGE_LEN = 8"

definition ChallengeMessage_new :: "bytes \<Rightarrow> bytes jres" where
  "ChallengeMessage_new challenge =
     rbind (BabbleOnMessage_new (ordinal ChallengeType) (word_of_nat CHALLENGE_LEN)) (\<lambda>_.
     rbind (babble_if (CHALLENGE_LEN \<noteq> length challenge)) (\<lambda>_. Inr challenge))"

definition jc_encode :: "bytes \<Rightarrow> bytes option list jres" where
  "jc_encode challenge = Inl (JThrow UnsupportedOperationException)"

definition jc_setChallenge :: "bytes \<Rightarrow> bytes \<Rightarrow> bytes" where
  "jc_setChallenge c challenge = c"

definition ResponseMessage_read :: "sock \<Rightarrow> ResponseMessage jres \<times> sock" where
  "ResponseMessage_read =
     jbind (readInt MAX_UNAME_LEN) (\<lambda>usernameLength.
     jbind (readStr usernameLength) (\<lambda>username.
     jbind (jlift (check_name usernameLength username)) (\<lambda>_.
     jbind (readInt (2 ^ 31 - 1)) (\<lambda>hashLen.
     jbind (jlift (babble_if (0 > sint hashLen))) (\<lambda>_.
     jbind (readStr hashLen) (\<lambda>hash.
     jbind (jlift (babble_if (hashLen \<noteq> word_of_nat (length hash)))) (\<lambda>_.
     jbind readLong (\<lambda>nonce.
     jret \<lparr>jr_messageLen = 0, jr_usernameLength = usernameLength, jr_username = username,
       jr_hashLen = hashLen, jr_hash = hash, jr_nonce = nonce\<rparr>))))))))"

definition jr_setNonce :: "clong \<Rightarrow> ResponseMessage \<Rightarrow> ResponseMessage" where
  "jr_setNonce nonce m = m\<lparr>jr_nonce := nonce\<rparr>"

definition jr_setHash :: "jstring \<Rightarrow> ResponseMessage \<Rightarrow> ResponseMessage" where
  "jr_setHash hash m = m\<lparr>jr_hash := hash\<rparr>"

text \<open>\<open>now\<close> is what \<open>currentTimeMillis\<close> returns inside the constructor.\<close>

definition PollMessage_read :: "clong \<Rightarrow> sock \<Rightarrow> PollMessage jres \<times> sock" where
  "PollMessage_read now =
     jbind (readInt MAX_UNAME_LEN) (\<lambda>usernameLength.
     jbind (readStr usernameLength) (\<lambda>username.
     jbind (jlift (check_name usernameLength username)) (\<lambda>_.
     jbind readLong (\<lambda>timestamp.
     jbind (jlift (rbind (babble_if (sint timestamp > sint now)) (\<lambda>_. babble_if (0 < sint timestamp)))) (\<lambda>_.
     jret \<lparr>jp_messageLen = 0, jp_usernameLength = usernameLength, jp_username = username,
       jp_timestamp = timestamp\<rparr>)))))"

definition jq_setUsername :: "jstring \<Rightarrow> PollResponseMessage \<Rightarrow> PollResponseMessage" where
  "jq_setUsername username m = m\<lparr>jq_username := username\<rparr>"

section \<open>ACKMessage\<close>

definition ACKMessage_new :: "byte \<Rightarrow> ACKMessage jres" where
  "ACKMessage_new errSender = rbind (BabbleOnMessage_new (ordinal ACKType) 1) (\<lambda>_. Inr (ACKMessage_of errSender))"

text \<open>The length is 1 for a message made from a byte, and 0 for one that was read.\<close>

definition ja_encode :: "clong \<Rightarrow> ACKMessage \<Rightarrow> bytes option list" where
  "ja_encode messageLen m = header_writes ACKType messageLen @ [Some [ja_errSender m]]"

definition UPPER_BYTE_SIZE :: int where "UPPER_BYTE_SIZE = 128"

definition ja_setErr :: "cint \<Rightarrow> ACKMessage \<Rightarrow> ACKMessage" where
  "ja_setErr e m =
     (if UPPER_BYTE_SIZE > sint e
      then m\<lparr>ja_errSender := ucast (push_bit 1 (word_of_int (mod_binary (ja_errSender m)) + e))\<rparr>
      else m)"

definition ja_setSender :: "int \<Rightarrow> ACKMessage \<Rightarrow> ACKMessage" where
  "ja_setSender s m =
     (let b = ja_errSender m in
      if SERVER_J = s \<and> mod_binary b \<noteq> SERVER_J then m\<lparr>ja_errSender := b - 1\<rparr>
      else if CLIENT_J = s \<and> mod_binary b \<noteq> CLIENT_J then m\<lparr>ja_errSender := b + 1\<rparr>
      else m)"

definition getErr :: "Errors \<Rightarrow> int" where
  "getErr er =
     (case er of SUCCESS_J \<Rightarrow> 0 | INVALID_MSG_TYPE_J \<Rightarrow> 1 | INVALID_USERNAME_PASSWORD_J \<Rightarrow> 2
      | FORMATTING_ERROR_J \<Rightarrow> 3 | DEFAULT_ERROR_J \<Rightarrow> 4 | PASSWORD_AUTH_J \<Rightarrow> 5
      | INVALID_RECIPIENT_J \<Rightarrow> 6 | INVALID_ERROR_J \<Rightarrow> 99)"

section \<open>LoginMessage\<close>

text \<open>The static \<open>getKeyLen\<close> goes through all key types; an unknown one has no key.\<close>

definition key_types :: "KeyType list" where
  "key_types = [NONE, ASYMMETRIC, SYMMETRIC, DEFAULT]"

definition getKeyLen_of :: "byte \<Rightarrow> cint" where
  "getKeyLen_of k = foldl (\<lambda>retLen kt. if k = key_ordinal kt then getKeyLen kt else retLen) 0 key_types"

definition jl_setUsernameLen :: "cint \<Rightarrow> LoginMessage \<Rightarrow> unit jres \<times> LoginMessage" where
  "jl_setUsernameLen unameLen m =
     (if 0 > sint unameLen \<or> MAX_UNAME_LEN < sint unameLen then (babble_throw, m)
      else (Inr (), m\<lparr>jl_usernameLength := unameLen\<rparr>))"

definition jl_setUsername :: "jstring \<Rightarrow> LoginMessage \<Rightarrow> unit jres \<times> LoginMessage" where
  "jl_setUsername uname m = (Inr (), m\<lparr>jl_username := uname\<rparr>)"

text \<open>Both setters of a key set the type first, also when they then throw.\<close>

definition jl_setPubKey :: "jstring \<Rightarrow> LoginMessage \<Rightarrow> unit jres \<times> LoginMessage" where
  "jl_setPubKey key m =
     (let m = m\<lparr>jl_keyType := key_ordinal ASYMMETRIC\<rparr> in
      if getKeyLen ASYMMETRIC \<noteq> word_of_nat (length key) then (babble_throw, m)
      else (Inr (), m\<lparr>jl_publicKeyStr := Some key\<rparr>))"

definition jl_setSymKey :: "jstring \<Rightarrow> LoginMessage \<Rightarrow> unit jres \<times> LoginMessage" where
  "jl_setSymKey key m =
     (let m = m\<lparr>jl_keyType := key_ordinal SYMMETRIC\<rparr> in
      if getKeyLen SYMMETRIC \<noteq> word_of_nat (length key) then (babble_throw, m)
      else (Inr (), m\<lparr>jl_publicKeyStr := Some key\<rparr>))"

text \<open>\<open>encode(out, cOut)\<close> writes no key.\<close>

definition jl_encode_cipher :: "LoginMessage \<Rightarrow> bytes option list" where
  "jl_encode_cipher m =
     header_writes LoginType (jl_messageLen m) @
     [Some (to_bytes 4 (jl_usernameLength m)), Some (getBytes (jl_username m)), Some [jl_keyType m]]"

text \<open>\<open>calculateKey\<close>, by the type the message has; \<open>base64\<close> is the encoding by the library.\<close>

definition calculateKey_for :: "byte \<Rightarrow> bytes \<Rightarrow> jstring option" where
  "calculateKey_for keyType base64 =
     (if keyType = key_ordinal ASYMMETRIC then Some (calculateKey base64)
      else if keyType = key_ordinal SYMMETRIC then Some (string_of base64)
      else None)"

definition number_str :: "int \<Rightarrow> jstring" where
  "number_str i = string_of (decimal i)"

definition jl_toString :: "LoginMessage \<Rightarrow> jstring" where
  "jl_toString m = HEADER_J @ number_str (sint (ordinal LoginType)) @
     format_064x (BigInteger1 (getBytes (number_str (sint (jl_messageLen m))))) @
     number_str (sint (jl_usernameLength m)) @ jl_username m @
     (case jl_publicKeyStr m of None \<Rightarrow> jstr ''null'' | Some key \<Rightarrow> key)"

section \<open>logoutMessage\<close>

definition logoutMessage_new :: "byte \<Rightarrow> clong \<Rightarrow> clong jres" where
  "logoutMessage_new type num = BabbleOnMessage_new type num"

definition logout_encode :: "bytes option list jres" where
  "logout_encode = Inl (JThrow UnsupportedOperationException)"

section \<open>Reading back\<close>

context frame_source
begin

text \<open>A user name with its length, for readers of the stream alone.\<close>

lemma take_checked_name:
  assumes "length u \<le> 64" and "takes at (f (word_of_nat (length u)) (string_of u)) bs a"
  shows "takes at (jbind (readInt MAX_UNAME_LEN) (\<lambda>n. jbind (readStr n) (\<lambda>u.
    jbind (jlift (check_name n u)) (\<lambda>_. f n u)))) (encodeString LittleEndian [] u @ bs) a"
proof -
  let ?n = "word_of_nat (length u) :: cint"
  have n: "sint ?n = int (length u)" using assms(1) by (intro sint_word_of_nat32) simp
  have "check_name ?n (string_of u) = Inr ()" using n assms(1) by (simp add: check_name_def MAX_UNAME_LEN_def)
  with assms(2) have "takes at (jbind (jlift (check_name ?n (string_of u))) (\<lambda>_. f ?n (string_of u))) bs a"
    by (intro takes_lift)
  then have s: "takes at (jbind (readStr ?n) (\<lambda>u. jbind (jlift (check_name ?n u)) (\<lambda>_. f ?n u))) (u @ bs) a"
    by (intro takes_then [OF take_readStr [OF n]]) simp_all
  have "takes at (readInt MAX_UNAME_LEN) (encodeInt LittleEndian [] ?n) ?n"
    using n assms(1) by (intro take_readInt) (simp_all add: MAX_UNAME_LEN_def)
  from takes_bind [where a = ?n and f = "\<lambda>n. jbind (readStr n) (\<lambda>u. jbind (jlift (check_name n u)) (\<lambda>_. f n u))", OF this s]
  show ?thesis by (simp add: encodeString_def)
qed

lemma take_response:
  assumes "length u \<le> 64" and "length h < 2 ^ 31"
  shows "takes at ResponseMessage_read (encodeString LittleEndian [] u @ encodeString LittleEndian [] h @ encodeLong LittleEndian [] nonce)
    \<lparr>jr_messageLen = 0, jr_usernameLength = word_of_nat (length u), jr_username = string_of u,
      jr_hashLen = word_of_nat (length h), jr_hash = string_of h, jr_nonce = nonce\<rparr>"
proof -
  let ?n = "word_of_nat (length h) :: cint"
  have n: "sint ?n = int (length h)" using assms(2) by (intro sint_word_of_nat32) simp
  have i: "takes at (readInt (2 ^ 31 - 1)) (encodeInt LittleEndian [] ?n) ?n"
    using n sint_lt [of ?n] by (intro take_readInt) simp_all
  have e: "encodeString LittleEndian [] h @ encodeLong LittleEndian [] nonce = encodeInt LittleEndian [] ?n @ h @ encodeLong LittleEndian [] nonce"
    by (simp add: encodeString_def)
  show ?thesis
    unfolding ResponseMessage_read_def e
    apply (rule take_checked_name [OF assms(1)])
    apply (rule takes_then [OF i])
     apply (rule takes_lift [where b = "()"], use n in simp)
     apply (rule takes_then [OF take_readStr [OF n]])
      apply (rule takes_lift [where b = "()"], simp)
      apply (rule takes_map [OF take_readLong])
      apply (rule refl)+
    done
qed

end

text \<open>No poll with a positive time can be read back.\<close>

lemma poll_not_read:
  assumes u: "length u \<le> 64" and t: "0 < sint t"
    and s: "pending s = encodeString LittleEndian [] u @ encodeLong LittleEndian [] t @ rest"
  shows "\<exists>q. PollMessage_read now s = (babble_throw, s\<lparr>inq := q\<rparr>)"
proof -
  let ?n = "word_of_nat (length u) :: cint"
  have n: "sint ?n = int (length u)" using u by (intro sint_word_of_nat32) simp
  have c: "check_name ?n (string_of u) = Inr ()" using n u by (simp add: check_name_def MAX_UNAME_LEN_def)
  have "takes comes (readInt MAX_UNAME_LEN) (encodeInt LittleEndian [] ?n) ?n"
    using n u by (intro stream.take_readInt) (simp_all add: MAX_UNAME_LEN_def)
  then obtain q1 where q1: "readInt MAX_UNAME_LEN s = (Inr ?n, s\<lparr>inq := q1\<rparr>)"
    "comes (u @ encodeLong LittleEndian [] t @ rest) (s\<lparr>inq := q1\<rparr>)"
    using s unfolding takes_def comes_def encodeString_def by fastforce
  obtain q2 where q2: "readStr ?n (s\<lparr>inq := q1\<rparr>) = (Inr (string_of u), s\<lparr>inq := q2\<rparr>)"
    "comes (encodeLong LittleEndian [] t @ rest) (s\<lparr>inq := q2\<rparr>)"
    using stream.take_readStr [OF n] q1(2) unfolding takes_def by fastforce
  obtain q3 where "readLong (s\<lparr>inq := q2\<rparr>) = (Inr t, s\<lparr>inq := q3\<rparr>)"
    using stream.take_readLong [of t] q2(2) unfolding takes_def by fastforce
  with q1(1) q2(1) c t show ?thesis
    by (intro exI [of _ q3]) (cases "sint now < sint t"; simp add: PollMessage_read_def jbind_def jlift_def)
qed

section \<open>Setters that break the message\<close>

text \<open>A small even number in a byte, and what \<open>findError\<close> makes of it.\<close>

lemma small_number:
  assumes "0 \<le> x" and "x < 128"
  shows "sint (word_of_int x :: byte) = x" "sint (word_of_int x :: cint) = x" "uint (word_of_int x :: cint) = x"
    "(scast (word_of_int x :: byte) :: cint) = word_of_int x" "(ucast (word_of_int x :: cint) :: byte) = word_of_int x"
proof -
  show b: "sint (word_of_int x :: byte) = x" "sint (word_of_int x :: cint) = x"
    using assms by (simp_all add: sint_sbintrunc' signed_take_bit_int_eq_self)
  show u: "uint (word_of_int x :: cint) = x" using assms by (simp add: unsigned_of_int take_bit_int_eq_self)
  show "(scast (word_of_int x :: byte) :: cint) = word_of_int x" by (simp add: scast_eq b)
  show "(ucast (word_of_int x :: cint) :: byte) = word_of_int x"
    using assms by (intro word_uint_eqI) (simp add: unsigned_ucast_eq u unsigned_of_int)
qed

lemma even_byte:
  assumes "0 \<le> n" and "n < 64"
  shows "findError (word_of_int (2 * n)) = n" and "mod_binary (word_of_int (2 * n)) = 0"
proof -
  have x: "0 \<le> 2 * n" "2 * n < 128" using assms by simp_all
  show "mod_binary (word_of_int (2 * n)) = 0" unfolding mod_binary_def small_number(1) [OF x] using assms by simp
  have half: "uint (drop_bit 1 w) = uint w div 2" for w :: cint by (simp add: drop_bit_eq_div uint_div)
  have "uint (drop_bit 1 (word_of_int (2 * n) :: cint)) = n"
    unfolding half small_number(3) [OF x] by simp
  also have "n = uint (word_of_int n :: cint)" using small_number(3) [of n] assms by simp
  finally have "drop_bit 1 (word_of_int (2 * n) :: cint) = word_of_int n" by (rule word_uint_eqI)
  then show "findError (word_of_int (2 * n)) = n"
    unfolding findError_def small_number(4) [OF x] using small_number(2) [of n] assms by simp
qed

lemma setErr_shifts:
  assumes "mod_binary (ja_errSender m) = k" and "0 \<le> k" and "0 \<le> e" and "k + e < 64"
  shows "ack_getSender_J (ja_setErr (word_of_int e) m) = SERVER_J"
    and "findError (ja_errSender (ja_setErr (word_of_int e) m)) = e + k"
proof -
  have s: "sint (word_of_int e :: cint) = e" and x: "0 \<le> 2 * (e + k)" "2 * (e + k) < 128"
    using assms by (simp_all add: small_number)
  have "push_bit 1 (word_of_int k + word_of_int e :: cint) = word_of_int (2 * (e + k))"
    by (simp add: push_bit_eq_mult mult.commute add.commute distrib_left)
  note shifted = this small_number(5) [OF x]
  have sel: "ja_errSender (m\<lparr>ja_errSender := b\<rparr>) = b" for b by simp
  have "UPPER_BYTE_SIZE > sint (word_of_int e :: cint)" unfolding s using assms by (simp add: UPPER_BYTE_SIZE_def)
  then have "ja_errSender (ja_setErr (word_of_int e) m) = word_of_int (2 * (e + k))"
    unfolding ja_setErr_def by (simp only: if_True sel shifted assms(1))
  then show "ack_getSender_J (ja_setErr (word_of_int e) m) = SERVER_J"
    "findError (ja_errSender (ja_setErr (word_of_int e) m)) = e + k"
    using even_byte [of "e + k"] assms by (simp_all add: ack_getSender_J_def SERVER_J_def)
qed

text \<open>A key set with \<open>setSymKey\<close> is not the one \<open>encode\<close> writes.\<close>

lemma symKey_not_encoded:
  assumes "length key = 128" and "jl_encodedKey m = None"
  shows "\<exists>m'. jl_setSymKey key m = (Inr (), m') \<and> None \<in> set (jl_encode m')"
  using assms by (auto simp: jl_setSymKey_def Let_def jl_encode_def)

lemma write_null: "None \<in> set ws \<Longrightarrow> send_plan s = [] \<Longrightarrow> \<exists>s'. write_each ws s = (Inl (JThrow NullPointerException), s')"
proof (induction ws arbitrary: s)
  case (Cons w ws)
  show ?case
  proof (cases w)
    case None
    then show ?thesis by (simp add: jlift_def)
  next
    case (Some bs)
    with Cons.prems Cons.IH [of "s\<lparr>out := out s @ bs, send_plan := []\<rparr>"] show ?thesis by (simp add: jbind_def)
  qed
qed simp

section \<open>Whole frames\<close>

lemma response_read_back:
  assumes "good_name u" and "is_ascii h" and "length h = 64"
  shows "\<exists>m. ResponseMessage_new (len u) u (len h) h nonce = Inr m \<and> (\<forall>s rest. pending s = writes (jr_encode m) @ rest \<longrightarrow>
    (\<exists>q. jbind BabbleOnMessage_read (\<lambda>_. ResponseMessage_read) s = (Inr (m\<lparr>jr_messageLen := 0\<rparr>), s\<lparr>inq := q\<rparr>) \<and> concat q = rest))"
proof -
  note d = good_nameD [OF assms(1)]
  let ?m = "\<lparr>jr_messageLen = word_of_nat (80 + length u), jr_usernameLength = len u, jr_username = u,
      jr_hashLen = len h, jr_hash = h, jr_nonce = nonce\<rparr>"
  have n: "80 + length u < 2 ^ 31" using d(4) by simp
  have "(4 * 2 + len u + len h + 8 :: cint) = word_of_nat (80 + length u)" by (simp add: len_def assms(3))
  then have new: "ResponseMessage_new (len u) u (len h) h nonce = Inr ?m"
    using BabbleOnMessage_ok [OF _ n, of "ordinal ResponseType"] len_sum [OF n] d(6) by (simp add: ResponseMessage_new_def) (simp add: len_def)
  have w: "writes (jr_encode ?m) = frame_header LittleEndian 2 (word_of_nat (80 + length u)) @
      encodeString LittleEndian [] (getBytes u) @ encodeString LittleEndian [] (getBytes h) @ encodeLong LittleEndian [] nonce"
    using name_field [OF d(1)] name_field [OF assms(2)] by (simp add: jr_encode_def to_bytes_long)
  have "0 \<le> sint (word_of_nat (80 + length u) :: clong)" using n by (subst sint_word_of_nat64) simp_all
  from stream.take_header [OF this, of 2] have
    "takes comes (jbind BabbleOnMessage_read (\<lambda>_. ResponseMessage_read)) (writes (jr_encode ?m)) (?m\<lparr>jr_messageLen := 0\<rparr>)"
    unfolding w by (rule takes_bind)
      (use stream.take_response [of "getBytes u" "getBytes h" nonce] d assms in \<open>simp add: string_of_getBytes len_def\<close>)
  with new show ?thesis unfolding takes_def comes_def by (intro exI [of _ ?m]) (fastforce simp: pending_def)
qed

lemma poll_read_refused:
  assumes "good_name u" and "0 < sint t" and "sint t \<le> sint now"
  shows "\<exists>m. PollMessage_new now (len u) u t = Inr m \<and> (\<forall>s rest now'. pending s = writes (jp_encode m) @ rest \<longrightarrow>
    (\<exists>q. jbind BabbleOnMessage_read (\<lambda>_. PollMessage_read now') s = (babble_throw, s\<lparr>inq := q\<rparr>)))"
proof -
  note d = good_nameD [OF assms(1)]
  let ?n = "12 + length u"
  let ?m = "\<lparr>jp_messageLen = word_of_nat ?n, jp_usernameLength = len u, jp_username = u, jp_timestamp = t\<rparr>"
  have n: "?n < 2 ^ 31" using d(4) by simp
  have "(4 + len u + 8 :: cint) = word_of_nat ?n" by (simp add: len_def)
  then have new: "PollMessage_new now (len u) u t = Inr ?m"
    using BabbleOnMessage_ok [OF _ n, of "ordinal PollType"] len_sum [OF n] d(6) assms(2,3) by (simp add: PollMessage_new_def)
  have w: "writes (jp_encode ?m) = frame_header LittleEndian 5 (word_of_nat ?n) @
      encodeString LittleEndian [] (getBytes u) @ encodeLong LittleEndian [] t"
    using name_field [OF d(1)] by (simp add: jp_encode_def to_bytes_long)
  have "0 \<le> sint (word_of_nat ?n :: clong)" using n by (subst sint_word_of_nat64) simp_all
  note h = stream.take_header [OF this, of 5]
  have "\<exists>q. jbind BabbleOnMessage_read (\<lambda>_. PollMessage_read now') s = (babble_throw, s\<lparr>inq := q\<rparr>)"
    if s: "pending s = writes (jp_encode ?m) @ rest" for s rest now'
  proof -
    obtain q where q: "BabbleOnMessage_read s = (Inr (5, word_of_nat ?n), s\<lparr>inq := q\<rparr>)"
      "pending (s\<lparr>inq := q\<rparr>) = encodeString LittleEndian [] (getBytes u) @ encodeLong LittleEndian [] t @ rest"
      using h s unfolding takes_def comes_def w by fastforce
    from poll_not_read [OF _ assms(2) q(2), of now'] d(3,4) q(1) show ?thesis by (auto simp: jbind_def)
  qed
  with new show ?thesis by blast
qed

end
