(* ===== verification/SurveyFile.thy ===== *)
theory SurveyFile
  imports Decimal
begin

text \<open>
  \<open>readSurvey\<close> of \<open>mockServer/SurveyCommon.cpp\<close>, which parses a list of questions from a text
  stream, over the operations of \<open>std::istream\<close> it uses; and the text format it inverts.
\<close>

section \<open>Text streams\<close>

text \<open>What is left of the text, and the state bits. A stream buffer never fails here (\<open>badbit\<close>).\<close>

record istream =
  is_rest :: bytes
  is_eof :: bool
  is_fail :: bool

definition is_good :: "istream \<Rightarrow> bool" where
  "is_good s \<longleftrightarrow> \<not> is_eof s \<and> \<not> is_fail s"

definition is_space :: "byte \<Rightarrow> bool" where
  "is_space b \<longleftrightarrow> b = 32 \<or> 9 \<le> b \<and> b \<le> 13"

definition is_digit :: "byte \<Rightarrow> bool" where
  "is_digit b \<longleftrightarrow> 48 \<le> b \<and> b \<le> 57"

text \<open>An optional sign in front of a numeral.\<close>

fun take_sign :: "bytes \<Rightarrow> bool \<times> bytes" where
  "take_sign (b # bs) = (if b = 45 then (True, bs) else if b = 43 then (False, bs) else (False, b # bs))"
| "take_sign [] = (False, [])"

text \<open>
  \<open>stream >> count\<close> for a \<open>count\<close> that is 0: white space is skipped, then a decimal numeral is
  read as far as it goes. Without digits the value is 0, out of range it is the nearest
  \<open>int\<close>, and the stream fails.
\<close>

definition read_int :: "istream \<Rightarrow> cint \<times> istream" where
  "read_int s =
     (if \<not> is_good s then (0, s\<lparr>is_fail := True\<rparr>)
      else case dropWhile is_space (is_rest s) of
        [] \<Rightarrow> (0, \<lparr>is_rest = [], is_eof = True, is_fail = True\<rparr>)
      | b # bs \<Rightarrow>
          (case take_sign (b # bs) of (neg, bs) \<Rightarrow>
             let ds = takeWhile is_digit bs; bs = dropWhile is_digit bs;
                 n = (if neg then - int (number ds) else int (number ds)) in
             (word_of_int (max (- (2 ^ 31)) (min (2 ^ 31 - 1) n)),
              \<lparr>is_rest = bs, is_eof = (bs = []), is_fail = (ds = [] \<or> n < - (2 ^ 31) \<or> 2 ^ 31 \<le> n)\<rparr>)))"

text \<open>\<open>stream.ignore()\<close>: one character is dropped.\<close>

definition ignore_char :: "istream \<Rightarrow> istream" where
  "ignore_char s =
     (if \<not> is_good s then s\<lparr>is_fail := True\<rparr>
      else case is_rest s of [] \<Rightarrow> s\<lparr>is_eof := True\<rparr> | b # bs \<Rightarrow> s\<lparr>is_rest := bs\<rparr>)"

text \<open>
  \<open>getline(stream, str)\<close>: the characters up to the next newline, which is dropped. The string
  keeps its value when the stream is not good; reading nothing at all is a failure.
\<close>

definition getline :: "bytes \<Rightarrow> istream \<Rightarrow> bytes \<times> istream" where
  "getline str s =
     (if \<not> is_good s then (str, s\<lparr>is_fail := True\<rparr>)
      else let line = takeWhile (\<lambda>b. b \<noteq> 10) (is_rest s) in
        case dropWhile (\<lambda>b. b \<noteq> 10) (is_rest s) of
          [] \<Rightarrow> (line, \<lparr>is_rest = [], is_eof = True, is_fail = (line = [])\<rparr>)
        | b # bs \<Rightarrow> (line, s\<lparr>is_rest := bs\<rparr>))"

section \<open>Reading a survey\<close>

record Question =
  qText :: bytes
  rList :: "bytes list"

definition Question_new :: Question where
  "Question_new = \<lparr>qText = [], rList = []\<rparr>"

text \<open>
  \<open>vector<T>(count)\<close>: the \<open>int\<close> becomes a \<open>size_t\<close>, so that a negative one is larger than any
  vector can be.
\<close>

definition vector_of :: "cint \<Rightarrow> 'a \<Rightarrow> 'a list res" where
  "vector_of count x =
     (if sint count < 0 then Inl (Throw LengthError) else Inr (replicate (nat (sint count)) x))"

text \<open>The inner loop, over the elements of \<open>rList\<close>.\<close>

primrec read_responses :: "bytes list \<Rightarrow> istream \<Rightarrow> bytes list \<times> istream" where
  "read_responses [] s = ([], s)"
| "read_responses (r # rs) s =
     (case getline r s of (r, s) \<Rightarrow> case read_responses rs s of (rs, s) \<Rightarrow> (r # rs, s))"

text \<open>The body of the outer loop, for the element \<open>x\<close> of \<open>qList\<close>, and the loop.\<close>

definition read_question :: "Question \<Rightarrow> istream \<Rightarrow> unit res \<times> Question \<times> istream" where
  "read_question x s =
     (case getline (qText x) s of (line, s) \<Rightarrow>
      let x = x\<lparr>qText := line\<rparr> in
      case read_int s of (count, s) \<Rightarrow>
      let s = ignore_char s in
      case vector_of count [] of
        Inl e \<Rightarrow> (Inl e, x, s)
      | Inr rs \<Rightarrow> (case read_responses rs s of (rs, s) \<Rightarrow> (Inr (), x\<lparr>rList := rs\<rparr>, s)))"

primrec read_questions :: "Question list \<Rightarrow> istream \<Rightarrow> unit res \<times> Question list \<times> istream" where
  "read_questions [] s = (Inr (), [], s)"
| "read_questions (x # xs) s =
     (case read_question x s of
        (Inl e, x, s) \<Rightarrow> (Inl e, x # xs, s)
      | (Inr _, x, s) \<Rightarrow> (case read_questions xs s of (r, xs, s) \<Rightarrow> (r, x # xs, s)))"

text \<open>\<open>qList\<close> is a reference parameter: its value after the call is part of the result.\<close>

definition readSurvey :: "istream \<Rightarrow> Question list \<Rightarrow> bool res \<times> Question list \<times> istream" where
  "readSurvey s qList =
     (case read_int s of (count, s) \<Rightarrow>
      let s = ignore_char s in
      case vector_of count Question_new of
        Inl e \<Rightarrow> (Inl e, qList, s)
      | Inr qList \<Rightarrow>
          (case read_questions qList s of
             (Inl e, qList, s) \<Rightarrow> (Inl e, qList, s)
           | (Inr _, qList, s) \<Rightarrow> (Inr (\<not> is_fail s), qList, s)))"

section \<open>The format\<close>

text \<open>Lines, a counted block of lines, and a survey: a counted block of questions.\<close>

definition line_of :: "bytes \<Rightarrow> bytes" where
  "line_of str = str @ [10]"

definition question_text :: "Question \<Rightarrow> bytes" where
  "question_text q = line_of (qText q) @ line_of (decimal_nat (length (rList q))) @ concat (map line_of (rList q))"

definition survey_text :: "Question list \<Rightarrow> bytes" where
  "survey_text qs = line_of (decimal_nat (length qs)) @ concat (map question_text qs)"

definition question_ok :: "Question \<Rightarrow> bool" where
  "question_ok q \<longleftrightarrow> length (rList q) < 2 ^ 31 \<and> 10 \<notin> set (qText q) \<and> (\<forall>r \<in> set (rList q). 10 \<notin> set r)"

abbreviation at :: "bytes \<Rightarrow> istream" where
  "at cs \<equiv> \<lparr>is_rest = cs, is_eof = False, is_fail = False\<rparr>"

text \<open>Each operation on what the format puts in front of it.\<close>

lemma take_drop_line:
  assumes "10 \<notin> set str"
  shows "takeWhile (\<lambda>b. b \<noteq> 10) (str @ 10 # cs) = str" "dropWhile (\<lambda>b. b \<noteq> 10) (str @ 10 # cs) = 10 # cs"
  using assms by (induction str) auto

lemma getline_line [simp]: "10 \<notin> set str \<Longrightarrow> getline old (at (line_of str @ cs)) = (str, at cs)"
  by (simp add: getline_def is_good_def line_of_def take_drop_line)

lemma ignore_newline [simp]: "ignore_char (at (10 # cs)) = at cs"
  by (simp add: ignore_char_def is_good_def)

lemma numeral_first:
  assumes "decimal_nat n = b # bs"
  shows "is_digit b" "\<not> is_space b" "b \<noteq> 45" "b \<noteq> 43"
proof -
  have "48 \<le> b \<and> b \<le> 57" using decimal_nat_digits [of b n] assms by simp
  then show "is_digit b" "\<not> is_space b" "b \<noteq> 45" "b \<noteq> 43"
    by (auto simp: is_digit_def is_space_def word_le_nat_alt)
qed

lemma numeral_digits: "list_all is_digit (decimal_nat n)"
  by (simp add: list_all_iff is_digit_def decimal_nat_digits)

lemma newline_no_digit [simp]: "\<not> is_digit 10"
  by (simp add: is_digit_def)

lemma take_drop_digits:
  "list_all is_digit ds \<Longrightarrow> takeWhile is_digit (ds @ 10 # cs) = ds \<and> dropWhile is_digit (ds @ 10 # cs) = 10 # cs"
  by (induction ds) simp_all

lemma read_numeral:
  assumes "n < 2 ^ 31"
  shows "read_int (at (decimal_nat n @ 10 # cs)) = (word_of_nat n, at (10 # cs))"
proof -
  obtain b bs where d: "decimal_nat n = b # bs" using decimal_nat_nonempty by (cases "decimal_nat n") auto
  note first = numeral_first [OF d] and ds = take_drop_digits [OF numeral_digits, of n cs, unfolded d]
  have v: "number (b # bs) = n" using number_decimal [of n] by (simp only: d)
  have "read_int (at (b # bs @ 10 # cs)) = (word_of_int (int n), at (10 # cs))"
    using first ds assms by (simp add: read_int_def is_good_def Let_def v)
  then show ?thesis by (simp add: d)
qed

lemma read_count:
  assumes "n < 2 ^ 31"
  shows "read_int (at (line_of (decimal_nat n) @ cs)) = (word_of_nat n, at (10 # cs))"
    and "vector_of (word_of_nat n) x = Inr (replicate n x)"
proof -
  show "read_int (at (line_of (decimal_nat n) @ cs)) = (word_of_nat n, at (10 # cs))"
    by (simp add: line_of_def read_numeral [OF assms])
  have "sint (word_of_nat n :: cint) = int n" using assms by (simp add: signed_of_nat signed_take_bit_int_eq_self)
  then show "vector_of (word_of_nat n) x = Inr (replicate n x)" by (simp add: vector_of_def)
qed

section \<open>A printed survey is read back\<close>

lemma read_responses_lines [simp]:
  "\<forall>r \<in> set rs. 10 \<notin> set r \<Longrightarrow> length olds = length rs \<Longrightarrow>
   read_responses olds (at (concat (map line_of rs) @ cs)) = (rs, at cs)"
  by (induction olds rs rule: list_induct2') simp_all

lemma read_question_text:
  assumes "question_ok q"
  shows "read_question x (at (question_text q @ cs)) = (Inr (), q, at cs)"
  using assms by (simp add: read_question_def question_text_def question_ok_def read_count Let_def)

lemma read_questions_texts:
  "list_all question_ok qs \<Longrightarrow> length xs = length qs \<Longrightarrow>
   read_questions xs (at (concat (map question_text qs) @ cs)) = (Inr (), qs, at cs)"
  by (induction xs qs rule: list_induct2') (simp_all add: read_question_text)

lemma readSurvey_text:
  assumes "list_all question_ok qs" and "length qs < 2 ^ 31"
  shows "readSurvey (at (survey_text qs @ cs)) old = (Inr True, qs, at cs)"
  using read_questions_texts [OF assms(1), of "replicate (length qs) Question_new" cs]
  by (simp add: readSurvey_def survey_text_def read_count [OF assms(2)] Let_def)

section \<open>Other texts\<close>

text \<open>A stream that has failed stays failed and nothing more is read from it.\<close>

lemma failed_reads:
  assumes "is_fail s"
  shows "getline str s = (str, s)" "read_int s = (0, s)" "ignore_char s = s"
  using assms by (simp_all add: getline_def read_int_def ignore_char_def is_good_def)

lemma failed_responses: "is_fail s \<Longrightarrow> read_responses rs s = (rs, s)"
  by (induction rs) (simp_all add: failed_reads)

lemma failed_questions: "is_fail s \<Longrightarrow> \<forall>x \<in> set xs. rList x = [] \<Longrightarrow> read_questions xs s = (Inr (), xs, s)"
  by (induction xs) (simp_all add: read_question_def failed_reads vector_of_def Let_def)

text \<open>The lists have the announced lengths, whatever the text goes on with.\<close>

lemma length_read_questions: "read_questions xs s = (r, ys, s') \<Longrightarrow> length ys = length xs"
  by (induction xs arbitrary: s ys) (auto split: prod.splits sum.splits)

lemma readSurvey_announced:
  assumes "readSurvey s old = (Inr ok, qs, s')"
  shows "length qs = nat (sint (fst (read_int s))) \<and> ok = (\<not> is_fail s')"
proof -
  obtain count s1 where c: "read_int s = (count, s1)" by (cases "read_int s")
  obtain r xs s2 where r: "read_questions (replicate (nat (sint count)) Question_new) (ignore_char s1) = (r, xs, s2)"
    by (metis surj_pair)
  have "length xs = nat (sint count)"
    using length_read_questions [OF r] by simp
  with assms c r show ?thesis
    by (auto simp: readSurvey_def vector_of_def Let_def split: if_splits sum.splits)
qed

lemma readSurvey_negative:
  assumes "sint (fst (read_int s)) < 0"
  shows "fst (readSurvey s old) = Inl (Throw LengthError)" "fst (snd (readSurvey s old)) = old"
  using assms by (simp_all add: readSurvey_def vector_of_def Let_def case_prod_beta)

text \<open>A survey whose text stops behind the number of questions: that many empty questions.\<close>

lemma readSurvey_cut:
  assumes "n < 2 ^ 31" and "0 < n"
  shows "fst (readSurvey (at (line_of (decimal_nat n))) old) = Inr False \<and>
    fst (snd (readSurvey (at (line_of (decimal_nat n))) old)) = replicate n Question_new"
proof -
  have r: "readSurvey (at (line_of (decimal_nat n))) old =
    (case read_questions (replicate n Question_new) (at []) of
       (Inl e, qs, s) \<Rightarrow> (Inl e, qs, s) | (Inr _, qs, s) \<Rightarrow> (Inr (\<not> is_fail s), qs, s))"
    using read_count(1) [OF assms(1), of "[]"]
    by (simp add: readSurvey_def read_count(2) [OF assms(1)] Let_def)
  obtain k where k: "n = Suc k" using assms(2) by (cases n) auto
  let ?s = "\<lparr>is_rest = [], is_eof = True, is_fail = True\<rparr> :: istream"
  have "read_question Question_new (at []) = (Inr (), Question_new, ?s)"
    by (simp add: read_question_def getline_def is_good_def failed_reads vector_of_def Let_def Question_new_def)
  moreover have "read_questions (replicate k Question_new) ?s = (Inr (), replicate k Question_new, ?s)"
    by (rule failed_questions) (simp_all add: Question_new_def)
  ultimately show ?thesis unfolding r by (simp add: k)
qed

end
