(* ===== verification/DateTime.thy ===== *)
theory DateTime
  imports SurveyFile Sha256
begin

text \<open>
  \<open>UnixTimeFromMysqlString\<close> of \<open>mockServer/MockServer.cpp\<close>: \<open>strptime\<close> with the format
  \<open>%Y-%m-%d %H:%M:%S\<close> into a \<open>struct tm\<close> that nothing initialises, then \<open>mktime\<close>, which is a
  parameter. The result of \<open>strptime\<close> is not looked at, so a text that does not match leaves
  the remaining fields as they were.
\<close>

section \<open>The library functions\<close>

text \<open>The fields \<open>mktime\<close> reads; it ignores the day of the week and of the year.\<close>

record tm =
  tm_sec :: int
  tm_min :: int
  tm_hour :: int
  tm_mday :: int
  tm_mon :: int
  tm_year :: int
  tm_isdst :: int

definition digit_value_of :: "byte \<Rightarrow> int" where
  "digit_value_of b = uint b - 48"

text \<open>A number of at most \<open>n\<close> digits between \<open>lo\<close> and \<open>hi\<close>, behind any white space.\<close>

fun more_digits :: "int \<Rightarrow> nat \<Rightarrow> int \<Rightarrow> bytes \<Rightarrow> int \<times> bytes" where
  "more_digits hi n v [] = (v, [])"
| "more_digits hi n v (b # bs) =
     (if 0 < n \<and> v * 10 \<le> hi \<and> is_digit b then more_digits hi (n - 1) (v * 10 + digit_value_of b) bs
      else (v, b # bs))"

definition get_number :: "int \<Rightarrow> int \<Rightarrow> nat \<Rightarrow> bytes \<Rightarrow> (int \<times> bytes) option" where
  "get_number lo hi n s =
     (case dropWhile is_space s of
        [] \<Rightarrow> None
      | b # bs \<Rightarrow>
          if \<not> is_digit b then None
          else case more_digits hi (n - 1) (digit_value_of b) bs of (v, rest) \<Rightarrow>
            if v < lo \<or> hi < v then None else Some (v, rest))"

text \<open>A conversion specification, a character and a space of the format; \<open>None\<close> once one did not match.\<close>

definition conversion :: "int \<Rightarrow> int \<Rightarrow> nat \<Rightarrow> (int \<Rightarrow> tm \<Rightarrow> tm) \<Rightarrow> bytes option \<times> tm \<Rightarrow> bytes option \<times> tm" where
  "conversion lo hi n assign = (\<lambda>(s, t). case Option.bind s (get_number lo hi n) of
     None \<Rightarrow> (None, t) | Some (v, rest) \<Rightarrow> (Some rest, assign v t))"

definition character :: "byte \<Rightarrow> bytes option \<times> tm \<Rightarrow> bytes option \<times> tm" where
  "character c = (\<lambda>(s, t). (case s of Some (b # bs) \<Rightarrow> if b = c then Some bs else None | _ \<Rightarrow> None, t))"

definition white_space :: "bytes option \<times> tm \<Rightarrow> bytes option \<times> tm" where
  "white_space = (\<lambda>(s, t). (map_option (dropWhile is_space) s, t))"

definition strptime :: "bytes \<Rightarrow> tm \<Rightarrow> bytes option \<times> tm" where
  "strptime s tm =
     (conversion 0 61 2 (\<lambda>v t. t\<lparr>tm_sec := v\<rparr>) \<circ> character 58 \<circ>
      conversion 0 59 2 (\<lambda>v t. t\<lparr>tm_min := v\<rparr>) \<circ> character 58 \<circ>
      conversion 0 23 2 (\<lambda>v t. t\<lparr>tm_hour := v\<rparr>) \<circ> white_space \<circ>
      conversion 1 31 2 (\<lambda>v t. t\<lparr>tm_mday := v\<rparr>) \<circ> character 45 \<circ>
      conversion 1 12 2 (\<lambda>v t. t\<lparr>tm_mon := v - 1\<rparr>) \<circ> character 45 \<circ>
      conversion 0 9999 4 (\<lambda>v t. t\<lparr>tm_year := v - 1900\<rparr>)) (Some s, tm)"

section \<open>The function\<close>

text \<open>\<open>tmlol\<close> is what the variable contains when the function is called.\<close>

definition UnixTimeFromMysqlString :: "(tm \<Rightarrow> clong) \<Rightarrow> tm \<Rightarrow> bytes \<Rightarrow> clong" where
  "UnixTimeFromMysqlString mktime tmlol s = mktime (snd (strptime (c_string s) tmlol))"

section \<open>Its behaviour\<close>

text \<open>A date and time as the database prints it.\<close>

definition digit_at :: "int \<Rightarrow> byte" where
  "digit_at d = word_of_int (48 + d)"

definition two_digits :: "int \<Rightarrow> bytes" where
  "two_digits n = [digit_at (n div 10), digit_at (n mod 10)]"

definition mysql_datetime :: "int \<Rightarrow> int \<Rightarrow> int \<Rightarrow> int \<Rightarrow> int \<Rightarrow> int \<Rightarrow> bytes" where
  "mysql_datetime y mo d h mi s = two_digits (y div 100) @ two_digits (y mod 100) @ [45] @ two_digits mo @ [45] @
     two_digits d @ [32] @ two_digits h @ [58] @ two_digits mi @ [58] @ two_digits s"

lemma digit_at:
  assumes "0 \<le> d" and "d < 10"
  shows "is_digit (digit_at d)" "digit_value_of (digit_at d) = d" "\<not> is_space (digit_at d)" "digit_at d \<noteq> 0"
proof -
  have "uint (digit_at d) = 48 + d"
    using assms by (simp add: digit_at_def unsigned_of_int take_bit_int_eq_self del: of_int_add)
  with assms show "is_digit (digit_at d)" "digit_value_of (digit_at d) = d" "\<not> is_space (digit_at d)" "digit_at d \<noteq> 0"
    by (auto simp: is_digit_def is_space_def digit_value_of_def word_le_def word_uint_eq_iff)
qed

lemma get_two_digits:
  assumes "lo \<le> n" and "n \<le> hi" and "0 \<le> n" and "n < 100"
  shows "get_number lo hi 2 (two_digits n @ rest) = Some (n, rest)"
proof -
  have d: "0 \<le> n div 10" "n div 10 < 10" "0 \<le> n mod 10" "n mod 10 < 10" "n div 10 * 10 \<le> hi" using assms by auto
  have "more_digits hi 0 v rest = (v, rest)" for v by (cases rest) simp_all
  with assms d show ?thesis by (simp add: get_number_def two_digits_def digit_at)
qed

lemma get_four:
  assumes "0 \<le> a" "a < 10" "0 \<le> b" "b < 10" "0 \<le> c" "c < 10" "0 \<le> d" "d < 10"
  shows "get_number 0 9999 4 (digit_at a # digit_at b # digit_at c # digit_at d # rest) = Some (((a * 10 + b) * 10 + c) * 10 + d, rest)"
proof -
  have "more_digits 9999 0 v rest = (v, rest)" for v by (cases rest) simp_all
  with assms show ?thesis by (simp add: get_number_def digit_at eval_nat_numeral)
qed

lemma get_four_digits:
  assumes "0 \<le> y" and "y \<le> 9999"
  shows "get_number 0 9999 4 (two_digits (y div 100) @ two_digits (y mod 100) @ rest) = Some (y, rest)"
proof -
  have b: "0 \<le> n div 10 \<and> n div 10 < 10 \<and> 0 \<le> n mod 10 \<and> n mod 10 < 10" if "0 \<le> n" "n < 100" for n :: int
    using that by auto
  have "0 \<le> y div 100" "y div 100 < 100" "0 \<le> y mod 100" "y mod 100 < 100" using assms by auto
  note b [OF this(1,2)] b [OF this(3,4)]
  moreover have "((y div 100 div 10 * 10 + y div 100 mod 10) * 10 + y mod 100 div 10) * 10 + y mod 100 mod 10 = y"
  proof -
    have e: "n div 10 * 10 + n mod 10 = n" for n :: int by (rule div_mult_mod_eq)
    have "((y div 100) * 10 + y mod 100 div 10) * 10 + y mod 100 mod 10 = y div 100 * 100 + (y mod 100 div 10 * 10 + y mod 100 mod 10)"
      by (simp add: ring_distribs)
    then show ?thesis unfolding e by (simp only: div_mult_mod_eq)
  qed
  ultimately show ?thesis
    using get_four [of "y div 100 div 10" "y div 100 mod 10" "y mod 100 div 10" "y mod 100 mod 10" rest]
    unfolding two_digits_def append_Cons append_Nil by (simp only: simp_thms)
qed

lemma format_steps:
  "get_number lo hi n s = Some (v, r) \<Longrightarrow> conversion lo hi n f (Some s, t) = (Some r, f v t)"
  "character c (Some (c # s), t) = (Some s, t)"
  "0 \<le> m \<Longrightarrow> m < 100 \<Longrightarrow> white_space (Some (32 # two_digits m @ s), t) = (Some (two_digits m @ s), t)"
proof -
  show "get_number lo hi n s = Some (v, r) \<Longrightarrow> conversion lo hi n f (Some s, t) = (Some r, f v t)"
    by (simp add: conversion_def)
  show "character c (Some (c # s), t) = (Some s, t)" by (simp add: character_def)
  assume "0 \<le> m" "m < 100"
  then have "\<not> is_space (digit_at (m div 10))" by (intro digit_at) auto
  then show "white_space (Some (32 # two_digits m @ s), t) = (Some (two_digits m @ s), t)"
    by (simp add: white_space_def two_digits_def) (simp add: is_space_def)
qed

lemma datetime_bytes: "0 \<notin> set (mysql_datetime y mo d h mi s)"
  if "0 \<le> y" "y \<le> 9999" "0 \<le> mo" "mo < 100" "0 \<le> d" "d < 100" "0 \<le> h" "h < 100" "0 \<le> mi" "mi < 100" "0 \<le> s" "s < 100"
proof -
  have "0 \<notin> set (two_digits n)" if "0 \<le> n" "n < 100" for n
    using that digit_at(4) [of "n div 10"] digit_at(4) [of "n mod 10"] by (auto simp: two_digits_def)
  with that show ?thesis by (simp add: mysql_datetime_def)
qed

lemma strptime_datetime:
  assumes "0 \<le> y" "y \<le> 9999" and "1 \<le> mo" "mo \<le> 12" and "1 \<le> d" "d \<le> 31" and "0 \<le> h" "h \<le> 23" and "0 \<le> mi" "mi \<le> 59"
    and "0 \<le> s" "s \<le> 61"
  shows "strptime (mysql_datetime y mo d h mi s) t = (Some [], \<lparr>tm_sec = s, tm_min = mi, tm_hour = h, tm_mday = d,
    tm_mon = mo - 1, tm_year = y - 1900, tm_isdst = tm_isdst t\<rparr>)"
proof -
  have "get_number 0 61 2 (two_digits s) = Some (s, [])" using get_two_digits [of 0 s 61 "[]"] assms by simp
  moreover have "get_number 0 9999 4 (two_digits (y div 100) @ two_digits (y mod 100) @ rest) = Some (y, rest)" for rest
    by (rule get_four_digits [OF assms(1,2)])
  moreover have "get_number 1 12 2 (two_digits mo @ rest) = Some (mo, rest)" "get_number 1 31 2 (two_digits d @ rest) = Some (d, rest)"
    "get_number 0 23 2 (two_digits h @ rest) = Some (h, rest)" "get_number 0 59 2 (two_digits mi @ rest) = Some (mi, rest)" for rest
    using assms by (simp_all add: get_two_digits)
  moreover have "0 \<le> h" "h < 100" using assms by simp_all
  ultimately show ?thesis
    unfolding strptime_def mysql_datetime_def comp_def append_Cons append_Nil by (simp only: format_steps) simp
qed

lemma no_date:
  assumes "s = [] \<or> \<not> is_digit (hd s) \<and> \<not> is_space (hd s)"
  shows "strptime s t = (None, t)"
proof -
  have "get_number lo hi n s = None" for lo hi n using assms by (cases s) (auto simp: get_number_def)
  then show ?thesis by (simp add: strptime_def conversion_def character_def white_space_def)
qed

end
