(* ===== verification/Demo.thy ===== *)
theory Demo
  imports ChatStore
begin

text \<open>
  A concrete environment and the run of a concrete client, from login to a poll and a posted
  message. The parameters are instantiated by simple functions that satisfy what the
  theorems ask of them.
\<close>

section \<open>The environment\<close>

definition demo_host :: host where
  "demo_host = \<lparr>host_endian = LittleEndian, max_vla = 1000000, stale_header = \<lambda>_ _. 0, stale_time = \<lambda>_ _. 0\<rparr>"

definition demo_rows :: "bytes list list" where
  "demo_rows = [[ascii ''hi'', ascii ''bob'', ascii ''eve'', ascii ''2016-04-08'']]"

definition demo_dbms :: "unit dbms" where
  "demo_dbms = \<lparr>db_connect = \<lambda>d. (True, d),
     db_query = \<lambda>sql ps d. ((if sql = SELECT_PASSWORD then [[ascii ''secret'']]
       else if sql = SELECT_MESSAGES then demo_rows else [[ascii ''7'']], True), d),
     db_update = \<lambda>sql ps d. (True, d)\<rparr>"

definition demo_pem :: bytes where
  "demo_pem = ASYMMETRIC_HEADER @ replicate 64 65 @ [10] @ replicate 64 65 @ [10] @ replicate 64 65 @ [10] @
     replicate 24 65 @ [10] @ ASYMMETRIC_FOOTER"

definition demo_key :: bytes where "demo_key = replicate 16 7"

definition demo_env :: "unit env" where
  "demo_env = \<lparr>env_host = demo_host, env_dbms = demo_dbms, env_rand = \<lambda>i. word_of_nat i,
     env_sha = \<lambda>_. replicate 32 0, env_pem = demo_pem, env_rsa = \<lambda>_. Some demo_key,
     env_encrypt = \<lambda>k iv p. (p, False), env_decrypt = \<lambda>k iv p. (p, False), env_now = \<lambda>_. 0,
     env_buffer = \<lambda>_. 0, env_stale = \<lambda>_ _. 0, env_spare = \<lambda>_. True, env_stmt_null = True\<rparr>"

definition demo_login :: SPChatLogin where
  "demo_login = \<lparr>lg_username = ascii ''bob'', lg_keyType = NO_KEY, lg_key = [], lg_encSymKey = []\<rparr>"

definition demo_response :: SPChatResponse where
  "demo_response = \<lparr>rs_hash = hex (replicate 32 0), rs_username = ascii ''bob'', rs_nonce = replicate 8 1\<rparr>"

definition demo_server_login :: SPChatLogin where
  "demo_server_login = \<lparr>lg_username = [], lg_keyType = ASYMMETRIC_KEY, lg_key = take 271 demo_pem, lg_encSymKey = []\<rparr>"

definition demo_poll :: SPChatPoll where
  "demo_poll = \<lparr>pl_username = ascii ''bob'', pl_time = 1460000000000\<rparr>"

definition demo_msg :: SPChatMsgMessage where
  "demo_msg = \<lparr>mm_sender = ascii ''bob'', mm_receiver = ascii ''eve'', mm_message = ascii ''hello'',
     mm_decryptMsgLen = 5, mm_msgNum = 1, mm_totalMsg = 1, mm_time = 1460000000000\<rparr>"

definition demo_post :: SPChatPollResponse where
  "demo_post = \<lparr>pr_username = ascii ''bob'', pr_msgList = [demo_msg], pr_listNum = 1, pr_totalList = 1\<rparr>"

definition demo_sock :: "bytes list \<Rightarrow> sock" where
  "demo_sock q = \<lparr>sockDesc = 4, inq = q, in_end = PeerSilent, out = [], send_plan = [], closes = []\<rparr>"

definition demo_world_of :: "bytes list \<Rightarrow> unit world" where
  "demo_world_of q = \<lparr>w_sock = demo_sock q, w_db = (), w_trace = [], w_decodes = 0, w_clock = 0\<rparr>"

definition demo_world :: "unit world" where
  "demo_world = demo_world_of [encode LittleEndian [] (MLogin demo_login),
     encode LittleEndian [] (MResponse demo_response), encode LittleEndian [] (MLogin demo_login),
     symmetric_frame (ascii ''bob'') (replicate 128 9), encode LittleEndian [] (MPoll demo_poll),
     encode LittleEndian [] (MPollResponse demo_post)]"

lemmas demo_defs = demo_host_def demo_env_def demo_dbms_def demo_rows_def demo_key_def demo_login_def
  demo_response_def demo_server_login_def demo_poll_def demo_msg_def demo_post_def demo_sock_def
  demo_world_of_def

section \<open>Its properties\<close>

lemma demo_good: "env_good demo_env" and demo_host_good: "host_good (env_host demo_env)"
  by (simp_all add: env_good_def host_good_def demo_defs validPositiveNum_def)

lemma demo_host [simp]: "env_host demo_env = demo_host" "host_endian demo_host = LittleEndian"
  "max_vla demo_host = 1000000"
  by (simp_all add: demo_env_def demo_host_def)

lemma demo_sha [simp]: "env_sha demo_env x = replicate 32 0"
  by (simp add: demo_env_def)

lemma demo_fresh: "fresh_session 4 demo_world"
  by (simp add: fresh_session_def demo_world_def demo_defs)

lemma bob_valid: "validUsername (ascii ''bob'')" and eve_valid: "validUsername (ascii ''eve'')"
  by (simp_all add: validUsername_def ascii_def c_isalnum_def)

lemma demo_receivable:
  "receivable demo_env (MLogin demo_login)" "receivable demo_env (MResponse demo_response)"
  "receivable demo_env (MPoll demo_poll)" "receivable demo_env (MPollResponse demo_post)"
proof -
  show "receivable demo_env (MLogin demo_login)"
    by (simp add: receivable_def demo_login_def lg_sendable_def lg_valid_def bob_valid ok_string_def
        key_consts lg_middle payload_fits_def)
  show "receivable demo_env (MResponse demo_response)"
    by (simp add: receivable_def demo_response_def rs_sendable_def rs_valid_def bob_valid ok_string_def
        size_defs rs_middle payload_fits_def)
  show "receivable demo_env (MPoll demo_poll)"
    by (simp add: receivable_def demo_poll_def pl_valid_def bob_valid ok_string_def pl_middle payload_fits_def)
  show "receivable demo_env (MPollResponse demo_post)"
    by (simp add: receivable_def demo_post_def demo_msg_def pr_valid_def mm_valid_def bob_valid eve_valid
        ok_string_def pr_middle encodeMsgList_append [of LittleEndian "[]"] length_encodeMessage payload_fits_def
        validPositiveNum_def MAX_MESSAGE_LENGTH_def)
qed

lemma demo_knows: "knows_password demo_env (ascii ''bob'') demo_response [[ascii ''secret'']] () () ()"
  by (simp add: knows_password_def demo_defs getString_def challenge_of_def ascii_def)

lemma length_demo_pem: "length demo_pem = 272"
  by (simp add: demo_pem_def)

lemma demo_pem_key: "pem_key (take 271 demo_pem)"
proof -
  have t: "take 271 demo_pem = ASYMMETRIC_HEADER @ replicate 64 65 @ [10] @ replicate 64 65 @ [10] @
      replicate 64 65 @ [10] @ replicate 24 65 @ [10] @ ascii ''-----END PUBLIC KEY-----''"
    by (simp add: demo_pem_def ASYMMETRIC_FOOTER_def)
  show ?thesis
    unfolding t pem_key_def
    by (simp add: key_consts ASYMMETRIC_ENDLINE_POS_def nth_append)
qed

lemma demo_key_login: "server_key_login demo_env = Inr demo_server_login"
proof -
  have "c_string demo_pem = demo_pem"
    unfolding c_string_def takeWhile_eq_all_conv
    by (simp add: demo_pem_def ASYMMETRIC_HEADER_def ASYMMETRIC_FOOTER_def ascii_def key_consts)
  then have c: "c_string (env_pem demo_env) @ [0] = demo_pem @ [0]" by (simp add: demo_env_def)
  have r: "rdn (demo_pem @ [0]) 0 271 = Inr (take 271 demo_pem)"
    using rdn_eq [of 0 271 "demo_pem @ [0]"] length_demo_pem by simp
  have "setAsymmetricKey (take 271 demo_pem) m = Inr (m\<lparr>lg_keyType := ASYMMETRIC_KEY, lg_key := take 271 demo_pem\<rparr>)" for m
    using setAsymmetricKey_iff [of "take 271 demo_pem" m] demo_pem_key length_demo_pem by (simp add: key_consts)
  then show ?thesis
    unfolding server_key_login_def c
    by (simp add: SPChatLogin_new_def lg_setUsername_def validUsername_def lg_uninit_def setKey_def r
        key_consts demo_server_login_def)
qed

section \<open>Its run\<close>

definition demo_query :: event where
  "demo_query = Query SELECT_MESSAGES [seconds_string (pl_time demo_poll), ascii ''bob''] demo_rows"

definition demo_handshake :: "event list" where
  "demo_handshake = handshake_trace demo_env demo_login demo_response [[ascii ''secret'']] demo_login
     demo_server_login (symmetric_login (ascii ''bob'') (replicate 128 9))"

definition demo_trace :: "event list" where
  "demo_trace = demo_handshake @ [Recv (MPoll demo_poll), demo_query] @
     [Sent (reply demo_env demo_key demo_poll (hd demo_rows))] @ [Recv (MPollResponse demo_post)] @
     storing_trace (ascii ''hello'') demo_msg [[ascii ''7'']] [[ascii ''7'']] [[ascii ''7'']]"

lemma demo_leads_poll:
  "leads (i, tr, c, ()) (handle_message demo_env (ascii ''bob'') demo_key (MPoll demo_poll)) ()
     (i, tr @ [demo_query, Sent (reply demo_env demo_key demo_poll (hd demo_rows))], c, ())"
proof -
  have u: "pl_username demo_poll = ascii ''bob''" by (simp add: demo_poll_def)
  have "leads (i, tr, c, ()) (handle_poll demo_env (pl_username demo_poll) demo_key demo_poll) ()
     (i, tr @ Query SELECT_MESSAGES [seconds_string (pl_time demo_poll), pl_username demo_poll] demo_rows #
       map (\<lambda>row. Sent (reply demo_env demo_key demo_poll row)) demo_rows, c, ())"
    by (rule leads_poll [where ?d1.0 = "()" and ok = True])
      (simp_all add: demo_defs row_ok_def bob_valid eve_valid validPositiveNum_def)
  then show ?thesis unfolding u demo_query_def by (simp add: handle_message_def demo_rows_def)
qed

lemma demo_leads_post:
  "leads (i, tr, c, ()) (handle_message demo_env (ascii ''bob'') demo_key (MPollResponse demo_post)) ()
     (i, tr @ storing_trace (ascii ''hello'') demo_msg [[ascii ''7'']] [[ascii ''7'']] [[ascii ''7'']], c, ())"
proof -
  have s: "mm_sender demo_msg = ascii ''bob''" by (simp add: demo_msg_def)
  have t: "posted_text demo_env demo_key [demo_msg] = ascii ''hello''"
    by (simp add: posted_text_def demo_defs)
  have "storing_works demo_env (ascii ''hello'') demo_msg [[ascii ''7'']] [[ascii ''7'']] [[ascii ''7'']] () ()"
    by (simp add: storing_works_def demo_env_def demo_dbms_def getString_def)
  then show ?thesis
    using leads_post [of demo_key demo_post demo_msg "[]" demo_env] unfolding s t
    by (simp add: handle_message_def demo_post_def demo_key_def)
qed

lemma demo_run:
  "\<exists>w'. clientConnectStart demo_env 3 demo_world = (Stopped Blocks, w') \<and> w_trace w' = demo_trace"
proof -
  let ?poll = "encode LittleEndian [] (MPoll demo_poll)" and ?post = "encode LittleEndian [] (MPollResponse demo_post)"
  have w: "stands (encode LittleEndian [] (MLogin demo_login) @ encode LittleEndian [] (MResponse demo_response) @
      encode LittleEndian [] (MLogin demo_login) @ symmetric_frame (ascii ''bob'') (replicate 128 9) @
      (?poll @ ?post), [], 0, ()) demo_world"
    by (simp add: stands_def demo_world_def demo_world_of_def demo_sock_def pending_def)
  have name: "lg_username demo_login = ascii ''bob''" by (simp add: demo_login_def)
  have rsa: "env_rsa demo_env (replicate 128 9) = Some demo_key" "length demo_key = 16"
    by (simp_all add: demo_env_def demo_key_def)
  have now: "env_now demo_env c \<le> env_now demo_env 0 + 1000" for c by (simp add: demo_env_def)
  have fits: "payload_fits (env_host demo_env) (int (length (ascii ''bob'') + 133))" by (simp add: payload_fits_def)
  from reaches_chat [OF demo_good demo_host_good demo_receivable(1,2,1) _ demo_key_login bob_valid _ fits rsa w,
      of "[[ascii ''secret'']]" "()" "()" 3]
  obtain w1 where w1: "session demo_env 3 demo_world =
      chat_loop demo_env (ascii ''bob'') demo_key (env_now demo_env 0 + 1000) 3 w1"
    "stands (?poll @ ?post, demo_handshake, Suc 0, ()) w1"
    using demo_knows by (auto simp: name demo_handshake_def simp del: chat_loop.simps)
  let ?loop = "chat_loop demo_env (ascii ''bob'') demo_key (env_now demo_env 0 + 1000)"
  obtain w2 where w2: "?loop (Suc 2) w1 = ?loop 2 w2" "stands (?post, (demo_handshake @ [Recv (MPoll demo_poll)])
      @ [demo_query, Sent (reply demo_env demo_key demo_poll (hd demo_rows))], Suc (Suc 0), ()) w2"
    using loop_round [OF demo_receivable(3) demo_host_good w1(2) now demo_leads_poll, of 2] by blast
  obtain w3 where w3: "?loop (Suc 1) w2 = ?loop 1 w3" "stands ([], demo_trace, Suc (Suc (Suc 0)), ()) w3"
    using loop_round [OF demo_receivable(4) demo_host_good, of "[]", unfolded append_Nil2, OF w2(2) now demo_leads_post,
        of 1] by (auto simp: demo_trace_def simp del: chat_loop.simps)
  obtain w4 where "?loop (Suc 0) w3 = (Stopped Blocks, w4)" "w_trace w4 = demo_trace"
    using loop_waits [OF w3(2) now] by blast
  with w1(1) w2(1) w3(1) have "session demo_env 3 demo_world = (Stopped Blocks, w4)"
    by (simp add: eval_nat_numeral del: chat_loop.simps)
  from client_of_session [OF this] \<open>w_trace w4 = demo_trace\<close> show ?thesis by blast
qed

text \<open>A client that connects and closes at once.\<close>

definition demo_gone :: "unit world" where
  "demo_gone = (demo_world_of [])\<lparr>w_sock := (demo_sock [])\<lparr>in_end := PeerClosed\<rparr>\<rparr>"

lemma demo_gone_fresh: "fresh_session 4 demo_gone"
  by (simp add: fresh_session_def demo_gone_def demo_defs)

lemma demo_gone_run: "\<exists>w'. clientConnectStart demo_env 1 demo_gone = (Next (), w')"
proof -
  have p: "pending (w_sock demo_gone) = []" "in_end (w_sock demo_gone) = PeerClosed"
    by (simp_all add: demo_gone_def demo_sock_def pending_def)
  then have r: "recvFully 19 (w_sock demo_gone) = (Inr [], (w_sock demo_gone)\<lparr>inq := []\<rparr>)"
    using recvFully_short [of "w_sock demo_gone" 19] by simp
  have "header_buffer demo_host 0 [] ! 0 = 0" "length (header_buffer demo_host 0 []) = 19"
    by (simp_all add: header_buffer_def demo_host_def)
  have "take 10 (header_buffer demo_host 0 []) \<noteq> HEADER"
  proof
    assume "take 10 (header_buffer demo_host 0 []) = HEADER"
    then have "take 10 (header_buffer demo_host 0 []) ! 0 = 83" by (simp add: HEADER_def ascii_def)
    with \<open>header_buffer demo_host 0 [] ! 0 = 0\<close> show False by simp
  qed
  then have h: "decodeHeader LittleEndian (header_buffer demo_host 0 []) 19 = spchat_throw BAD_HEADER_EXCEPTION"
    using decodeHeader_cases [of "header_buffer demo_host 0 []" LittleEndian]
    by (metis \<open>length (header_buffer demo_host 0 []) = 19\<close> append_eq_conv_conj frame_header_def length_HEADER)
  have d: "w_decodes demo_gone = 0" by (simp add: demo_gone_def demo_world_of_def)
  show ?thesis
    by (simp add: clientConnectStart_def session_def abind_def time0_def await_login_def receive_def decode_split r h d)
qed

lemma demo_258: "encodeInt LittleEndian [] 258 = [0, 0, 1, 2]"
  by (simp add: encodeInt_def INT_SIZE_def upt_rec signed_drop_bit_word_numeral)

lemma demo_minus: "sint (- 1 :: clong) = - 1"
  using sint_word_of_int64 [of "- 1"] by simp

lemma demo_hex: "hex (replicate 32 255) = replicate 64 102"
proof -
  have "hex2 255 = [102, 102]" by (simp add: hex2_def hex_digit_def drop_bit_eq_div)
  then have "hex (replicate n 255) = replicate (2 * n) 102" for n
    by (induction n) (simp_all add: hex_def)
  from this [of 32] show ?thesis by simp
qed

section \<open>Two users on tables in memory\<close>

definition demo_env_on :: "'d dbms \<Rightarrow> 'd env" where
  "demo_env_on db = \<lparr>env_host = demo_host, env_dbms = db, env_rand = \<lambda>i. word_of_nat i,
     env_sha = \<lambda>_. replicate 32 0, env_pem = demo_pem, env_rsa = \<lambda>_. Some demo_key,
     env_encrypt = \<lambda>k iv p. (rev p, False), env_decrypt = \<lambda>k iv p. (rev p, False), env_now = \<lambda>_. 0,
     env_buffer = \<lambda>_. 0, env_stale = \<lambda>_ _. 0, env_spare = \<lambda>_. True, env_stmt_null = True\<rparr>"

definition demo_store_env :: "tables env" where
  "demo_store_env = demo_env_on table_dbms"

definition demo_tables :: tables where
  "demo_tables = \<lparr>t_login = [(ascii ''1'', ascii ''bob'', ascii ''secret''), (ascii ''2'', ascii ''eve'', ascii ''other'')],
     t_messages = [], t_transactions = []\<rparr>"

definition demo_store_world :: "'d \<Rightarrow> 'd world" where
  "demo_store_world d = \<lparr>w_sock = demo_sock [], w_db = d, w_trace = [], w_decodes = 0, w_clock = 0\<rparr>"

definition eve_poll :: SPChatPoll where
  "eve_poll = \<lparr>pl_username = ascii ''eve'', pl_time = 1000\<rparr>"

lemma demo_store: "chat_database (env_dbms demo_store_env) emails_unique table_uid
    (\<lambda>d. set (t_messages d)) (\<lambda>d. set (t_transactions d))"
  by (simp add: demo_store_env_def demo_env_on_def tables.chat_database_axioms)

lemma demo_users:
  "emails_unique demo_tables" "table_uid demo_tables (ascii ''bob'') = Some (ascii ''1'')"
  "table_uid demo_tables (ascii ''eve'') = Some (ascii ''2'')"
  "table_uid demo_tables u \<noteq> None \<Longrightarrow> u = ascii ''bob'' \<or> u = ascii ''eve''"
  by (auto simp: emails_unique_def table_uid_def demo_tables_def ascii_def split: if_splits)

lemma demo_store_stands: "stands ([], [], 0, d) (demo_store_world d)"
  by (simp add: stands_def demo_store_world_def demo_sock_def pending_def)

end
