(* ===== verification/UdpSocket.thy ===== *)
theory UdpSocket
  imports SocketSetup
begin

text \<open>
  \<open>UDPSocket\<close> of \<open>mockServer/PracticalSocket.cpp\<close>. The server does not use it; it is modelled
  because it shares the base class and its contract, and because \<open>bind\<close> does not bind.
\<close>

section \<open>Members\<close>

text \<open>The result of setting the broadcast option is not looked at.\<close>

definition setBroadcast :: "os \<Rightarrow> unit member" where
  "setBroadcast os = (\<lambda>(d, k).
     case sys_on os d (CallSetsockopt d SOL_SOCKET SO_BROADCAST (int_one (os_endian os))) k of
       (r, k) \<Rightarrow> (Inr (), (d, k)))"

definition UDPSocket_bind :: "os \<Rightarrow> SocketAddress \<Rightarrow> unit member" where
  "UDPSocket_bind os localAddress = createSocket os localAddress SOCK_DGRAM IPPROTO_UDP"

definition UDPSocket_connect :: "os \<Rightarrow> SocketAddress \<Rightarrow> unit member" where
  "UDPSocket_connect os foreignAddress =
     sbind (\<lambda>s. if fst s < 0 then createSocket os foreignAddress SOCK_DGRAM IPPROTO_UDP s else (Inr (), s)) (\<lambda>_.
       checked os (\<lambda>d. CallConnect d (sockaddr_bytes foreignAddress)) (connect_message os))"

text \<open>A null address of family \<open>AF_UNSPEC\<close> dissolves the association.\<close>

definition UDPSocket_disconnect :: "os \<Rightarrow> unit member" where
  "UDPSocket_disconnect os = (\<lambda>(d, k).
     case sys_on os d (CallConnect d (replicate 16 0)) k of (r, k) \<Rightarrow>
       if r < 0 \<and> errno os k \<noteq> EAFNOSUPPORT
       then (socket_throw ''Disconnect failed (connect())'', (d, k)) else (Inr (), (d, k)))"

text \<open>
  \<open>sendto\<close> returns -1 or the number of bytes sent; the length is compared with what was asked
  for.
\<close>

definition sendTo :: "os \<Rightarrow> bytes \<Rightarrow> int \<Rightarrow> SocketAddress \<Rightarrow> unit member" where
  "sendTo os buffer bufferLen foreignAddress = (\<lambda>(d, k).
     if bufferLen < 0 \<or> int (length buffer) < bufferLen then (Inl (Undefined OutOfBounds), (d, k))
     else case sys_on os d (CallSendto d (take (nat bufferLen) buffer) (sockaddr_bytes foreignAddress)) k of (r, k) \<Rightarrow>
       let n = (if r < 0 then -1 else min (int (os_sent os (length (k_calls k) - 1))) bufferLen)
       in if n \<noteq> bufferLen then (socket_throw ''Send failed (sendto())'', (d, k)) else (Inr (), (d, k)))"

text \<open>A datagram longer than the buffer is cut; \<open>recvfrom\<close> may wait forever.\<close>

definition recvFrom :: "os \<Rightarrow> int \<Rightarrow> (bytes \<times> SocketAddress) member" where
  "recvFrom os bufferLen = (\<lambda>(d, k).
     if bufferLen < 0 then (Inl (Undefined OutOfBounds), (d, k))
     else if os_hangs os (length (k_calls k)) \<and> d \<in> set (k_open k) then (Inl Blocks, (d, k))
     else case sys_on os d (CallRecvfrom d (nat bufferLen)) k of (rtn, k) \<Rightarrow>
       if rtn < 0 then (socket_throw ''Receive failed (recvfrom())'', (d, k))
       else (rbind (reported_address os k) (\<lambda>sourceAddress.
               Inr (take (nat bufferLen) (os_datagram os (length (k_calls k) - 1)), sourceAddress)), (d, k)))"

definition setMulticastTTL :: "os \<Rightarrow> byte \<Rightarrow> unit member" where
  "setMulticastTTL os multicastTTL =
     checked os (\<lambda>d. CallSetsockopt d IPPROTO_IP IP_MULTICAST_TTL [multicastTTL])
       (\<lambda>_. ''Multicast TTL set failed (setsockopt())'')"

text \<open>\<open>struct ip_mreq\<close>: the group's address and \<open>INADDR_ANY\<close>.\<close>

definition joinGroup :: "os \<Rightarrow> bytes \<Rightarrow> unit member" where
  "joinGroup os multicastGroup =
     checked os (\<lambda>d. CallSetsockopt d IPPROTO_IP IP_ADD_MEMBERSHIP (inet_addr os multicastGroup @ [0, 0, 0, 0]))
       (\<lambda>_. ''Multicast group join failed (setsockopt())'')"

definition leaveGroup :: "os \<Rightarrow> bytes \<Rightarrow> unit member" where
  "leaveGroup os multicastGroup =
     checked os (\<lambda>d. CallSetsockopt d IPPROTO_IP IP_DROP_MEMBERSHIP (inet_addr os multicastGroup @ [0, 0, 0, 0]))
       (\<lambda>_. ''Multicast group leave failed (setsockopt())'')"

section \<open>The contract\<close>

interpretation setBroadcast: tidy_member "setBroadcast os" for os
  by unfold_locales (auto simp: setBroadcast_def split: prod.splits dest: tidy_call)

interpretation UDPSocket_bind: tidy_member "UDPSocket_bind os address" for os address
  unfolding UDPSocket_bind_def by (rule tidy_create)

interpretation UDPSocket_connect: tidy_member "UDPSocket_connect os address" for os address
  unfolding UDPSocket_connect_def by (intro tidy_intros tidy_connecting)

interpretation UDPSocket_disconnect: tidy_member "UDPSocket_disconnect os" for os
  by unfold_locales (auto simp: UDPSocket_disconnect_def split: prod.splits if_splits dest: tidy_call)

interpretation sendTo: tidy_member "sendTo os buffer n address" for os buffer n address
  by unfold_locales (auto simp: sendTo_def Let_def split: prod.splits if_splits dest: tidy_call)

interpretation recvFrom: tidy_member "recvFrom os n" for os n
  by unfold_locales (auto simp: recvFrom_def split: prod.splits if_splits dest: tidy_call)

interpretation setMulticastTTL: tidy_member "setMulticastTTL os ttl" for os ttl
  unfolding setMulticastTTL_def by (rule tidy_checked)

interpretation joinGroup: tidy_member "joinGroup os group" for os group
  unfolding joinGroup_def by (rule tidy_checked)

interpretation leaveGroup: tidy_member "leaveGroup os group" for os group
  unfolding leaveGroup_def by (rule tidy_checked)

section \<open>Any sequence of members\<close>

text \<open>The members by which a program may use a socket object, whatever its class.\<close>

datatype member_call =
    TcpBind SocketAddress
  | TcpConnect SocketAddress
  | ServerBind SocketAddress
  | LocalAddress
  | ForeignAddress
  | UdpBroadcast
  | UdpBind SocketAddress
  | UdpConnect SocketAddress
  | UdpDisconnect
  | UdpSend bytes int SocketAddress
  | UdpReceive int
  | MulticastTTL byte
  | JoinGroup bytes
  | LeaveGroup bytes

fun call_member :: "os \<Rightarrow> member_call \<Rightarrow> skt \<Rightarrow> skt" where
  "call_member os (TcpBind a) s = snd (TCPSocket_bind os a s)"
| "call_member os (TcpConnect a) s = snd (TCPSocket_connect os a s)"
| "call_member os (ServerBind a) s = snd (TCPServerSocket_bind os a s)"
| "call_member os LocalAddress s = snd (getLocalAddress os s)"
| "call_member os ForeignAddress s = snd (getForeignAddress os s)"
| "call_member os UdpBroadcast s = snd (setBroadcast os s)"
| "call_member os (UdpBind a) s = snd (UDPSocket_bind os a s)"
| "call_member os (UdpConnect a) s = snd (UDPSocket_connect os a s)"
| "call_member os UdpDisconnect s = snd (UDPSocket_disconnect os s)"
| "call_member os (UdpSend b n a) s = snd (sendTo os b n a s)"
| "call_member os (UdpReceive n) s = snd (recvFrom os n s)"
| "call_member os (MulticastTTL t) s = snd (setMulticastTTL os t s)"
| "call_member os (JoinGroup g) s = snd (joinGroup os g s)"
| "call_member os (LeaveGroup g) s = snd (leaveGroup os g s)"

lemma call_member_tidy: "tidy_step s (call_member os c s)"
  by (cases c) (simp_all add: TCPSocket_bind.snd_tidy TCPSocket_connect.snd_tidy TCPServerSocket_bind.snd_tidy
      getLocalAddress.snd_tidy getForeignAddress.snd_tidy setBroadcast.snd_tidy UDPSocket_bind.snd_tidy
      UDPSocket_connect.snd_tidy UDPSocket_disconnect.snd_tidy sendTo.snd_tidy recvFrom.snd_tidy
      setMulticastTTL.snd_tidy joinGroup.snd_tidy leaveGroup.snd_tidy)

lemma calls_tidy: "tidy_step s (fold (call_member os) cs s)"
proof (induction cs arbitrary: s)
  case (Cons c cs)
  from tidy_trans [OF call_member_tidy Cons.IH] show ?case by simp
qed simp

lemma object_lifetime:
  assumes "distinct (k_open k)" and "\<forall>x \<in> set (k_open k). 0 \<le> x"
    and "Socket_destroy os (fold (call_member os) cs (Socket_new k)) = (d, k')"
  shows "d = -1" and "set (k_open k') = set (k_open k)" and "k_lists k' = k_lists k"
proof -
  let ?s = "fold (call_member os) cs (Socket_new k)"
  have o: "owns (Socket_new k)" using assms(1,2) by (simp add: owns_def Socket_new_def)
  then have s: "owns ?s" "others ?s = others (Socket_new k)" "k_lists (snd ?s) = k_lists k"
    using calls_tidy [of "Socket_new k" os cs] by (simp_all add: tidy_step_def Socket_new_def)
  have "others (Socket_new k) = set (k_open k)" using assms(2) by (auto simp: others_def Socket_new_def)
  with destroy_leaves [OF s(1), of os] s(2) assms(3) show "d = -1" "set (k_open k') = set (k_open k)"
    by simp_all
  from tidy_destroy [of ?s os] s(1,3) assms(3) show "k_lists k' = k_lists k"
    by (simp add: tidy_step_def)
qed

end
