(* ===== verification/StreamBuffer.thy ===== *)
theory StreamBuffer
  imports Sockets
begin

text \<open>
  \<open>SocketStreamBuffer\<close>, \<open>TCPSocket::getStream\<close> and the destructor of \<open>TCPSocket\<close>
  (\<open>mockServer/PracticalSocket.cpp\<close>): the buffered stream over a socket, with the public
  functions of \<open>std::streambuf\<close> through which its virtual functions are called.

  The locales \<open>byte_sink\<close> and \<open>byte_source\<close> are the contracts a stream buffer gives to the
  stream above it; the interpretations show that the buffer keeps them on a socket whose
  sends succeed, and whose peer keeps sending.
\<close>

section \<open>State\<close>

definition BUFFER_SIZE :: nat where "BUFFER_SIZE = 1024"

text \<open>
  \<open>inBuffer\<close>: what lies between \<open>gptr\<close> and \<open>egptr\<close>; \<open>outBuffer\<close>: what lies between \<open>pbase\<close> and
  \<open>pptr\<close>. \<open>myStream\<close> is \<open>None\<close> for the null pointer.
\<close>

record streambuf =
  inBuffer :: bytes
  outBuffer :: bytes

record tcp =
  tcp_sock :: sock
  myStream :: "streambuf option"

definition SocketStreamBuffer_new :: streambuf where
  "SocketStreamBuffer_new = \<lparr>inBuffer = [], outBuffer = []\<rparr>"

definition getStream :: "tcp \<Rightarrow> streambuf \<times> tcp" where
  "getStream t = (case myStream t of
       None \<Rightarrow> (SocketStreamBuffer_new, t\<lparr>myStream := Some SocketStreamBuffer_new\<rparr>)
     | Some b \<Rightarrow> (b, t))"

text \<open>\<open>delete myStream; delete myStreambuf\<close> discards the buffers; then the base destructor runs.\<close>

definition TCPSocket_delete :: "tcp \<Rightarrow> tcp" where
  "TCPSocket_delete t = t\<lparr>myStream := None, tcp_sock := Socket_delete (tcp_sock t)\<rparr>"

section \<open>Output\<close>

type_synonym buffered = "streambuf \<times> sock"

definition buf_sync :: "buffered \<Rightarrow> unit res \<times> buffered" where
  "buf_sync = (\<lambda>(b, s). case CommunicatingSocket_send (outBuffer b) (int (length (outBuffer b))) s of
       (Inl x, s) \<Rightarrow> (Inl x, (b, s))
     | (Inr _, s) \<Rightarrow> (Inr (), (b\<lparr>outBuffer := []\<rparr>, s)))"

text \<open>
  \<open>sputc\<close> stores the character if there is room, otherwise it calls \<open>overflow\<close>, which empties
  the buffer and stores the character with \<open>sputc\<close>.
\<close>

definition put_char :: "byte \<Rightarrow> buffered \<Rightarrow> buffered" where
  "put_char c = (\<lambda>(b, s). (b\<lparr>outBuffer := outBuffer b @ [c]\<rparr>, s))"

definition overflow :: "byte option \<Rightarrow> buffered \<Rightarrow> unit res \<times> buffered" where
  "overflow c s = (case buf_sync s of
       (Inl x, s) \<Rightarrow> (Inl x, s)
     | (Inr _, s) \<Rightarrow> (case c of None \<Rightarrow> (Inr (), s) | Some c \<Rightarrow> (Inr (), put_char c s)))"

definition sputc :: "byte \<Rightarrow> buffered \<Rightarrow> unit res \<times> buffered" where
  "sputc c s = (if length (outBuffer (fst s)) < BUFFER_SIZE then (Inr (), put_char c s) else overflow (Some c) s)"

section \<open>Input\<close>

text \<open>The end of the file is \<open>None\<close>.\<close>

definition underflow :: "buffered \<Rightarrow> byte option res \<times> buffered" where
  "underflow = (\<lambda>(b, s). case CommunicatingSocket_recv (int BUFFER_SIZE) s of
       (Inl x, s) \<Rightarrow> (Inl x, (b, s))
     | (Inr d, s) \<Rightarrow> if d = [] then (Inr None, (b, s)) else (Inr (Some (hd d)), (b\<lparr>inBuffer := d\<rparr>, s)))"

definition sgetc :: "buffered \<Rightarrow> byte option res \<times> buffered" where
  "sgetc s = (case inBuffer (fst s) of [] \<Rightarrow> underflow s | c # _ \<Rightarrow> (Inr (Some c), s))"

text \<open>\<open>sbumpc\<close>: \<open>sgetc\<close>, and the character is consumed.\<close>

definition sbumpc :: "buffered \<Rightarrow> byte option res \<times> buffered" where
  "sbumpc s = (case sgetc s of
       (Inr (Some c), (b, s)) \<Rightarrow> (Inr (Some c), (b\<lparr>inBuffer := tl (inBuffer b)\<rparr>, s))
     | r \<Rightarrow> r)"

section \<open>Contracts of a stream buffer\<close>

text \<open>What has been put comes out in order, once it is flushed.\<close>

locale byte_sink =
  fixes put :: "byte \<Rightarrow> 's \<Rightarrow> unit res \<times> 's"
    and flush :: "'s \<Rightarrow> unit res \<times> 's"
    and works :: "'s \<Rightarrow> bool"
    and written :: "'s \<Rightarrow> bytes"
    and sent :: "'s \<Rightarrow> bytes"
  assumes put: "works s \<Longrightarrow> \<exists>s'. put c s = (Inr (), s') \<and> works s' \<and> written s' = written s @ [c]"
    and flush: "works s \<Longrightarrow> \<exists>s'. flush s = (Inr (), s') \<and> works s' \<and> written s' = written s \<and> sent s' = written s"
begin

primrec put_all :: "bytes \<Rightarrow> 's \<Rightarrow> unit res \<times> 's" where
  "put_all [] s = flush s"
| "put_all (c # cs) s = (case put c s of (Inl x, s) \<Rightarrow> (Inl x, s) | (Inr _, s) \<Rightarrow> put_all cs s)"

lemma put_all_sent:
  "works s \<Longrightarrow> \<exists>s'. put_all cs s = (Inr (), s') \<and> works s' \<and> sent s' = written s @ cs"
proof (induction cs arbitrary: s)
  case Nil
  from flush [OF Nil] show ?case by auto
next
  case (Cons c cs)
  from put [OF Cons.prems, of c] obtain s1 where s1: "put c s = (Inr (), s1)" "works s1" "written s1 = written s @ [c]"
    by blast
  from Cons.IH [OF s1(2)] s1 show ?case by auto
qed

end

text \<open>Characters are got in the order of the source.\<close>

locale byte_source =
  fixes get :: "'s \<Rightarrow> byte option res \<times> 's"
    and unread :: "'s \<Rightarrow> bytes"
  assumes get: "unread s = c # cs \<Longrightarrow> \<exists>s'. get s = (Inr (Some c), s') \<and> unread s' = cs"
begin

primrec get_many :: "nat \<Rightarrow> 's \<Rightarrow> bytes res \<times> 's" where
  "get_many 0 s = (Inr [], s)"
| "get_many (Suc n) s = (case get s of
     (Inr (Some c), s) \<Rightarrow> (case get_many n s of (Inr cs, s) \<Rightarrow> (Inr (c # cs), s) | (Inl x, s) \<Rightarrow> (Inl x, s))
   | (Inr None, s) \<Rightarrow> (Inr [], s)
   | (Inl x, s) \<Rightarrow> (Inl x, s))"

lemma get_many_prefix:
  "n \<le> length (unread s) \<Longrightarrow> \<exists>s'. get_many n s = (Inr (take n (unread s)), s') \<and> unread s' = drop n (unread s)"
proof (induction n arbitrary: s)
  case (Suc n)
  then obtain c cs where u: "unread s = c # cs" by (cases "unread s") auto
  from get [OF u] obtain s1 where s1: "get s = (Inr (Some c), s1)" "unread s1 = cs" by blast
  with Suc.IH [of s1] Suc.prems u show ?case by auto
qed simp

end

section \<open>The buffer keeps them\<close>

definition sends_work :: "buffered \<Rightarrow> bool" where
  "sends_work = (\<lambda>(b, s). send_plan s = [])"

definition all_output :: "buffered \<Rightarrow> bytes" where
  "all_output = (\<lambda>(b, s). out s @ outBuffer b)"

definition all_input :: "buffered \<Rightarrow> bytes" where
  "all_input = (\<lambda>(b, s). inBuffer b @ pending s)"

lemma buf_sync_works:
  "send_plan s = [] \<Longrightarrow> buf_sync (b, s) = (Inr (), (b\<lparr>outBuffer := []\<rparr>, s\<lparr>out := out s @ outBuffer b\<rparr>))"
  by (simp add: buf_sync_def CommunicatingSocket_send_def kernel_send_def)

interpretation buffer_sink: byte_sink sputc buf_sync sends_work all_output "\<lambda>s. out (snd s)"
proof
  fix s :: buffered and c :: byte
  assume w: "sends_work s"
  then have p: "send_plan (snd s) = []" by (auto simp: sends_work_def)
  obtain b k where s: "s = (b, k)" by (cases s)
  show "\<exists>s'. sputc c s = (Inr (), s') \<and> sends_work s' \<and> all_output s' = all_output s @ [c]"
    using p by (auto simp: s sputc_def overflow_def buf_sync_works put_char_def sends_work_def all_output_def)
  show "\<exists>s'. buf_sync s = (Inr (), s') \<and> sends_work s' \<and> all_output s' = all_output s \<and> out (snd s') = all_output s"
    using p by (auto simp: s buf_sync_works sends_work_def all_output_def)
qed

lemma underflow_data:
  assumes "pending s \<noteq> []"
  obtains d s' where "CommunicatingSocket_recv (int BUFFER_SIZE) s = (Inr d, s')" "d \<noteq> []"
    "pending s = d @ pending s'"
proof -
  obtain r s' where r: "kernel_recv BUFFER_SIZE s = (r, s')" by (cases "kernel_recv BUFFER_SIZE s")
  with kernel_recv_stop(1) [OF r] assms obtain d where d: "r = RData d" by (cases r) auto
  from kernel_recv_data(1,4) [OF r [unfolded d]] assms r d that show thesis
    by (force simp: CommunicatingSocket_recv_def BUFFER_SIZE_def)
qed

interpretation buffer_source: byte_source sbumpc all_input
proof
  fix s :: buffered and c :: byte and cs :: bytes
  assume u: "all_input s = c # cs"
  obtain b k where s: "s = (b, k)" by (cases s)
  show "\<exists>s'. sbumpc s = (Inr (Some c), s') \<and> all_input s' = cs"
  proof (cases "inBuffer b")
    case Nil
    with u have "pending k \<noteq> []" by (auto simp: s all_input_def)
    then obtain d k' where "CommunicatingSocket_recv (int BUFFER_SIZE) k = (Inr d, k')" "d \<noteq> []" "pending k = d @ pending k'"
      by (rule underflow_data)
    with u Nil show ?thesis by (cases d) (auto simp: s sbumpc_def sgetc_def underflow_def all_input_def)
  next
    case (Cons c' cs')
    with u show ?thesis by (auto simp: s sbumpc_def sgetc_def all_input_def)
  qed
qed

section \<open>Bounds, and what the destructor loses\<close>

text \<open>The put area never grows beyond the array.\<close>

lemma sputc_bounded:
  assumes "length (outBuffer (fst s)) \<le> BUFFER_SIZE" and "sputc c s = (r, s')"
  shows "length (outBuffer (fst s')) \<le> BUFFER_SIZE"
  using assms by (auto simp: sputc_def overflow_def buf_sync_def put_char_def BUFFER_SIZE_def
      split: if_splits prod.splits sum.splits)

lemma sbumpc_bounded:
  assumes "length (inBuffer (fst s)) \<le> BUFFER_SIZE" and "sbumpc s = (r, s')"
  shows "length (inBuffer (fst s')) \<le> BUFFER_SIZE"
  using assms by (auto simp: sbumpc_def sgetc_def underflow_def CommunicatingSocket_recv_def
      split: if_splits prod.splits sum.splits list.splits option.splits recv_result.splits dest: kernel_recv_data(2))

lemma delete_discards: "out (tcp_sock (TCPSocket_delete t)) = out (tcp_sock t)"
  by (simp add: TCPSocket_delete_def Socket_delete_def Socket_close_def)

section \<open>Strings of characters\<close>

text \<open>\<open>sputn\<close> and \<open>sgetn\<close> put and get one character after the other.\<close>

primrec sputn :: "bytes \<Rightarrow> buffered \<Rightarrow> unit res \<times> buffered" where
  "sputn [] s = (Inr (), s)"
| "sputn (c # cs) s = (case sputc c s of (Inl x, s) \<Rightarrow> (Inl x, s) | (Inr _, s) \<Rightarrow> sputn cs s)"

primrec sgetn :: "nat \<Rightarrow> buffered \<Rightarrow> bytes res \<times> buffered" where
  "sgetn 0 s = (Inr [], s)"
| "sgetn (Suc n) s = (case sbumpc s of
     (Inr (Some c), s) \<Rightarrow> (case sgetn n s of (Inr cs, s) \<Rightarrow> (Inr (c # cs), s) | (Inl x, s) \<Rightarrow> (Inl x, s))
   | (Inr None, s) \<Rightarrow> (Inr [], s)
   | (Inl x, s) \<Rightarrow> (Inl x, s))"

lemma sputn_flush:
  "buffer_sink.put_all cs s = (case sputn cs s of (Inl x, s) \<Rightarrow> (Inl x, s) | (Inr _, s) \<Rightarrow> buf_sync s)"
  by (induction cs arbitrary: s) (auto split: prod.split sum.split)

lemma sgetn_many: "buffer_source.get_many n s = sgetn n s"
  by (induction n arbitrary: s) (auto split: prod.split sum.split option.split)

lemma sputn_sent:
  assumes "sends_work s"
  shows "\<exists>s1 s2. sputn cs s = (Inr (), s1) \<and> buf_sync s1 = (Inr (), s2) \<and> out (snd s2) = all_output s @ cs"
  using buffer_sink.put_all_sent [OF assms, of cs] unfolding sputn_flush
  by (auto split: prod.splits sum.splits)

lemma sgetn_prefix:
  assumes "n \<le> length (all_input s)"
  shows "\<exists>s'. sgetn n s = (Inr (take n (all_input s)), s') \<and> all_input s' = drop n (all_input s)"
  using buffer_source.get_many_prefix [OF assms] unfolding sgetn_many .

lemma sputn_bounded:
  "length (outBuffer (fst s)) \<le> BUFFER_SIZE \<Longrightarrow> sputn cs s = (r, s') \<Longrightarrow> length (outBuffer (fst s')) \<le> BUFFER_SIZE"
proof (induction cs arbitrary: s)
  case (Cons c cs)
  obtain r1 s1 where p: "sputc c s = (r1, s1)" by (metis surj_pair)
  from sputc_bounded [OF Cons.prems(1) p] Cons p show ?case by (auto split: sum.splits)
qed simp

lemma sgetn_bounded:
  "length (inBuffer (fst s)) \<le> BUFFER_SIZE \<Longrightarrow> sgetn n s = (r, s') \<Longrightarrow> length (inBuffer (fst s')) \<le> BUFFER_SIZE"
proof (induction n arbitrary: s r)
  case (Suc n)
  obtain r1 s1 where g: "sbumpc s = (r1, s1)" by (metis surj_pair)
  from sbumpc_bounded [OF Suc.prems(1) g] Suc g show ?case by (auto split: sum.splits option.splits prod.splits)
qed simp

lemma sputn_small:
  "length (outBuffer b) + length cs \<le> BUFFER_SIZE \<Longrightarrow>
   sputn cs (b, s) = (Inr (), (b\<lparr>outBuffer := outBuffer b @ cs\<rparr>, s))"
  by (induction cs arbitrary: b) (simp_all add: sputc_def put_char_def)

end
