(* ===== verification/Survey.thy ===== *)
theory Survey
  imports Wire Sockets
begin

text \<open>
  The helpers of \<open>mockServer/SurveyCommon.cpp\<close> that send and receive integers and strings over
  a \<open>CommunicatingSocket\<close>.
\<close>

section \<open>Byte order\<close>

text \<open>The object representation of a \<open>uint32_t\<close>, and reading one back.\<close>

definition int_memory :: "endian \<Rightarrow> 32 word \<Rightarrow> bytes" where
  "int_memory e w =
     (let bs = [ucast w, ucast (drop_bit 8 w), ucast (drop_bit 16 w), ucast (drop_bit 24 w)] in
      case e of LittleEndian \<Rightarrow> bs | BigEndian \<Rightarrow> rev bs)"

definition int_value :: "endian \<Rightarrow> bytes \<Rightarrow> 32 word" where
  "int_value e bs =
     (let b = (\<lambda>i. ucast (bs ! i) :: 32 word) in
      case e of
        LittleEndian \<Rightarrow> b 0 OR push_bit 8 (b 1) OR push_bit 16 (b 2) OR push_bit 24 (b 3)
      | BigEndian \<Rightarrow> b 3 OR push_bit 8 (b 2) OR push_bit 16 (b 1) OR push_bit 24 (b 0))"

text \<open>\<open>htonl\<close> gives the integer whose memory is the network representation; \<open>ntohl\<close> undoes it.\<close>

definition htonl :: "endian \<Rightarrow> 32 word \<Rightarrow> 32 word" where
  "htonl e val = int_value e (int_memory BigEndian val)"

definition ntohl :: "endian \<Rightarrow> 32 word \<Rightarrow> 32 word" where
  "ntohl e val = int_value BigEndian (int_memory e val)"

section \<open>Sending\<close>

definition sendInt :: "endian \<Rightarrow> 32 word \<Rightarrow> sock \<Rightarrow> unit res \<times> sock" where
  "sendInt e val s = CommunicatingSocket_send (int_memory e (htonl e val)) 4 s"

text \<open>
  The length of the string is narrowed to \<open>uint32_t\<close> for \<open>sendInt\<close> and to \<open>int\<close> for
  \<open>send\<close>; \<open>c_str()\<close> points to the string and its terminating NUL.
\<close>

definition sendString :: "endian \<Rightarrow> bytes \<Rightarrow> sock \<Rightarrow> unit res \<times> sock" where
  "sendString e str s =
     (case sendInt e (word_of_nat (length str)) s of
        (Inl x, s) \<Rightarrow> (Inl x, s)
      | (Inr _, s) \<Rightarrow> CommunicatingSocket_send (str @ [0]) (sint (word_of_nat (length str) :: cint)) s)"

section \<open>Receiving\<close>

definition recvInt :: "endian \<Rightarrow> sock \<Rightarrow> 32 word res \<times> sock" where
  "recvInt e s =
     (case recvFully 4 s of
        (Inl x, s) \<Rightarrow> (Inl x, s)
      | (Inr buf, s) \<Rightarrow>
          if length buf \<noteq> 4 then (Inl (Throw (RuntimeError ''Socket closed while reading int'')), s)
          else (Inr (ntohl e (int_value e buf)), s))"

text \<open>
  The buffer has \<open>len + 1\<close> bytes, computed in \<open>uint32_t\<close>; \<open>recvFully\<close> gets the length as an
  \<open>int\<close>. Storing more than the buffer holds is undefined, which \<open>recvFully\<close> already is for the
  negative lengths. The result ends at the first NUL.
\<close>

definition recvString :: "endian \<Rightarrow> sock \<Rightarrow> bytes res \<times> sock" where
  "recvString e s =
     (case recvInt e s of
        (Inl x, s) \<Rightarrow> (Inl x, s)
      | (Inr len, s) \<Rightarrow>
          (case recvFully (sint len) s of
             (Inl x, s) \<Rightarrow> (Inl x, s)
           | (Inr buffer, s) \<Rightarrow>
               if length buffer \<noteq> unat len
               then (Inl (Throw (RuntimeError ''Socket closed while reading string'')), s)
               else (Inr (takeWhile (\<lambda>c. c \<noteq> 0) (buffer @ [0])), s)))"

section \<open>Round trip\<close>

lemma length_int_memory [simp]: "length (int_memory e w) = 4"
  by (simp add: int_memory_def Let_def split: endian.split)

lemma int_memory_nth:
  "int_memory e w ! 0 = (case e of LittleEndian \<Rightarrow> ucast w | BigEndian \<Rightarrow> ucast (drop_bit 24 w))"
  "int_memory e w ! Suc 0 = (case e of LittleEndian \<Rightarrow> ucast (drop_bit 8 w) | BigEndian \<Rightarrow> ucast (drop_bit 16 w))"
  "int_memory e w ! 2 = (case e of LittleEndian \<Rightarrow> ucast (drop_bit 16 w) | BigEndian \<Rightarrow> ucast (drop_bit 8 w))"
  "int_memory e w ! 3 = (case e of LittleEndian \<Rightarrow> ucast (drop_bit 24 w) | BigEndian \<Rightarrow> ucast w)"
  by (simp_all add: int_memory_def Let_def split: endian.split)

lemma int_value_memory: "int_value e (int_memory e w) = w"
proof (rule bit_word_eqI)
  fix n assume "n < LENGTH(32)"
  then consider "n < 8" | "8 \<le> n" "n < 16" | "16 \<le> n" "n < 24" | "24 \<le> n" "n < 32" by fastforce
  then show "bit (int_value e (int_memory e w)) n \<longleftrightarrow> bit w n"
    by cases (cases e; auto simp: int_value_def Let_def int_memory_nth bit_simps)+
qed

lemma byte_bits [simp]: "8 \<le> n \<Longrightarrow> \<not> bit (b :: byte) n"
  by (auto dest: bit_imp_le_length)

lemma int_memory_value:
  assumes "length bs = 4"
  shows "int_memory e (int_value e bs) = bs"
proof -
  obtain a b c d where bs: "bs = [a, b, c, d]" using assms by (auto simp: length_Suc_conv numeral_eq_Suc)
  show ?thesis
    unfolding bs int_memory_def int_value_def Let_def
    by (cases e) (auto intro!: bit_word_eqI simp: bit_simps)
qed

lemma network_order: "int_memory e (htonl e w) = int_memory BigEndian w"
  by (simp add: htonl_def int_memory_value)

lemma from_network: "ntohl e (int_value e (int_memory BigEndian w)) = w"
  by (simp add: ntohl_def int_memory_value int_value_memory)

text \<open>What \<open>sendString\<close> puts on the wire, and what \<open>recvString\<close> makes of it.\<close>

definition string_frame :: "bytes \<Rightarrow> bytes" where
  "string_frame str = int_memory BigEndian (word_of_nat (length str)) @ str"

lemma sendString_frame:
  assumes "send_plan s = []" and "length str < 2 ^ 31"
  shows "sendString e str s = (Inr (), s\<lparr>out := out s @ string_frame str\<rparr>)"
  using assms(1) sint_word_of_nat32 [OF assms(2)]
  by (simp add: sendString_def sendInt_def CommunicatingSocket_send_def kernel_send_def network_order string_frame_def)

lemma recvInt_network:
  assumes "pending s = int_memory BigEndian w @ rest"
  shows "\<exists>q. recvInt e s = (Inr w, s\<lparr>inq := q\<rparr>) \<and> concat q = rest"
proof -
  have n: "4 \<le> length (pending s)" by (simp add: assms)
  from recvFully_enough [OF _ n] obtain q where
    "recvFully 4 s = (Inr (take 4 (pending s)), s\<lparr>inq := q\<rparr>)" "concat q = drop 4 (pending s)" by auto
  then show ?thesis by (auto simp: recvInt_def assms from_network)
qed

lemma takeWhile_terminated: "takeWhile (\<lambda>c. c \<noteq> 0) (str @ [0 :: byte]) = takeWhile (\<lambda>c. c \<noteq> 0) str"
  by (induction str) auto

lemma recvString_frame:
  assumes "str \<noteq> []" and "length str < 2 ^ 31" and "pending s = string_frame str @ rest"
  shows "\<exists>q. recvString e s = (Inr (takeWhile (\<lambda>c. c \<noteq> 0) str), s\<lparr>inq := q\<rparr>) \<and> concat q = rest"
proof -
  let ?n = "word_of_nat (length str) :: cint"
  from recvInt_network [of s ?n "str @ rest" e] assms(3) obtain q where
    q: "recvInt e s = (Inr ?n, s\<lparr>inq := q\<rparr>)" "concat q = str @ rest" by (auto simp: string_frame_def)
  have n: "sint ?n = int (length str)" "unat ?n = length str"
    using assms(2) by (simp_all add: sint_word_of_nat32 unat_of_nat)
  have "0 < length str" "length str \<le> length (pending (s\<lparr>inq := q\<rparr>))"
    using assms(1) q(2) by (simp_all add: pending_def)
  from recvFully_enough [OF this] obtain q2 where
    "recvFully (int (length str)) (s\<lparr>inq := q\<rparr>) = (Inr str, s\<lparr>inq := q2\<rparr>)" "concat q2 = rest"
    by (auto simp: pending_def q(2))
  then show ?thesis
    by (auto simp: recvString_def q(1) n takeWhile_terminated)
qed

lemma recvString_negative:
  assumes "pending s = int_memory BigEndian n @ rest" and "sint n < 0"
  shows "fst (recvString e s) = Inl (Undefined OutOfBounds)"
  using recvInt_network [OF assms(1), of e] assms(2) by (auto simp: recvString_def recvFully_def)

end
