(* ===== verification/DemoServer.thy ===== *)
theory DemoServer
  imports Demo Server UdpSocket StreamBuffer Survey SurveyFile
begin

text \<open>
  A concrete operating system on which the hypotheses of the theorems about socket set-up and
  about \<open>main\<close> hold: nothing fails, the resolver knows one address, and the process starts
  with the three standard descriptors.
\<close>

definition demo_addrinfo :: addrinfo where
  "demo_addrinfo = \<lparr>ai_flags = 0, ai_family = AF_INET, ai_socktype = SOCK_STREAM, ai_protocol = IPPROTO_TCP,
     ai_addr = sockaddr_in LittleEndian [0, 0, 0, 0] serverPort\<rparr>"

definition demo_os :: os where
  "demo_os = \<lparr>os_endian = LittleEndian, os_fails = (\<lambda>_. False), os_hangs = (\<lambda>_. False), os_errno = (\<lambda>_. 0),
     os_resolver = (\<lambda>_. (0, [demo_addrinfo])), os_name = (\<lambda>_. []), os_datagram = (\<lambda>_. []), os_sent = (\<lambda>_. 0),
     os_stale = (\<lambda>_. 0), strerror = (\<lambda>_. ''''), gai_strerror = (\<lambda>_. ''''), inet_ntop6 = (\<lambda>_. []),
     inet_addr = (\<lambda>_. [0, 0, 0, 0])\<rparr>"

definition demo_kernel :: kernel where
  "demo_kernel = \<lparr>k_open = [0, 1, 2], k_lists = 0, k_calls = []\<rparr>"

definition demo_address :: SocketAddress where
  "demo_address = \<lparr>sa_addr = (\<lambda>i. sockaddr_in LittleEndian [127, 0, 0, 1] 80 ! i), addrLen = 16\<rparr>"

lemmas demo_os_defs = demo_os_def demo_kernel_def demo_addrinfo_def

lemma demo_free: "lowest_free [0, 1, 2] = 3" "lowest_free [0, 1, 2, 3] = 4" "lowest_free [0, 1, 2, 3, 4] = 5"
  by (simp_all add: lowest_free_def upt_rec)

lemmas syscall_defs = sys_getaddrinfo_def sys_socket_def new_descriptor_def sys_on_def issue_def
  sys_freeaddrinfo_def sys_accept_def sys_close_def

text \<open>The listening socket is descriptor 3, the first client gets 4.\<close>

definition demo_listening :: kernel where
  "demo_listening = snd (snd (TCPServerSocket_new demo_os serverPort 5 demo_kernel))"

lemma demo_new: "TCPServerSocket_new demo_os serverPort 5 demo_kernel = (Inr (), (3, demo_listening))"
  and demo_listening_open: "k_open demo_listening = [0, 1, 2, 3]"
  by (simp_all add: demo_listening_def TCPServerSocket_new_def findTCPServerSocketDesc_def syscall_defs Let_def
      setListen_def checked_def demo_os_defs demo_free)

definition demo_accepting :: server where
  "demo_accepting = snd (accept_round demo_os (\<lambda>_. True) \<lparr>sv_desc = 3, sv_kernel = demo_listening, sv_threads = []\<rparr>)"

lemma demo_round:
  "accept_round demo_os (\<lambda>_. True) \<lparr>sv_desc = 3, sv_kernel = demo_listening, sv_threads = []\<rparr> = (Started 4, demo_accepting)"
  "sv_threads demo_accepting = [4]"
  by (simp_all add: demo_accepting_def accept_round_def TCPServerSocket_accept_def syscall_defs demo_os_def
      demo_listening_open demo_free)

lemma demo_served: "served demo_os (\<lambda>_. True) demo_env demo_kernel demo_accepting"
  by (rule accepting [OF listening [OF demo_new] demo_round(1)])

end
