(* ===== verification/DemoClient.thy ===== *)
theory DemoClient
  imports ShortRead Sharing JavaObjects DateTime DemoServer
begin

text \<open>
  Two Java clients and their server on concrete libraries, on which the theorems about the two
  programs together apply. The cipher is the padding of PKCS alone, without encryption.
\<close>

section \<open>A cipher\<close>

definition demo_pad :: "bytes \<Rightarrow> bytes" where
  "demo_pad p = (let n = 16 - length p mod 16 in p @ replicate n (word_of_nat n))"

definition demo_unpad :: "bytes \<Rightarrow> bytes" where
  "demo_unpad c = take (length c - unat (last c)) c"

lemma pad_count: "length p mod 16 < 16" "unat (word_of_nat (16 - length p mod 16) :: byte) = 16 - length p mod 16"
proof -
  have "unat (word_of_nat n :: byte) = n" if "n \<le> 16" for n
    using that by (simp add: unsigned_of_nat take_bit_nat_eq_self)
  from this [of "16 - length p mod 16"] show "unat (word_of_nat (16 - length p mod 16) :: byte) = 16 - length p mod 16"
    by (simp only: diff_le_self)
qed simp

lemma pad_last: "demo_pad p \<noteq> []" "unat (last (demo_pad p)) = 16 - length p mod 16"
  using pad_count [of p] by (simp_all add: demo_pad_def Let_def del: of_nat_diff)

lemma length_pad: "length (demo_pad p) = 16 * Suc (length p div 16)"
proof -
  have "length (demo_pad p) = length p + (16 - length p mod 16)" by (simp add: demo_pad_def Let_def)
  also have "\<dots> = 16 * Suc (length p div 16)"
  proof -
    have "n + (16 - m) = 16 * Suc d" if "d * 16 + m = n" "m < 16" for n m d :: nat using that by simp
    from this [OF div_mult_mod_eq pad_count(1)] show ?thesis .
  qed
  finally show ?thesis .
qed

lemma unpad_pad: "demo_unpad (demo_pad p) = p"
proof -
  have "length (demo_pad p) - unat (last (demo_pad p)) = length p" unfolding pad_last(2) by (simp add: demo_pad_def Let_def)
  then show ?thesis by (simp add: demo_unpad_def) (simp add: demo_pad_def Let_def)
qed

definition demo_cipher :: "bool cipher" where
  "demo_cipher = \<lparr>c_update = \<lambda>st b. (Some b, st), c_doFinal = \<lambda>st b. (Some (if st then demo_pad b else demo_unpad b), st)\<rparr>"

lemma unpad_front: "length b = 16 \<Longrightarrow> unat (last b) \<le> 16 \<Longrightarrow> xs @ demo_unpad b = demo_unpad (xs @ b)"
  by (cases "b = []") (simp_all add: demo_unpad_def)

lemma demo_feed: "bs \<noteq> [] \<Longrightarrow> list_all (\<lambda>b. length b = 16) bs \<Longrightarrow> unat (last (concat bs)) \<le> 16 \<Longrightarrow>
  feed demo_cipher False bs = (Some (demo_unpad (concat bs)), False)"
proof (induction bs)
  case (Cons b bs)
  show ?case
  proof (cases bs)
    case Nil
    then show ?thesis by (simp add: demo_cipher_def)
  next
    case (Cons b' bs')
    then have "concat bs \<noteq> []" using Cons.prems(2) by auto
    then have "concat bs \<noteq> []" "last (concat (b # bs)) = last (concat bs)" by simp_all
    with Cons.IH Cons.prems Cons have f: "feed demo_cipher False bs = (Some (demo_unpad (concat bs)), False)" by simp
    have l: "16 \<le> length (concat bs)" using Cons.prems(2) by (simp add: Cons)
    have "b @ demo_unpad (concat bs) = demo_unpad (b @ concat bs)"
      using l Cons.prems(3) \<open>concat bs \<noteq> []\<close> \<open>last (concat (b # bs)) = _\<close> by (simp add: demo_unpad_def)
    with f show ?thesis by (simp add: Cons demo_cipher_def)
  qed
qed simp

lemma demo_cbc: "cbc_cipher demo_cipher (\<lambda>encrypting k iv. encrypting) (\<lambda>k iv p. demo_pad p)"
  unfolding cbc_cipher_def
proof (intro allI impI conjI)
  fix p :: bytes and bs
  show "c_doFinal demo_cipher True p = (Some (demo_pad p), True)" by (simp add: demo_cipher_def)
  show "length (demo_pad p) = 16 * Suc (length p div 16)" by (rule length_pad)
  assume bs: "list_all (\<lambda>b. length b = 16) bs" "concat bs = demo_pad p"
  then have "bs \<noteq> []" using pad_last(1) [of p] by auto
  from demo_feed [OF this bs(1)] show "feed demo_cipher False bs = (Some p, False)"
    unfolding bs(2) using pad_last(2) [of p] by (simp add: unpad_pad)
qed

section \<open>The clients and their server\<close>

definition demo_chat_on :: "'d dbms \<Rightarrow> 'd env" where
  "demo_chat_on db = (demo_env_on db)\<lparr>env_encrypt := \<lambda>k iv p. (demo_pad p, False), env_decrypt := \<lambda>k iv c. (demo_unpad c, False)\<rparr>"

abbreviation demo_chat_env :: "tables env" where
  "demo_chat_env \<equiv> demo_chat_on table_dbms"

definition demo_lib :: "(unit, bool) jlib" where
  "demo_lib = \<lparr>jv_base64 = \<lambda>_. replicate 216 65, jv_parse = \<lambda>_. Some (), jv_wrap = \<lambda>_ _. Some (replicate 128 9),
     jv_digest = \<lambda>_. replicate 32 0, jv_cipher = demo_cipher, jv_init = \<lambda>encrypting _ _. encrypting,
     jv_now = \<lambda>_. 1460000000000, jv_nonce = \<lambda>_. 1, jv_date = \<lambda>_. jstr ''now'', jv_newline = [10]\<rparr>"

definition demo_client :: "(unit, bool) client" where
  "demo_client = \<lparr>bc_localPublicKey = (), bc_symmetricKey = demo_key, bc_authenticated = False, bc_username = None,
     bc_input = None, bc_serverPubKey = None, bc_hasExchangedKeys = False, bc_cipherOut = None, bc_cipherIn = None,
     bc_pollers = [], bc_recipients = [], bc_outMsgs = [], bc_incoming = [], bc_sock = demo_sock [], bc_clock = 0, bc_nonces = 0\<rparr>"

text \<open>The two of them logged in, the sender having entered a recipient.\<close>

definition demo_bob :: "(unit, bool) client" where
  "demo_bob = demo_client\<lparr>bc_authenticated := True, bc_hasExchangedKeys := True, bc_username := Some (jstr ''bob''),
     bc_recipients := [jstr ''eve'']\<rparr>"

definition demo_eve :: "bytes \<Rightarrow> (unit, bool) client" where
  "demo_eve bs = demo_client\<lparr>bc_authenticated := True, bc_hasExchangedKeys := True, bc_username := Some (jstr ''eve''),
     bc_cipherIn := Some False, bc_pollers := [1000], bc_sock := demo_sock [bs]\<rparr>"

lemma demo_names: "good_name (jstr ''bob'')" "good_name (jstr ''eve'')" "getBytes (jstr ''bob'') = ascii ''bob''"
  "getBytes (jstr ''eve'') = ascii ''eve''"
  by (simp add: good_name_def matches_REGEX_def name_char_def jstr_def, simp add: good_name_def matches_REGEX_def name_char_def jstr_def,
      (rule literal_bytes(2), simp)+)

lemma demo_chat_env [simp]: "env_host (demo_chat_on db) = demo_host" "env_dbms (demo_chat_on db) = db"
  "env_stale (demo_chat_on db) j i = 0" "env_encrypt (demo_chat_on db) k iv p = (demo_pad p, False)"
  "env_decrypt (demo_chat_on db) k iv c = (demo_unpad c, False)"
  by (simp_all add: demo_chat_on_def demo_env_on_def)

lemma demo_sends: "sends_as (demo_chat_on db) demo_key demo_lib (jstr ''bob'') demo_bob"
  using demo_names(1) length_pad
  by (simp add: sends_as_def can_send_def fresh_cipher_def clock_runs_def demo_lib_def demo_bob_def demo_client_def demo_cipher_def
      demo_key_def cbc_inverse_def unpad_pad demo_sock_def host_good_def validPositiveNum_def demo_host_def)

lemma demo_reads: "reads_as (demo_chat_on db) demo_key demo_lib (jstr ''eve'') (demo_eve bs)"
  using demo_names(2) demo_cbc
  by (simp add: reads_as_def fresh_cipher_def demo_lib_def demo_eve_def demo_client_def demo_key_def)

lemma demo_fresh_client: "fresh_client demo_lib (demo_client\<lparr>bc_sock := demo_sock q\<rparr>)"
  by (simp add: fresh_client_def demo_lib_def demo_client_def demo_key_def demo_sock_def list_all_iff)

lemma demo_keys: "keys_agree demo_env demo_lib (bc_symmetricKey (demo_client\<lparr>bc_sock := s\<rparr>)) demo_server_login (replicate 128 9)"
  using demo_key_login by (simp add: keys_agree_def demo_lib_def demo_client_def demo_env_def)

lemma demo_host_ready: "host_ready demo_env 6"
  using demo_good demo_host_good by (simp add: host_ready_def) (simp add: demo_env_def)

lemma demo_secret: "length (jstr ''secret'') = 6" "jstr ''secret'' \<noteq> []" "map ucast (jstr ''secret'') = ascii ''secret''"
proof -
  have a: "is_ascii (jstr ''secret'')" by (rule literal_bytes(1)) simp
  have "getBytes (jstr ''secret'') = ascii ''secret''" by (rule literal_bytes(2)) simp
  then show "map ucast (jstr ''secret'') = ascii ''secret''" by (simp only: getBytes_ascii [OF a])
qed (simp_all add: jstr_def)

lemma demo_password:
  "password_stored demo_env (getBytes (jstr ''bob'')) (map ucast (jstr ''secret'')) [[ascii ''secret'']] () () ()"
  by (simp add: password_stored_def demo_names demo_secret demo_defs getString_def)

section \<open>Their database\<close>

lemma demo_chat_users:
  "table_uid demo_tables (getBytes (jstr ''bob'')) = Some (ascii ''1'')"
  "table_uid demo_tables (getBytes (jstr ''eve'')) = Some (ascii ''2'')"
  "\<forall>x. table_uid demo_tables x \<noteq> None \<longrightarrow> validUsername x \<and> length x < 2 ^ 28"
proof -
  show "\<forall>x. table_uid demo_tables x \<noteq> None \<longrightarrow> validUsername x \<and> length x < 2 ^ 28"
  proof (intro allI impI)
    fix x assume "table_uid demo_tables x \<noteq> None"
    from demo_users(4) [OF this] bob_valid eve_valid show "validUsername x \<and> length x < 2 ^ 28" by auto
  qed
qed (simp_all only: demo_names demo_users(2,3))

lemma demo_hello: "is_ascii (jstr ''hello'')" "0 < length (jstr ''hello'')" "length (jstr ''hello'') \<le> 500"
  "getBytes (jstr ''hello'') = ascii ''hello''"
  by (rule literal_bytes(1), simp, simp add: jstr_def, simp add: jstr_def, rule literal_bytes(2), simp)

lemma demo_fits: "deliverable (demo_chat_on db) demo_key (getBytes (jstr ''hello''))"
  "\<forall>i x. (i, x) \<in> set (t_messages demo_tables) \<longrightarrow> deliverable (demo_chat_on db) demo_key x"
proof -
  show "deliverable (demo_chat_on db) demo_key (getBytes (jstr ''hello''))"
    by (simp add: demo_hello deliverable_def length_pad)
  show "\<forall>i x. (i, x) \<in> set (t_messages demo_tables) \<longrightarrow> deliverable (demo_chat_on db) demo_key x"
    by (simp add: demo_tables_def)
qed

lemma demo_chat_host: "host_good (env_host (demo_chat_on db))" "host_endian (env_host (demo_chat_on db)) = LittleEndian"
  "100 \<le> max_vla (env_host (demo_chat_on db))" "validPositiveNum (env_stale (demo_chat_on db) j i)"
  by (simp_all add: demo_host_def host_good_def validPositiveNum_def)

lemma demo_polls: "polls_at demo_lib (jstr ''eve'') 1000 0 (demo_eve [])"
  by (simp add: polls_at_def demo_eve_def demo_client_def demo_lib_def demo_sock_def WAIT_TIME_def)

text \<open>Another thread posts a text of its own meanwhile, just before the fifth statement.\<close>

definition demo_others :: "nat \<Rightarrow> statement list" where
  "demo_others n = (if n = 4 then [Updating INSERT_MESSAGE [ascii ''hi''],
     Updating INSERT_TRANSACTION [ascii ''1'', ascii ''2'', ascii ''1'', ascii ''1460000000'']] else [])"

lemma demo_polite: "\<forall>n. list_all (polite (deliverable (demo_chat_on db) demo_key)) (demo_others n)"
  by (simp add: demo_others_def polite_def thread_updates deliverable_def length_pad ascii_def)

lemma demo_read_store: "quiet_database table_dbms emails_unique table_uid
    (\<lambda>d. set (t_messages d)) (\<lambda>d. set (t_transactions d))"
  by (rule tables_read.quiet_database_axioms)

text \<open>A thread with some bytes to read.\<close>

definition demo_thread :: "'d \<Rightarrow> bytes \<Rightarrow> 'd world" where
  "demo_thread d bs = (demo_store_world d)\<lparr>w_sock := demo_sock [bs]\<rparr>"

lemma demo_thread_stands: "stands (bs @ [], [], 0, d) (demo_thread d bs)" "out (w_sock (demo_thread d bs)) = []"
  by (simp_all add: stands_def demo_thread_def demo_store_world_def demo_sock_def pending_def)

end
