(* ===== verification/Spec2Isabelle.thy ===== *)
theory Spec2Isabelle
  imports DemoClient
begin

text \<open>
  BabbleOn, a chat server in C++ (\<open>src/mockServer\<close>) and its Java client
  (\<open>src/BabbleOnClient2_newest/src/main/java\<close>): the wire protocol, the socket wrapper, the thread
  that serves one client, the client's threads and buttons, with the theorems that make each
  correct and those about the two programs together.

  The program. \<open>main\<close> accepts TCP connections and starts one thread per client, which runs
  \<open>clientConnectStart\<close> (\<open>MockServer.cpp\<close>). The thread reads messages with
  \<open>SPChatMessage::decode\<close> (\<open>protocol/SPChatMessage.cpp\<close>) from a \<open>TCPSocket\<close>
  (\<open>PracticalSocket.cpp\<close>), authenticates the client against a MySQL table with a challenge
  and a SHA-256 hash (\<open>Sha256Lib.h\<close>), receives a symmetric key under an RSA key of its own, and
  then answers polls and stores posted messages until the client stops, misbehaves or the
  session times out. The client (\<open>BabbleOnClient.java\<close>) logs in from a pane, reads the server's
  messages in one thread (\<open>ReaderThread\<close>), polls in another (\<open>PollThread\<close>), and cuts what its user
  types into encrypted pieces.

  The theories of the server, in the order of their imports:
  BabbleBase: machine types, the ways a call can end, reads of a buffer. Codec: the contracts
  \<open>field_reader\<close> and \<open>field_codec\<close> of the cursor style decoders. Wire: the integer and string
  primitives and validity tests of \<open>SPChatMessage\<close>. MessageClass: the contract
  \<open>payload_class\<close> between the base class and its subclasses; Login, Challenge, Response, Ack,
  Poll, MsgMessage, PollResponse: one subclass each, with the interpretation that discharges
  the contract. Sockets: \<open>send\<close>, \<open>recv\<close>, \<open>recvFully\<close>, \<open>close\<close> over a kernel described by POSIX.
  StreamBuffer: the buffered stream over a socket, with the contracts \<open>byte_sink\<close> and
  \<open>byte_source\<close>. Survey, SurveyFile: the transfer functions of \<open>SurveyCommon.cpp\<close> and its
  text format. Decimal: numerals.
  Kernel: the system calls that set sockets up; Address, SocketSetup, UdpSocket: the socket
  classes over them, with the contract \<open>tidy_member\<close> of a member towards other descriptors.
  Message: the class hierarchy, the header and the factory \<open>decode\<close>. Sha256 and Crypto: the
  wrappers of OpenSSL and Crypto++. World: the state of a thread (socket, database, trace of
  events) and its actions. Database: the three blocks of SQL. Session: \<open>clientConnectStart\<close>,
  cut at its consecutive blocks. Protocol: the abstract state machine and its safety
  properties. Refinement: the thread refines it. Progress: the loop ends. Behaviour: errors,
  refusals and time-outs. Honest, Rounds: the runs that go well. Output: what a thread puts on
  the wire, with the contract \<open>kept_relation\<close> of a relation that every action keeps.
  Server: \<open>main\<close> and the process of accept rounds and threads. ChatStore: the contract
  \<open>chat_database\<close> of the SQL statements, a post followed by the receiver's poll under it, its
  interpretation on tables in memory, and \<open>shared_store\<close>, what one thread needs of a database
  that others use too. Sharing: rely and guarantee between the threads at one database.
  DateTime: the conversion of the database's times.

  The theories of the client: JavaBase: strings, exceptions and data streams. JavaMessages,
  JavaChat: its message classes, constructors and encoders. JavaClient: the login pane, the
  handlers, the reader and the poll thread, the send button. ClientFrames, ClientPosts: what it
  writes are the server's encodings. ServerFrames: it reads what the server writes, with the
  contracts \<open>frame_source\<close> and \<open>chunk_source\<close> of a stream whose bytes are known and of one whose
  single reads are full. JavaObjects: the members of the message classes that the client does
  not call. ClientTurns: its turns, one by one and in a login. Interop: both programs together.
  ShortRead: an answer cut inside a block. Demo, DemoServer, DemoClient: concrete environments, operating system,
  clients and libraries on which the hypotheses of the theorems hold.

  State and operations. A C++ or Java object is a record with the members of its class, a setter a
  function that returns the changed object or the exception. A byte buffer is a list; reading
  outside it is the result \<open>Undefined\<close>, as is an array whose size is no size, so that no
  theorem uses a value C++ does not define. Uninitialised memory the code looks at is a
  parameter (\<open>stale_header\<close>, \<open>stale_time\<close>, \<open>env_stale\<close>, \<open>env_buffer\<close>). A thread's actions
  are state passing functions on \<open>world\<close>, those of the client on \<open>client\<close>, the state its
  threads share; exceptions, early returns and blocking are values.
  Integers keep their width: \<open>int\<close> is \<open>cint\<close>, \<open>long\<close> is \<open>clong\<close>. The byte order of the host is a
  parameter, since the code tests it. A socket object before bytes flow is its descriptor
  together with the kernel's state; \<open>served\<close> is the inductive set of states of the process.

  Parameters. What is not under \<open>src/\<close> is an argument: the digest, the ciphers, RSA, the random
  bytes, the clock and the MySQL connector (\<open>env\<close>, \<open>dbms\<close>, and \<open>jlib\<close> for the client), the
  outcomes of system calls (\<open>os\<close>, and \<open>send_plan\<close>, \<open>inq\<close> of a socket). The theorems' assumptions on
  them are documented behaviour: the statements do what their SQL text says when \<open>=\<close> compares
  bytes (\<open>chat_database\<close>), a query changes none of the tables (\<open>quiet_database\<close>), a digest has 32 bytes (\<open>env_good\<close>, with a stack smaller than
  2 GB), the two directions of a cipher invert each other (\<open>cbc_inverse\<close>), block by block and
  back to the initial state on the client's side (\<open>cbc_cipher\<close>), both sides have the same
  digest and RSA undoes itself (\<open>keys_agree\<close>), a clock does not go back (\<open>clock_runs\<close>). The client
  reads the blocks of a message with single reads, so that a message is shown under the
  assumption that its frame has arrived (\<open>at_once\<close>); \<open>short_read_garbles\<close> says what happens
  to one that has arrived only in part.

  Concurrency. The threads of the server share the database and nothing else. Each is one call
  of \<open>clientConnectStart\<close>; the process interleaves accepted connections and returning threads
  (\<open>served\<close>). At the database the unit is one statement, since the blocks open no transaction and
  the server commits each statement by itself. Every thread guarantees that it executes only
  the statements of the source, which lose nothing that was there (\<open>thread_only_adds\<close>). A thread
  that relies on this for all others sees the database \<open>among\<close> them: any such statements of
  theirs, given by an arbitrary schedule \<open>peers\<close>, before each of its own. Under the rely
  condition, and the condition that the texts the others store can be delivered (\<open>polite\<close>), this
  is a \<open>shared_store\<close> (\<open>crowded_store\<close>), and a text still goes from one client to another
  (\<open>text_reaches_window\<close>).
  The client's threads are modelled turn by turn; that their writes can meet is the subject of
  \<open>interleaved_writes\<close>.

  Bounds. \<open>chat_loop\<close> takes fuel, one unit per round; every round consumes at least a frame,
  so fuel above the number of unread bytes is enough and more changes nothing
  (\<open>thread_terminates\<close>). \<open>reader_run\<close> counts iterations of the reader's endless loop; a login
  takes four. All other loops are recursive functions with termination proofs.

  What the properties show. The thread refines the protocol machine, so nothing privileged
  happens before authentication, on the wire nothing but a challenge and a refusal; messages are
  delivered only to the user they were fetched for
  and stored only for the user who posted them, under the session key that the trace names
  (\<open>keyed_unique\<close>); the socket is closed exactly once when the thread returns, and in every
  state of the process each open descriptor has one owner. The two programs fit together: a
  login runs through on both sides, and a text goes from the send button of one client through
  both threads and the database, which other threads use meanwhile, to the window of another;
  polls are answered row by row. On the wire, messages round trip whatever the segmentation, a
  message is only built from a complete frame, and the decoders of the classes never read
  outside a payload. The error section states where the code's behaviour is undefined or wrong.

  Not modelled: the console output and the log; the Windows branches of \<open>PracticalSocket.cpp\<close>;
  failing allocations; the vendored MySQL headers in \<open>db/include\<close>, whose connector is the
  parameter \<open>dbms\<close>; the script in \<open>src/database\<close>, whose table nothing uses; of the client, its
  windows and dialogs, \<open>main\<close> and the generation of its keys.
\<close>

section \<open>The thread follows the protocol\<close>

text \<open>
  C1. Whatever the client sends and however the session ends, the events of a thread of
  clientConnectStart form a run of the protocol machine, which has ended exactly when the
  thread function has returned.
\<close>

theorem client_refines_protocol:
  assumes "env_good env" and "fresh_session d w" and "clientConnectStart env fuel w = (r, w')"
  shows "\<exists>p. run env (w_trace w') p \<and> (r = Next () \<longleftrightarrow> p = Ended)"
  using client_refines [OF assms] by (auto simp: in_phase_def in_open_phase_def split: if_splits)

theorem client_refines_protocol_witness:
  "\<exists>w' p. clientConnectStart demo_env 3 demo_world = (Stopped Blocks, w') \<and> w_trace w' = demo_trace \<and>
     run demo_env demo_trace p \<and> p \<noteq> Ended"
proof -
  obtain w' where w': "clientConnectStart demo_env 3 demo_world = (Stopped Blocks, w')" "w_trace w' = demo_trace"
    using demo_run by blast
  with client_refines_protocol [OF demo_good demo_fresh w'(1)] show ?thesis by auto
qed

text \<open>
  C2. No privileged event (a change of the database, a look at stored messages, a delivered
  message, the final acknowledgement) happens before the client has logged in, been
  challenged, and answered with the hash of challenge, nonce and the password stored for
  that login name.
\<close>

theorem authentication_safety:
  assumes "env_good env" and "fresh_session d w" and "clientConnectStart env fuel w = (r, w')"
    and "w_trace w' = pre @ e # post" and "privileged e"
  shows "\<exists>u. authenticated env u pre"
proof -
  obtain p where "run env (pre @ e # post) p" using client_run [OF assms(1-3)] assms(4) by auto
  then show ?thesis using assms(5) by (rule privileged_authenticated)
qed

theorem authentication_safety_witness:
  "\<exists>w' u. clientConnectStart demo_env 3 demo_world = (Stopped Blocks, w') \<and>
     authenticated demo_env u (demo_handshake @ [Recv (MPoll demo_poll)])"
proof -
  obtain w' where w': "clientConnectStart demo_env 3 demo_world = (Stopped Blocks, w')" "w_trace w' = demo_trace"
    using demo_run by blast
  have "w_trace w' = (demo_handshake @ [Recv (MPoll demo_poll)]) @ demo_query #
      ([Sent (reply demo_env demo_key demo_poll (hd demo_rows))] @ [Recv (MPollResponse demo_post)] @
     storing_trace (ascii ''hello'') demo_msg [[ascii ''7'']] [[ascii ''7'']] [[ascii ''7'']])"
    by (simp add: w'(2) demo_trace_def)
  from authentication_safety [OF demo_good demo_fresh w'(1) this] w'(1) show ?thesis
    by (auto simp: demo_query_def)
qed

text \<open>
  C3. Every message the server delivers goes to the authenticated user under the session
  key: it answers a poll under that user's own name, its receiver is that user, and its
  sender and text come from a row that the poll query for that user returned, the text
  encrypted under the key that the user's third login message carried.
\<close>

theorem delivery_safety:
  assumes "env_good env" and "fresh_session d w" and "clientConnectStart env fuel w = (r, w')"
    and "w_trace w' = pre @ Sent (MPollResponse pr) # post"
  shows "\<exists>u k p i rows. keyed env u k pre \<and> Recv (MPoll p) \<in> set pre \<and> pl_username p = u \<and>
    Query SELECT_MESSAGES [seconds_string (pl_time p), u] rows \<in> set pre \<and>
    proper_answer env u k p (fst (fetch_rows nothing_fetched rows)) i pr"
proof -
  obtain p where "run env (pre @ Sent (MPollResponse pr) # post) p"
    using client_run [OF assms(1-3)] assms(4) by auto
  then show ?thesis by (rule delivered_to_owner) blast
qed

theorem delivery_safety_witness:
  "\<exists>u k p i rows. keyed demo_env u k (demo_handshake @ [Recv (MPoll demo_poll), demo_query]) \<and>
    pl_username p = u \<and>
    proper_answer demo_env u k p (fst (fetch_rows nothing_fetched rows)) i
      \<lparr>pr_username = ascii ''eve'', pr_msgList = [\<lparr>mm_sender = ascii ''eve'', mm_receiver = ascii ''bob'',
        mm_message = ascii ''hi'', mm_decryptMsgLen = 2, mm_msgNum = 1, mm_totalMsg = 1, mm_time = 1460000000000\<rparr>],
       pr_listNum = 1, pr_totalList = 1\<rparr>" (is "\<exists>u k p i rows. _ \<and> _ \<and> proper_answer _ _ _ _ _ _ ?pr")
proof -
  obtain w' where w': "clientConnectStart demo_env 3 demo_world = (Stopped Blocks, w')" "w_trace w' = demo_trace"
    using demo_run by blast
  have "w_trace w' = (demo_handshake @ [Recv (MPoll demo_poll), demo_query]) @ Sent (MPollResponse ?pr) #
      (Recv (MPollResponse demo_post) #
     storing_trace (ascii ''hello'') demo_msg [[ascii ''7'']] [[ascii ''7'']] [[ascii ''7'']])"
    by (simp add: w'(2) demo_trace_def reply_def demo_rows_def demo_poll_def demo_env_def)
  from delivery_safety [OF demo_good demo_fresh w'(1) this] show ?thesis by blast
qed

text \<open>
  C4. Only two statements ever change the database: the insertion of the joined decryptions,
  under the session key, of a posted list whose first message carries the authenticated
  user's name, and the insertion of a transaction whose identifiers were looked up for that
  user, for the first message's receiver and for that text.
\<close>

theorem storing_safety:
  assumes "env_good env" and "fresh_session d w" and "clientConnectStart env fuel w = (r, w')"
    and "w_trace w' = pre @ Update sql ps # post"
  shows "\<exists>u k pr. keyed env u k pre \<and> posted_by u pre pr \<and>
    (sql = INSERT_MESSAGE \<and> ps = [posted_text env k (pr_msgList pr)]
     \<or> (\<exists>s r i. sql = INSERT_TRANSACTION \<and> ps = [s, r, i, seconds_string (mm_time (hd (pr_msgList pr)))]
          \<and> answer_of s pre SELECT_USER_ID u
          \<and> answer_of r pre SELECT_USER_ID (mm_receiver (hd (pr_msgList pr)))
          \<and> answer_of i pre SELECT_MESSAGE_ID (posted_text env k (pr_msgList pr))
          \<and> Update INSERT_MESSAGE [posted_text env k (pr_msgList pr)] \<in> set pre))"
proof -
  obtain p where "run env (pre @ Update sql ps # post) p" using client_run [OF assms(1-3)] assms(4) by auto
  then show ?thesis by (rule update_cases) blast+
qed

theorem storing_safety_witness:
  "\<exists>u k pr. keyed demo_env u k (take 13 demo_trace) \<and> posted_by u (take 13 demo_trace) pr"
proof -
  obtain w' where w': "clientConnectStart demo_env 3 demo_world = (Stopped Blocks, w')" "w_trace w' = demo_trace"
    using demo_run by blast
  have "w_trace w' = take 13 demo_trace @ Update INSERT_MESSAGE [ascii ''hello''] #
     tl (storing_trace (ascii ''hello'') demo_msg [[ascii ''7'']] [[ascii ''7'']] [[ascii ''7'']])"
    by (simp add: w'(2) demo_trace_def demo_handshake_def handshake_trace_def storing_trace_def)
  from storing_safety [OF demo_good demo_fresh w'(1) this] show ?thesis by blast
qed

text \<open>
  C5. The chat loop ends: with more rounds than there are bytes left to read, a thread never
  runs out of rounds, and its result does not depend on how many it is given.
\<close>

theorem thread_terminates:
  assumes "left w < fuel"
  shows "fst (clientConnectStart env fuel w) \<noteq> OutOfFuel \<and>
    clientConnectStart env (fuel + extra) w = clientConnectStart env fuel w"
  by (rule client_enough [OF assms])

theorem thread_terminates_witness:
  "fst (clientConnectStart demo_env 1 demo_gone) \<noteq> OutOfFuel \<and>
   clientConnectStart demo_env (1 + 5) demo_gone = clientConnectStart demo_env 1 demo_gone"
proof -
  have "left demo_gone < 1" by (simp add: left_def demo_gone_def demo_world_of_def demo_sock_def pending_def)
  from thread_terminates [OF this] show ?thesis by blast
qed

text \<open>
  C6. When the thread function returns, the client's descriptor has been closed exactly
  once; on every other ending (an uncaught exception, a blocked read, undefined behaviour)
  it has not been closed.
\<close>

theorem socket_closed_once:
  assumes "env_good env" and "fresh_session d w" and "clientConnectStart env fuel w = (r, w')"
  shows "closes (w_sock w') = (if r = Next () then [d] else [])"
  using client_refines [OF assms] by (auto simp: in_phase_def in_open_phase_def split: if_splits)

theorem socket_closed_once_witness:
  "\<exists>w'. clientConnectStart demo_env 1 demo_gone = (Next (), w') \<and> closes (w_sock w') = [4]"
proof -
  obtain w' where "clientConnectStart demo_env 1 demo_gone = (Next (), w')" using demo_gone_run by blast
  with socket_closed_once [OF demo_good demo_gone_fresh this] show ?thesis by simp
qed

text \<open>
  C7. What a thread can do to the database, whatever its client sends: run to any ending, it
  has executed connections, the four queries and the two insertions of the source, each with
  its number of parameters, and nothing else; on a database that keeps the contract of these
  statements no user, text or transaction that was there is lost or changed.
\<close>

theorem thread_only_adds:
  assumes "quiet_database (env_dbms env) good uid texts filed" and "good (w_db w)" and "clientConnectStart env fuel w = (r, w')"
  shows "\<exists>sts. list_all thread_statement sts \<and> w_db w' = fold (execute (env_dbms env)) sts (w_db w) \<and>
    good (w_db w') \<and> uid (w_db w') = uid (w_db w) \<and> texts (w_db w) \<subseteq> texts (w_db w') \<and> filed (w_db w) \<subseteq> filed (w_db w')"
  using thread_grows [OF assms] unfolding grown_def by blast

theorem thread_only_adds_witness:
  "\<exists>sts r w'. clientConnectStart demo_store_env 3 (demo_thread demo_tables (encode LittleEndian [] (MPollResponse demo_post))) = (r, w') \<and>
    list_all thread_statement sts \<and> w_db w' = fold (execute table_dbms) sts demo_tables \<and> table_uid (w_db w') = table_uid demo_tables"
proof -
  let ?w = "demo_thread demo_tables (encode LittleEndian [] (MPollResponse demo_post))"
  obtain r w' where run: "clientConnectStart demo_store_env 3 ?w = (r, w')" by (cases "clientConnectStart demo_store_env 3 ?w")
  have w: "w_db ?w = demo_tables" "env_dbms demo_store_env = table_dbms"
    by (simp_all add: demo_thread_def demo_store_world_def demo_store_env_def demo_env_on_def)
  from thread_only_adds [of demo_store_env, unfolded w(2), OF demo_read_store _ run] demo_users(1) run
  show ?thesis unfolding w by blast
qed

text \<open>
  C8. While the kernel takes what it is given, the bytes a client receives are exactly the
  frames of the messages that the trace of its thread names, in that order; and a client
  that has not answered the challenge for a stored password gets no more than the frame of
  the challenge and that of a refusal.
\<close>

theorem wire_is_trace:
  assumes "env_good env" and "fresh_session d w" and "clientConnectStart env fuel w = (r, w')"
    and "send_plan (w_sock w) = []" and "out (w_sock w) = []"
  shows "out (w_sock w') = concat (map (sent_frame env) (sent_messages (w_trace w'))) \<and>
    ((\<exists>u. authenticated env u (w_trace w')) \<or>
     (\<exists>k. out (w_sock w') = concat (take k
       [encode (host_endian (env_host env)) [] (MChallenge \<lparr>ch_challenge = challenge_of env\<rparr>),
        encode (host_endian (env_host env)) [] (server_ack DEFAULT_ERROR)])))"
  using thread_wire [OF assms] by (simp add: early_messages_def)

theorem wire_is_trace_witness:
  "\<exists>w'. clientConnectStart demo_env 3 demo_world = (Stopped Blocks, w') \<and>
     out (w_sock w') = concat (map (sent_frame demo_env) (sent_messages demo_trace))"
proof -
  obtain w' where w': "clientConnectStart demo_env 3 demo_world = (Stopped Blocks, w')" "w_trace w' = demo_trace"
    using demo_run by blast
  have "send_plan (w_sock demo_world) = []" "out (w_sock demo_world) = []"
    by (simp_all add: demo_world_def demo_world_of_def demo_sock_def)
  from wire_is_trace [OF demo_good demo_fresh w'(1) this] w' show ?thesis by auto
qed

section \<open>The Java client and the server together\<close>





text \<open>
  C11. The send button cuts a text of up to 7499 ASCII characters into pieces of at most 15,
  encrypts each on its own and writes one frame per recipient: the server's encoding of a
  valid post under the sender's name, whose elements all name this recipient, carry one
  cipher block and the number of pieces, and decrypt and join to the text again, behind the
  list of recipients when there are several.
\<close>

theorem text_in_pieces:
  assumes "bc_username cl = Some u" and "good_name u" and "bc_recipients cl \<noteq> []" and "list_all good_name (bc_recipients cl)"
    and "is_ascii outgoing" and "0 < length outgoing" and "length outgoing < 7500"
    and "length (group_header (bc_recipients cl) @ outgoing) < 2 ^ 31"
    and "can_send lib enc cl" and "bc_cipherOut cl \<in> {None, Some (fresh_cipher lib True cl)}" and "bc_outMsgs cl = []"
    and "\<And>p. fst (env_decrypt env key ivString (enc p)) = p"
  shows "\<exists>cl' ps. send_text lib outgoing cl = (Inr (), cl') \<and>
    out (bc_sock cl') = out (bc_sock cl) @ concat (map (\<lambda>p. encode LittleEndian [] (MPollResponse p)) ps) \<and>
    length ps = length (bc_recipients cl) \<and>
    (\<forall>i < length ps. pr_valid (ps ! i) \<and> pr_username (ps ! i) = getBytes u \<and>
      posted_text env key (pr_msgList (ps ! i)) = getBytes (group_header (bc_recipients cl) @ outgoing) \<and>
      list_all (\<lambda>m. mm_sender m = getBytes u \<and> mm_receiver m = getBytes (bc_recipients cl ! i) \<and> length (mm_message m) = 16 \<and>
        mm_totalMsg m = word_of_nat (piece_count (group_header (bc_recipients cl) @ outgoing))) (pr_msgList (ps ! i)))"
proof -
  let ?msg = "group_header (bc_recipients cl) @ outgoing" and ?rs = "bc_recipients cl"
  let ?ps = "posts_of (jv_now lib) enc u ?msg (bc_clock cl) ?rs"
  note enc = can_send_encoded [OF assms(9)]
  have clock: "clock_runs (jv_now lib)" using assms(9) by (simp add: can_send_def)
  have msg: "is_ascii ?msg" using group_header_ascii [OF assms(4)] assms(5) by simp
  from send_text_ok [OF assms(1-4,6-11) refl] obtain cl' where
    "send_text lib outgoing cl = (Inr (), cl')" "out (bc_sock cl') = out (bc_sock cl) @ frames_of ?ps" by simp
  moreover have "pr_valid (?ps ! i) \<and> pr_username (?ps ! i) = getBytes u \<and> posted_text env key (pr_msgList (?ps ! i)) = getBytes ?msg \<and>
      list_all (\<lambda>m. mm_sender m = getBytes u \<and> mm_receiver m = getBytes (?rs ! i) \<and> length (mm_message m) = 16 \<and>
        mm_totalMsg m = word_of_nat (piece_count ?msg)) (pr_msgList (?ps ! i))" if "i < length ?ps" for i
  proof -
    have i: "i < length ?rs" using that by (simp add: posts_nth)
    then have "good_name (?rs ! i)" using assms(4) by (simp add: list_all_length)
    from post_valid [OF assms(2) this assms(8) clock enc] posted_text_elements [OF assms(12) msg] post_addressed [OF enc assms(8)]
    show ?thesis unfolding posts_nth(2) [OF i] by (simp add: post_of_def)
  qed
  ultimately show ?thesis by (auto simp: frames_of_def posts_nth(1) intro!: exI [of _ ?ps])
qed

theorem text_in_pieces_witness:
  "\<exists>cl' post. send_text demo_lib (jstr ''hello'') demo_bob = (Inr (), cl') \<and>
     out (bc_sock cl') = encode LittleEndian [] (MPollResponse post) \<and>
     posted_text demo_chat_env demo_key (pr_msgList post) = ascii ''hello''"
proof -
  note b = demo_sends [where db = table_dbms, unfolded sends_as_def demo_chat_env fst_conv]
  have d: "fst (env_decrypt demo_chat_env demo_key ivString (demo_pad p)) = p" for p by (simp add: unpad_pad)
  have r: "bc_recipients demo_bob = [jstr ''eve'']" "out (bc_sock demo_bob) = []" "bc_outMsgs demo_bob = []"
    by (simp_all add: demo_bob_def demo_client_def demo_sock_def)
  have l: "length (jstr ''hello'') < 7500" using demo_hello(3) by simp
  from text_in_pieces [of demo_bob "jstr ''bob''" "jstr ''hello''" demo_lib demo_pad demo_chat_env demo_key, OF _ _ _ _ demo_hello(1,2) l]
    b d r demo_names(2) l
  obtain cl' ps where "send_text demo_lib (jstr ''hello'') demo_bob = (Inr (), cl')"
    "out (bc_sock cl') = concat (map (\<lambda>p. encode LittleEndian [] (MPollResponse p)) ps)" "length ps = 1"
    "posted_text demo_chat_env demo_key (pr_msgList (ps ! 0)) = ascii ''hello''"
    by (auto simp: group_header_def demo_hello(4))
  then show ?thesis by (auto simp: length_Suc_conv)
qed

section \<open>The process\<close>



text \<open>
  C13. main returns only, and then with 0, when the listening constructor has thrown; once
  it listens it stays in the accept loop in a state of the process, whatever fails, until it
  waits forever for a connection or is given no more rounds.
\<close>

theorem main_keeps_accepting:
  assumes "server_main os thr db fuel (k, d) = (r, st, d')"
  shows "case r of
      Next c \<Rightarrow> c = 0 \<and> (\<exists>e. fst (TCPServerSocket_new os serverPort 5 k) = Inl (Throw e))
    | Stopped x \<Rightarrow> x = Blocks \<and> served os thr env k st \<or> fst (TCPServerSocket_new os serverPort 5 k) = Inl x
    | OutOfFuel \<Rightarrow> served os thr env k st
    | Returned \<Rightarrow> False"
  by (rule main_result [OF assms])

theorem main_keeps_accepting_witness:
  "\<exists>st. server_main demo_os (\<lambda>_. True) demo_dbms 1 (demo_kernel, ()) = (OutOfFuel, st, ()) \<and>
     served demo_os (\<lambda>_. True) demo_env demo_kernel st"
proof -
  have m: "server_main demo_os (\<lambda>_. True) demo_dbms 1 (demo_kernel, ()) = (OutOfFuel, demo_accepting, ())"
    by (simp add: server_main_def demo_new demo_round)
  from main_keeps_accepting [OF m, of demo_env] m show ?thesis by auto
qed

section \<open>Runs that go well\<close>



text \<open>
  C15. The value the server compares with the client's hash is the lower-case hexadecimal
  digest of challenge, nonce and password, in this order, whatever the buffers contained
  before; sha256_varbytes prints a digest as 64 digits and a NUL into the 65 byte array, no
  two digests are printed alike, and the Java client's formatting of a digest through
  BigInteger gives the same characters, leading zeros included.
\<close>

theorem password_hash:
  assumes "env_good env" and "length c = 8" and "8 + int (length pw) + int (length nonce) \<le> max_vla (env_host env)"
    and "length buf = 65" and "0 \<le> n" and "n \<le> int (length s)"
  shows "expected_hash env c nonce pw = Inr (hex (env_sha env (c @ nonce @ pw))) \<and>
    sha256_varbytes (env_sha env) s buf n = Inr (hex (env_sha env (take (nat n) s)) @ [0]) \<and>
    (sha256_varbytes (env_sha env) s buf n = sha256_varbytes (env_sha env) t buf (int (length t)) \<longleftrightarrow>
      env_sha env (take (nat n) s) = env_sha env t) \<and>
    hex (env_sha env t) = getBytes (format_064x (BigInteger1 (env_sha env t)))"
proof -
  have sha: "\<And>x. length (env_sha env x) = 32" using assms(1) by (simp add: env_good_def)
  show ?thesis
    using expected_hash_ok [OF assms(1-3)] sha256_varbytes_hex [OF sha assms(4-6)]
      sha256_varbytes_hex [OF sha assms(4), of "int (length t)" t] format_digest(3) [OF sha]
    by (auto dest: hex_inj)
qed

theorem password_hash_witness:
  "expected_hash demo_env (replicate 8 1) [2, 3] (ascii ''secret'') = Inr (hex (replicate 32 0)) \<and>
   sha256_varbytes (env_sha demo_env) [1, 2, 3] (replicate 65 9) 2 = Inr (hex (replicate 32 0) @ [0])"
  using password_hash [OF demo_good, of "replicate 8 1" "ascii ''secret''" "[2, 3]" "replicate 65 9" 2 "[1, 2, 3]" "[]"]
  by simp

section \<open>Messages on the wire\<close>





text \<open>
  C18. A message is only ever built from a complete frame: although decode ignores how much
  of the header arrived, on success the stream began with a header of the message's type and
  the announced number of payload bytes, the object satisfies its class invariant, and just
  the frame was consumed.
\<close>

theorem decode_complete_frames:
  assumes "SPChatMessage_decode h t s = (Inr m, s')"
  shows "\<exists>n p. pending s = frame_header LittleEndian (getType m) n @ p @ pending s' \<and> p \<noteq> [] \<and>
    sint n = int (length p) \<and> decode_payload h t (getType m) p (int (length p)) = Inr m \<and>
    msg_valid m \<and> s' = s\<lparr>inq := inq s'\<rparr>"
  using assms by (rule decode_success) blast

theorem decode_complete_frames_witness:
  "\<exists>n p q. encode LittleEndian [] (MLogin demo_login) = frame_header LittleEndian 0 n @ p @ concat q \<and> p \<noteq> []"
proof -
  let ?s = "demo_sock [encode LittleEndian [] (MLogin demo_login)]"
  have "\<exists>q. SPChatMessage_decode demo_host 0 ?s = (Inr (MLogin demo_login), ?s\<lparr>inq := q\<rparr>) \<and> concat q = []"
    using demo_receivable(1) demo_host_good
    by (intro decode_encode_frame) (simp_all add: receivable_def demo_sock_def pending_def)
  then obtain q where q: "SPChatMessage_decode demo_host 0 ?s = (Inr (MLogin demo_login), ?s\<lparr>inq := q\<rparr>)" by blast
  from decode_complete_frames [OF q] show ?thesis
    by (auto simp: demo_sock_def pending_def SPCHATLOGIN_TYPE_def)
qed

text \<open>
  C19. How TCP cuts the stream does not matter: two sockets with the same bytes to read and
  the same end of stream give decode the same result, and leave the same bytes behind.
\<close>

theorem decode_ignores_segmentation:
  assumes "pending s = pending t" and "in_end s = in_end t"
    and "SPChatMessage_decode h n s = (r, s')" and "SPChatMessage_decode h n t = (r', t')"
  shows "r = r' \<and> pending s' = pending t'"
  using decode_same_input [of s t h n r s' r' t'] assms by (simp add: same_input_def)

theorem decode_ignores_segmentation_witness:
  "fst (SPChatMessage_decode demo_host 0 (demo_sock [[1, 2], [3], replicate 40 4]))
   = fst (SPChatMessage_decode demo_host 0 (demo_sock [[1, 2, 3] @ replicate 40 4]))"
proof -
  let ?s = "demo_sock [[1, 2], [3], replicate 40 4]" and ?t = "demo_sock [[1, 2, 3] @ replicate 40 4]"
  have same: "pending ?s = pending ?t" "in_end ?s = in_end ?t" by (simp_all add: demo_sock_def pending_def)
  show ?thesis
    using decode_ignores_segmentation [OF same prod.collapse [symmetric] prod.collapse [symmetric]] by blast
qed



text \<open>
  C21. For a sendable message of every class, the payload length announced in the header is
  the number of bytes encodeMiddle writes, and send is called with the length of the whole
  encoding, so it never reads past it.
\<close>

theorem announced_length:
  assumes "msg_sendable m" and "length (encode e [] m) < 2 ^ 31"
  shows "getPayloadLength m = word_of_nat (length (encodeMiddle e [] m)) \<and>
    sint (ucast (getTotalMsgLength m) :: cint) = int (length (encode e [] m)) \<and>
    \<not> is_undefined (fst (CommunicatingSocket_send (encode e [] m)
      (sint (ucast (getTotalMsgLength m) :: cint)) s))"
  using payload_length_sendable [OF assms(1)] send_length [OF assms] send_defined [OF assms] by blast

theorem announced_length_witness:
  "sint (ucast (getTotalMsgLength (MPoll demo_poll)) :: cint) = int (length (encode BigEndian [] (MPoll demo_poll)))"
  using announced_length [of "MPoll demo_poll" BigEndian] demo_receivable(3)
  by (simp add: receivable_def encode_frame pl_middle demo_poll_def)

text \<open>
  C22. On any host decodeLong and decodeInt succeed exactly when enough bytes are left, and
  return the value whose big-endian bytes are at the cursor; decodeString succeeds exactly
  on a four byte non-negative length followed by that many bytes, and returns those. Each
  leaves the cursor behind what it read, and in every other case decodeString throws.
\<close>

theorem string_codec:
  assumes "k \<le> length buf"
  shows "(decodeLong e buf (int (length buf)) (int k) = Inr (x, q) \<longleftrightarrow>
      q = int (k + 8) \<and> (\<exists>r. drop k buf = encodeLong LittleEndian [] x @ r)) \<and>
    (decodeInt e buf (int (length buf)) (int k) = Inr (y, q) \<longleftrightarrow>
      q = int (k + 4) \<and> (\<exists>r. drop k buf = encodeInt LittleEndian [] y @ r)) \<and>
    (decodeString e buf (int (length buf)) (int k) = Inr (s, q) \<longleftrightarrow>
      length s < 2 ^ 31 \<and> q = int (k + 4 + length s) \<and> (\<exists>r. drop k buf = encodeString LittleEndian [] s @ r)) \<and>
    ((\<exists>x. decodeString e buf (int (length buf)) (int k) = Inr x)
      \<or> (\<exists>m. decodeString e buf (int (length buf)) (int k) = spchat_throw m))"
proof (intro conjI)
  show "decodeString e buf (int (length buf)) (int k) = Inr (s, q) \<longleftrightarrow>
      length s < 2 ^ 31 \<and> q = int (k + 4 + length s) \<and> (\<exists>r. drop k buf = encodeString LittleEndian [] s @ r)"
    using str.dec_iff [where c = e and k = k and buf = buf and x = s and q = q] assms by (auto simp: rest_at_def ok_string_def add.assoc)
  from str.stops [OF assms, where c = e] show "(\<exists>x. decodeString e buf (int (length buf)) (int k) = Inr x)
      \<or> (\<exists>m. decodeString e buf (int (length buf)) (int k) = spchat_throw m)"
    by (cases rule: only_spchat_cases) auto
qed (use long.dec_iff [where c = e and k = k and buf = buf and x = x and q = q]
    int.dec_iff [where c = e and k = k and buf = buf and x = y and q = q] assms in \<open>simp_all add: rest_at_def\<close>)

theorem string_codec_witness:
  "decodeString BigEndian (encodeString LittleEndian [] (ascii ''bob'')) 7 0 = Inr (ascii ''bob'', 7) \<and>
   decodeInt BigEndian ([7] @ [0, 0, 1, 2]) 5 1 = Inr (258, 5)"
  using string_codec [of 0 "encodeString LittleEndian [] (ascii ''bob'')" BigEndian _ 7 _ "ascii ''bob''"]
    string_codec [of 1 "[7] @ encodeInt LittleEndian [] 258" BigEndian _ 5 258]
  by (simp add: demo_258)

text \<open>
  C23. The keys of a login message. setAsymmetricKey accepts a 271 byte key exactly when it
  has the PEM header line, the footer and a line break at the four expected positions, and
  throws otherwise. A login with an encrypted symmetric key keeps the key, but cannot be
  sent: its header announces 128 bytes more than encodeMiddle writes, because encodeMiddle
  writes the (empty) public key instead.
\<close>

theorem login_keys:
  assumes "length s = ASYMMETRIC_LENGTH" and "validUsername u" and "length k = 128"
  shows "setAsymmetricKey s m = (if pem_key s then Inr (m\<lparr>lg_keyType := ASYMMETRIC_KEY, lg_key := s\<rparr>)
      else spchat_throw ASYMMETRIC_KEY_EXCEPTION) \<and>
    (\<exists>l. SPChatLogin_new u ENCRYPTED_SYM_KEY k 128 = Inr l \<and> lg_encSymKey l = k \<and>
      lg_getPayloadLength l = word_of_nat (length (lg_encodeMiddle e [] l) + 128))"
proof -
  have r: "rdn k 0 128 = Inr k" using rdn_eq [of 0 128 k] assms(3) by simp
  show ?thesis
    using assms by (simp add: setAsymmetricKey_iff SPChatLogin_new_def lg_setUsername_def setKey_def lg_uninit_def
        key_consts r lg_getPayloadLength_def lg_middle size_defs)
qed

theorem login_keys_witness:
  "setAsymmetricKey (take 271 demo_pem) demo_login
     = Inr (demo_login\<lparr>lg_keyType := ASYMMETRIC_KEY, lg_key := take 271 demo_pem\<rparr>) \<and>
   (\<exists>l. SPChatLogin_new (ascii ''bob'') ENCRYPTED_SYM_KEY (replicate 128 9) 128 = Inr l \<and> lg_encSymKey l = replicate 128 9)"
  using login_keys [of "take 271 demo_pem" "ascii ''bob''" "replicate 128 9" demo_login LittleEndian] demo_pem_key length_demo_pem
    bob_valid by (auto simp: key_consts)



section \<open>Sockets and time\<close>



text \<open>
  C26. The listening constructor gives its object exactly one new descriptor when it
  succeeds; but when bind fails, the descriptor that findTCPServerSocketDesc has made stays
  open although no object knows it.
\<close>

theorem listening_socket:
  assumes "TCPServerSocket_new os port n k = (r, (d, k'))"
  shows "(r = Inr () \<longrightarrow> 0 \<le> d \<and> d \<notin> set (k_open k) \<and> k_open k' = k_open k @ [d] \<and> k_lists k' = k_lists k) \<and>
    (os_resolver os (length (k_calls k)) = (0, a # as) \<and> \<not> os_fails os (Suc (length (k_calls k))) \<and>
       os_fails os (Suc (Suc (length (k_calls k)))) \<longrightarrow>
     r = socket_throw ''can't perform bind'' \<and> d = -1 \<and> k_open k' = k_open k @ [lowest_free (k_open k)])"
  using assms server_socket_new_ok [of os port n k d k'] bind_failure_leaks [of os k a as port n] by auto

theorem listening_socket_witness:
  "fst (snd (TCPServerSocket_new (demo_os\<lparr>os_fails := \<lambda>i. i = 2\<rparr>) 54321 5 demo_kernel)) = -1 \<and>
   k_open (snd (snd (TCPServerSocket_new (demo_os\<lparr>os_fails := \<lambda>i. i = 2\<rparr>) 54321 5 demo_kernel))) = [0, 1, 2, 3]"
proof -
  let ?os = "demo_os\<lparr>os_fails := \<lambda>i. i = 2\<rparr>"
  obtain r d k' where n: "TCPServerSocket_new ?os 54321 5 demo_kernel = (r, (d, k'))" by (metis surj_pair)
  from listening_socket [OF n, of demo_addrinfo "[]"] have "d = -1 \<and> k_open k' = [0, 1, 2, 3]"
    by (simp add: demo_os_def demo_kernel_def demo_free)
  then show ?thesis by (simp add: n)
qed

text \<open>
  C27. A SocketAddress made from the bytes of an IPv4 socket address gives back its port and
  prints its address in dotted decimal form, on a host of either byte order; and the six
  characters a port number is printed into always suffice.
\<close>

theorem address_roundtrip:
  assumes "length address = 4"
  shows "\<exists>a. SocketAddress_wrap os (sockaddr_in (os_endian os) address port) 16 = Inr a \<and>
    getPort os a = Inr port \<and> getAddress os a = Inr (dotted address) \<and> port_service port = decimal_nat (unat port)"
  using wrap_sockaddr_in [OF assms] port_service by blast

theorem address_roundtrip_witness:
  "\<exists>a. SocketAddress_wrap demo_os (sockaddr_in LittleEndian [127, 0, 0, 1] 54321) 16 = Inr a \<and>
     getPort demo_os a = Inr 54321 \<and> getAddress demo_os a = Inr (ascii ''127.0.0.1'')"
proof -
  have "dotted [127, 0, 0, 1] = ascii ''127.0.0.1''"
    by (simp add: decimal_nat.simps ascii_def)
  with address_roundtrip [of "[127, 0, 0, 1]" demo_os 54321] show ?thesis by (auto simp: demo_os_def)
qed

text \<open>
  C28. The buffered stream over a socket is transparent: characters put into it and flushed
  arrive at the socket in order, behind what was buffered, whatever their number; characters
  got from it are those of the socket in order; neither buffer leaves its 1024 bytes. But
  what was put and not flushed is lost when the socket is deleted.
\<close>

theorem stream_transparent:
  assumes "send_plan s = []" and "n \<le> length (inBuffer b @ pending s)"
    and "length (inBuffer b) \<le> BUFFER_SIZE" and "length (outBuffer b) \<le> BUFFER_SIZE"
  shows "(\<exists>s1 s2. sputn cs (b, s) = (Inr (), s1) \<and> length (outBuffer (fst s1)) \<le> BUFFER_SIZE \<and>
      buf_sync s1 = (Inr (), s2) \<and> out (snd s2) = out s @ outBuffer b @ cs) \<and>
    (\<exists>s'. sgetn n (b, s) = (Inr (take n (inBuffer b @ pending s)), s') \<and> length (inBuffer (fst s')) \<le> BUFFER_SIZE) \<and>
    (length (outBuffer b) + length cs \<le> BUFFER_SIZE \<longrightarrow>
      sputn cs (b, s) = (Inr (), (b\<lparr>outBuffer := outBuffer b @ cs\<rparr>, s)) \<and>
      out (tcp_sock (TCPSocket_delete \<lparr>tcp_sock = s, myStream = Some (b\<lparr>outBuffer := outBuffer b @ cs\<rparr>)\<rparr>)) = out s)"
proof -
  obtain s1 s2 where p: "sputn cs (b, s) = (Inr (), s1)" "buf_sync s1 = (Inr (), s2)" "out (snd s2) = out s @ outBuffer b @ cs"
    using sputn_sent [of "(b, s)" cs] assms(1) by (auto simp: sends_work_def all_output_def)
  obtain s' where g: "sgetn n (b, s) = (Inr (take n (inBuffer b @ pending s)), s')"
    using sgetn_prefix [of n "(b, s)"] assms(2) by (auto simp: all_input_def)
  have "length (outBuffer (fst s1)) \<le> BUFFER_SIZE" "length (inBuffer (fst s')) \<le> BUFFER_SIZE"
    using sputn_bounded [OF _ p(1)] sgetn_bounded [OF _ g] assms(3,4) by simp_all
  then show ?thesis using p g sputn_small [of b cs s] by (intro conjI exI [of _ s1] exI [of _ s2] exI [of _ s']) (simp_all add: delete_discards)
qed

theorem stream_transparent_witness:
  "(\<exists>s1 s2. sputn (replicate 3000 7) (SocketStreamBuffer_new, demo_sock [[1], [2, 3]]) = (Inr (), s1) \<and>
      buf_sync s1 = (Inr (), s2) \<and> out (snd s2) = replicate 3000 7) \<and>
   (\<exists>s'. sgetn 2 (SocketStreamBuffer_new, demo_sock [[1], [2, 3]]) = (Inr [1, 2], s'))"
  using stream_transparent [of "demo_sock [[1], [2, 3]]" 2 SocketStreamBuffer_new "replicate 3000 7"]
  by (auto simp: demo_sock_def SocketStreamBuffer_new_def pending_def)



text \<open>
  C30. readSurvey reads the text of any list of questions back as this list and leaves the
  stream right behind it. A text that ends after the number of questions gives False and as
  many empty questions; a negative number makes the vector constructor throw.
\<close>

theorem survey_file:
  assumes "list_all question_ok qs" and "length qs < 2 ^ 31" and "0 < n" and "n < 2 ^ 31" and "sint (fst (read_int t)) < 0"
  shows "readSurvey (at (survey_text qs @ cs)) old = (Inr True, qs, at cs) \<and>
    (\<exists>s'. readSurvey (at (line_of (decimal_nat n))) old = (Inr False, replicate n Question_new, s')) \<and>
    (\<exists>s'. readSurvey t old = (Inl (Throw LengthError), old, s'))"
  using readSurvey_text [OF assms(1,2)] readSurvey_cut [OF assms(4,3)] readSurvey_negative [OF assms(5)]
  by (metis prod.collapse)

theorem survey_file_witness:
  "readSurvey (at (survey_text [\<lparr>qText = [104, 105], rList = [[], [121]]\<rparr>] @ [1])) []
     = (Inr True, [\<lparr>qText = [104, 105], rList = [[], [121]]\<rparr>], at [1]) \<and>
   fst (readSurvey (at (line_of (decimal_nat 3))) []) = Inr False \<and>
   fst (readSurvey (at [45, 50]) []) = Inl (Throw LengthError)"
proof -
  have "read_int (at [45, 50]) = (- 2, \<lparr>is_rest = [], is_eof = True, is_fail = False\<rparr>)"
    by (simp add: read_int_def is_good_def is_space_def is_digit_def number_def)
  then show ?thesis
    using survey_file [of "[\<lparr>qText = [104, 105], rList = [[], [121]]\<rparr>]" 3 "at [45, 50]" "[1]" "[]"]
    by (auto simp: question_ok_def)
qed

text \<open>
  C31. UnixTimeFromMysqlString gives mktime the fields of a date and time as the database
  prints them, and the daylight saving flag of an uninitialised variable; a text that does
  not start with a number leaves all of the variable as it was.
\<close>

theorem date_conversion:
  assumes "0 \<le> y" "y \<le> 9999" and "1 \<le> mo" "mo \<le> 12" and "1 \<le> d" "d \<le> 31" and "0 \<le> h" "h \<le> 23" and "0 \<le> mi" "mi \<le> 59"
    and "0 \<le> s" "s \<le> 61" and "junk = [] \<or> \<not> is_digit (hd junk) \<and> \<not> is_space (hd junk)"
  shows "UnixTimeFromMysqlString mktime t (mysql_datetime y mo d h mi s) = mktime \<lparr>tm_sec = s, tm_min = mi, tm_hour = h,
      tm_mday = d, tm_mon = mo - 1, tm_year = y - 1900, tm_isdst = tm_isdst t\<rparr> \<and>
    UnixTimeFromMysqlString mktime t junk = mktime t"
proof -
  have "c_string (mysql_datetime y mo d h mi s) = mysql_datetime y mo d h mi s"
    using datetime_bytes [of y mo d h mi s] assms by (auto simp: c_string_def takeWhile_eq_all_conv)
  moreover have "c_string junk = [] \<or> \<not> is_digit (hd (c_string junk)) \<and> \<not> is_space (hd (c_string junk))"
    using assms(13) by (cases junk) (auto simp: c_string_def)
  ultimately show ?thesis
    using strptime_datetime [OF assms(1-12), of t] no_date [of "c_string junk" t] by (simp add: UnixTimeFromMysqlString_def)
qed

theorem date_conversion_witness:
  "UnixTimeFromMysqlString (\<lambda>t. word_of_int (tm_year t * 10 + tm_isdst t)) \<lparr>tm_sec = 0, tm_min = 0, tm_hour = 0, tm_mday = 0,
     tm_mon = 0, tm_year = 0, tm_isdst = 7\<rparr> (mysql_datetime 2016 4 8 12 30 59) = 1167"
  using date_conversion [of 2016 4 8 12 30 59 "[]" "\<lambda>t. word_of_int (tm_year t * 10 + tm_isdst t)"
    "\<lparr>tm_sec = 0, tm_min = 0, tm_hour = 0, tm_mday = 0, tm_mon = 0, tm_year = 0, tm_isdst = 7\<rparr>"] by simp

section \<open>Refusals and errors\<close>

text \<open>
  C32. A poll or a non-empty post under another user's name reaches no database statement:
  the client is dropped. An empty post makes the handler read element 0 of an empty vector.
\<close>

theorem foreign_poll_dropped:
  assumes "length key = 16"
  shows "(pl_username p \<noteq> u \<longrightarrow> handle_message env u key (MPoll p) w = (Returned, delete_sock w)) \<and>
    (pr_msgList pr = m # ms \<longrightarrow> mm_sender m \<noteq> u \<longrightarrow>
      handle_message env u key (MPollResponse pr) w = (Returned, delete_sock w)) \<and>
    (pr_msgList pr = [] \<longrightarrow> handle_message env u key (MPollResponse pr) w = (Stopped (Undefined OutOfBounds), w))"
  using foreign_dropped [OF assms] by (auto simp: handle_message_def post_empty)

theorem foreign_poll_dropped_witness:
  "handle_message demo_env (ascii ''eve'') demo_key (MPoll demo_poll) demo_world = (Returned, delete_sock demo_world) \<and>
   handle_message demo_env (ascii ''eve'') demo_key (MPollResponse demo_post) demo_world
     = (Returned, delete_sock demo_world) \<and>
   handle_message demo_env (ascii ''bob'') demo_key (MPollResponse (demo_post\<lparr>pr_msgList := []\<rparr>)) demo_world
     = (Stopped (Undefined OutOfBounds), demo_world)"
  using foreign_poll_dropped [of demo_key demo_poll "ascii ''eve''" demo_env demo_world demo_post demo_msg "[]"]
    foreign_poll_dropped [of demo_key demo_poll "ascii ''bob''" demo_env demo_world "demo_post\<lparr>pr_msgList := []\<rparr>" demo_msg "[]"]
  by (simp add: demo_key_def demo_poll_def demo_post_def demo_msg_def ascii_def)

text \<open>
  C33. Nineteen bytes suffice to make the behaviour of the process undefined, before any
  authentication: a header that announces a negative payload length, or one larger than the
  stack can hold, becomes the size of a local array; one that announces an empty
  acknowledgement makes its constructor read the first byte of an empty array.
\<close>

theorem negative_length_undefined:
  assumes "pending (w_sock w) = frame_header LittleEndian ty n @ rest" and "0 \<le> max_vla (env_host env)"
  shows "(sint n < 0 \<or> max_vla (env_host env) < sint n \<longrightarrow>
      fst (clientConnectStart env fuel w) = Stopped (Undefined BadArraySize)) \<and>
    (ty = SPCHATACK_TYPE \<and> n = 0 \<and> (rest \<noteq> [] \<or> in_end (w_sock w) = PeerClosed) \<longrightarrow>
      fst (clientConnectStart env fuel w) = Stopped (Undefined OutOfBounds))"
  using assms decode_negative [OF assms(1)] decode_huge [OF assms(1)]
  by (auto intro!: client_undefined decode_empty_ack)

theorem negative_length_undefined_witness:
  "fst (clientConnectStart demo_env 1 (demo_world_of [frame_header LittleEndian 0 (- 1)]))
     = Stopped (Undefined BadArraySize) \<and>
   fst (clientConnectStart demo_env 1 (demo_world_of [frame_header LittleEndian SPCHATACK_TYPE 0, [1]]))
     = Stopped (Undefined OutOfBounds)"
  using negative_length_undefined [of "demo_world_of [frame_header LittleEndian 0 (- 1)]" 0 "- 1" "[]" demo_env 1]
    negative_length_undefined [of "demo_world_of [frame_header LittleEndian SPCHATACK_TYPE 0, [1]]" SPCHATACK_TYPE 0 "[1]" demo_env 1]
  by (simp add: demo_minus demo_world_of_def demo_sock_def pending_def)







text \<open>
  C37. A message posted in the second in which, or before which, its receiver has last
  polled is never delivered: polls carry the time of the last poll and are answered with
  strictly later seconds only, so a poll with such a time fetches exactly what it would have
  fetched had the transaction not been filed.
\<close>

theorem same_second_lost:
  assumes "chat_database (env_dbms env) good uid texts filed" and "env_dbms env' = env_dbms env" and "good d"
    and "uid d (mm_sender m) = Some s" and "uid d (mm_receiver m) = Some r"
    and "length key = 16" and "pr_msgList pr = m # ms"
    and "0 \<le> sint (mm_time m)" and "sint (mm_time m) div 1000 \<le> sint p div 1000"
    and "stands (inp, tr, c, d) w"
  shows "\<exists>w' i. handle_post env (mm_sender m) key pr w = (Next (), w') \<and>
    (\<forall>v. w_db v = w_db w' \<longrightarrow> (\<exists>f v'. fetch_messages env' p (mm_receiver m) v = (f, v') \<and>
      set (zip (messageDb f) (senderDb f)) = inbox (uid d) (insert (i, posted_text env key (m # ms)) (texts d)) (filed d)
        (mm_receiver m) (number (seconds_string p))))"
  using post_then_late_poll [OF assms] by blast

theorem same_second_lost_witness:
  "\<exists>w' f v'. handle_post demo_store_env (ascii ''bob'') demo_key demo_post (demo_store_world demo_tables) = (Next (), w') \<and>
     fetch_messages demo_store_env (mm_time demo_msg) (ascii ''eve'') (demo_store_world (w_db w')) = (f, v') \<and>
     set (zip (messageDb f) (senderDb f)) = {}"
proof -
  have m: "mm_sender demo_msg = ascii ''bob''" "mm_receiver demo_msg = ascii ''eve''" "0 \<le> sint (mm_time demo_msg)"
    by (simp_all add: demo_msg_def)
  have key: "length demo_key = 16" "pr_msgList demo_post = demo_msg # []" by (simp_all add: demo_key_def demo_post_def)
  from same_second_lost [OF demo_store refl demo_users(1) demo_users(2) [folded m(1)] demo_users(3) [folded m(2)] key m(3) order_refl
      demo_store_stands] obtain w' i where
    w': "handle_post demo_store_env (ascii ''bob'') demo_key demo_post (demo_store_world demo_tables) = (Next (), w')"
    and f: "\<forall>v. w_db v = w_db w' \<longrightarrow> (\<exists>f v'. fetch_messages demo_store_env (mm_time demo_msg) (ascii ''eve'') v = (f, v') \<and>
      set (zip (messageDb f) (senderDb f)) = inbox (table_uid demo_tables) (insert (i, posted_text demo_store_env demo_key [demo_msg]) (set (t_messages demo_tables)))
        (set (t_transactions demo_tables)) (ascii ''eve'') (number (seconds_string (mm_time demo_msg))))"
    unfolding m by blast
  have "w_db (demo_store_world (w_db w')) = w_db w'" by (simp add: demo_store_world_def)
  moreover have "inbox x y (set (t_transactions demo_tables)) z n = {}" for x y z n by (simp add: inbox_def demo_tables_def)
  ultimately show ?thesis using w' f by metis
qed

text \<open>
  C38. One bad frame silences the Java client for good: ten bytes that are not the header
  leave the flag of the reader thread set, so that its loop never reads again, whatever
  comes behind them; a well-formed header with an unknown type ends the thread by a null
  pointer in the switch.
\<close>

theorem reader_gives_up:
  assumes "pending (bc_sock cl1) = bs @ rest" and "length bs = 10" and "string_of bs \<noteq> HEADER_J"
    and "pending (bc_sock cl2) = frame_header LittleEndian ty n @ rest" and "0 \<le> sint n" and "6 < uint ty"
  shows "(\<exists>q. reader_run lib (Suc k) False cl1 = (Stuck, unread_in q cl1) \<and> concat q = rest) \<and>
    (\<exists>q. reader_run lib (Suc k) False cl2 = (Dead, unread_in q cl2) \<and> concat q = rest)"
  using turn_bad_header [OF _ assms(2,3), of rest cl1] turn_unknown_type [OF _ assms(5,6), of rest cl2] assms(1,4)
  by (simp add: comes_def unread_in_def pending_def) blast

theorem reader_gives_up_witness:
  "\<exists>q q'. reader_run demo_lib 5 False (demo_eve ((7 # replicate 9 7) @ [1, 2])) = (Stuck, unread_in q (demo_eve ((7 # replicate 9 7) @ [1, 2]))) \<and>
     concat q = [1, 2] \<and>
     reader_run demo_lib 5 False (demo_eve (frame_header LittleEndian 9 1 @ [1, 2])) = (Dead, unread_in q' (demo_eve (frame_header LittleEndian 9 1 @ [1, 2]))) \<and>
     concat q' = [1, 2]"
proof -
  have p: "pending (bc_sock (demo_eve bs)) = bs" for bs by (simp add: demo_eve_def demo_sock_def pending_def)
  have h: "string_of (7 # replicate 9 7) \<noteq> HEADER_J" by (simp add: string_of_def HEADER_J_def jstr_def)
  have n: "length (7 # replicate 9 7 :: bytes) = 10" "0 \<le> sint (1 :: clong)" "6 < uint (9 :: byte)" by simp_all
  have "(5 :: nat) = Suc 4" by simp
  then show ?thesis using reader_gives_up [OF p n(1) h p n(2,3), of demo_lib 4] by auto
qed

text \<open>
  C39. An answer that arrives in two segments, cut inside the block of its cipher text,
  silences the client: while the same bytes in one segment are shown in the window, now the
  constructor decrypts the front of the block with zeros behind it and takes the rest of the
  block for the length of the text; unless that number happens to fit, it throws, the text
  is never shown and the reader thread reads nothing more.
\<close>

theorem short_read_garbles:
  assumes "row_ok env key row" and "row ! 0 = getBytes msg" and "row ! 2 = getBytes u" and "is_ascii msg" and "length msg < 16"
    and "good_name u" and "reads_as env key lib r cl" and "0 \<le> sint t" and "sint t \<le> sint (jv_now lib (bc_clock cl))"
    and "front @ behind = encode LittleEndian [] (reply env key (poll_of r t) row)" and "24 < length behind" and "length behind < 40"
    and "garbled (jv_cipher lib) (fresh_cipher lib False cl)
      (take (40 - length behind) (fst (env_encrypt env key ivString (getBytes msg)))) behind"
  shows "(\<exists>cl'. reader_turn lib (unread_in [front @ behind] cl) = (Ready, cl') \<and> bc_incoming cl' = bc_incoming cl @ shown_text lib u msg t) \<and>
    (\<exists>cl'. reader_run lib (Suc k) False (unread_in [front, behind] cl) = (Stuck, cl') \<and> bc_incoming cl' = bc_incoming cl)"
proof
  let ?one = "unread_in [front @ behind] cl" and ?two = "unread_in [front, behind] cl"
  have reads: "reads_as env key lib r (unread_in q cl)" "fresh_cipher lib False (unread_in q cl) = fresh_cipher lib False cl"
    "bc_incoming (unread_in q cl) = bc_incoming cl" "bc_clock (unread_in q cl) = bc_clock cl" for q
    using assms(7) by (simp_all add: reads_as_def unread_in_def fresh_cipher_def)
  have a: "at_once (encode LittleEndian [] (reply env key (poll_of r t) row) @ []) (bc_sock ?one)"
    using assms(10) by (simp add: at_once_def unread_in_def pending_def)
  have "window_shows env key lib r u msg t (encode LittleEndian [] (reply env key (poll_of r t) row))"
    by (rule reply_shown [OF assms(1-3,6,4,8)])
  then show "\<exists>cl'. reader_turn lib ?one = (Ready, cl') \<and> bc_incoming cl' = bc_incoming cl @ shown_text lib u msg t"
    using reads(1) a assms(9) unfolding window_shows_def by (metis reads(3,4))
  have "inq (bc_sock ?two) = [front, behind]" by (simp add: unread_in_def)
  from split_answer_stuck [OF assms(1-6) reads(1) this assms(10-12)] assms(13)
  obtain cl' where "reader_turn lib ?two = (Stuck, cl')" "bc_incoming cl' = bc_incoming cl" by (auto simp: reads)
  then show "\<exists>cl'. reader_run lib (Suc k) False ?two = (Stuck, cl') \<and> bc_incoming cl' = bc_incoming cl"
    by (simp add: reader_stuck)
qed

theorem short_read_garbles_witness:
  "\<exists>front behind cl1 cl2. reader_turn demo_lib (demo_eve (front @ behind)) = (Ready, cl1) \<and>
     bc_incoming cl1 = shown_text demo_lib (jstr ''bob'') (jstr ''hello'') 1000 \<and>
     reader_run demo_lib 5 False (unread_in [front, behind] (demo_eve (front @ behind))) = (Stuck, cl2) \<and> bc_incoming cl2 = []"
proof -
  let ?row = "[ascii ''hello'', ascii ''eve'', ascii ''bob'', ascii ''2016-04-08'']"
  let ?F = "encode LittleEndian [] (reply demo_chat_env demo_key (poll_of (jstr ''eve'') 1000) ?row)"
  let ?b = "demo_pad (ascii ''hello'')"
  have row: "row_ok demo_chat_env demo_key ?row" "?row ! 0 = getBytes (jstr ''hello'')" "?row ! 2 = getBytes (jstr ''bob'')"
    by (simp_all add: row_ok_def length_pad bob_valid demo_names demo_hello)
  have eleven: "replicate 11 (11 :: byte) = [11, 11, 11, 11, 11, 11, 11, 11, 11, 11, 11]" by (simp add: numeral_eq_Suc)
  have block: "?b = [104, 101, 108, 108] @ [111, 11, 11, 11, 11, 11, 11, 11, 11, 11, 11, 11]"
    using eleven by (simp add: demo_pad_def ascii_def Let_def)
  obtain front behind where F: "?F = front @ [104, 101, 108, 108] @ [111, 11, 11, 11, 11, 11, 11, 11, 11, 11, 11, 11] @ behind"
    "length behind = 24"
    using answer_ends [of demo_chat_env demo_key "poll_of (jstr ''eve'') 1000" ?row] block by (auto simp: demo_hello)
  let ?front = "front @ [104, 101, 108, 108]" and ?behind = "[111, 11, 11, 11, 11, 11, 11, 11, 11, 11, 11, 11] @ behind"
  have split: "?front @ ?behind = ?F" "24 < length ?behind" "length ?behind < 40" using F by simp_all
  have "sint (from_bytes [111, 11, 11, 11, 11, 11, 11, 11] :: clong) \<noteq> 16" by (simp add: from_bytes_def)
  then have g: "garbled (jv_cipher demo_lib) (fresh_cipher demo_lib False (demo_eve (?front @ ?behind)))
      (take (40 - length ?behind) (fst (env_encrypt demo_chat_env demo_key ivString (getBytes (jstr ''hello''))))) ?behind"
    by (simp add: garbled_def demo_hello block F(2) demo_lib_def demo_cipher_def fresh_cipher_def demo_unpad_def)
  have t: "0 \<le> sint (1000 :: clong)" "sint (1000 :: clong) \<le> sint (jv_now demo_lib (bc_clock (demo_eve (?front @ ?behind))))"
    "length (jstr ''hello'') < 16"
    by (simp_all add: demo_lib_def demo_hello jstr_def)
  have "unread_in [?front @ ?behind] (demo_eve (?front @ ?behind)) = demo_eve (?front @ ?behind)" "bc_incoming (demo_eve bs) = []" for bs
    by (simp_all add: unread_in_def demo_eve_def demo_sock_def demo_client_def)
  moreover have "(5 :: nat) = Suc 4" by simp
  ultimately show ?thesis
    using short_read_garbles [OF row demo_hello(1) t(3) demo_names(1) demo_reads t(1,2) split g, of 4]
    by (metis append_Nil)
qed

text \<open>
  C40. The threads of the Java client write to one stream without a lock. There is an
  interleaving of the writes of a poll and of those of a chat message on which the thread of
  the server, whatever its host, takes text of the second header for a length and declares a
  local array of that size: the behaviour of the whole server is undefined.
\<close>

theorem interleaved_writes:
  assumes "env_good env"
  shows "\<exists>ws \<in> shuffles (jp_encode p) (jq_encode now i m). \<forall>rest w. pending (w_sock w) = concat (map the ws) @ rest \<longrightarrow>
    fst (serve_one env u key w) = Stopped (Undefined BadArraySize)"
proof -
  obtain vs1 vs2 where vs: "jp_encode p = header_writes PollType (jp_messageLen p) @ vs1"
    "jq_encode now i m = header_writes PollResponseType (jq_messageLen m) @ vs2"
    by (simp add: jp_encode_def jq_encode_def)
  from headers_meet [OF vs] obtain ws bs where
    ws: "ws \<in> shuffles (jp_encode p) (jq_encode now i m)" "writes ws = frame_header LittleEndian 83 0x50436861742F312E @ bs" by blast
  have "max_vla (env_host env) < 2 ^ 31" using assms by (simp add: env_good_def)
  from huge_array [OF _ this] ws show ?thesis
    by (intro bexI [of _ ws]) (fastforce simp: writes_def serve_one_def abind_def)
qed

theorem interleaved_writes_witness:
  "\<exists>ws. fst (serve_one demo_env (ascii ''bob'') demo_key (demo_world_of [concat (map the ws)]))
     = Stopped (Undefined BadArraySize)"
proof -
  obtain ws where ws: "\<forall>rest w. pending (w_sock w) = concat (map the ws) @ rest \<longrightarrow>
      fst (serve_one demo_env (ascii ''bob'') demo_key w) = Stopped (Undefined BadArraySize)"
    using interleaved_writes [OF demo_good] by blast
  have "pending (w_sock (demo_world_of [bs])) = bs @ []" for bs by (simp add: demo_world_of_def demo_sock_def pending_def)
  with ws show ?thesis by blast
qed

end
